(* ===== verification/Prelude.thy ===== *)
theory Prelude
  imports Main "HOL-Library.Word" "HOL-Library.Monad_Syntax"
begin

unbundle bit_operations_syntax

text \<open>
  Shared vocabulary of the development: the machine integers of the Rust code, panics,
  slices of byte buffers, big- and little-endian codecs, and the generic contract of a
  transition system with an invariant.

  A Rust function that can panic is modelled with an option type whose \<open>None\<close> is
  the panic; \<open>Result<T, E>\<close> is the sum \<open>'e + 't\<close> with \<open>Inl\<close> for the error,
  and \<open>Option<T>\<close> is \<open>'t option\<close>.  Arithmetic follows the checked build profile:
  an overflow that is not spelled \<open>wrapping_\<dots>\<close> or \<open>saturating_\<dots>\<close> in the
  source is a panic.
\<close>

section \<open>Machine integers and panics\<close>

type_synonym u8 = "8 word"
type_synonym u16 = "16 word"
type_synonym u32 = "32 word"
type_synonym u64 = "64 word"

type_synonym bytes = "u8 list"

text \<open>The proof library: rules that unfold panicking code, and codec equations.\<close>

named_theorems panic_simps
named_theorems codec_simps

definition ensure :: "bool \<Rightarrow> unit option" where
  "ensure b = (if b then Some () else None)"

lemma ensure_simps [simp, panic_simps]:
  "ensure True = Some ()" "ensure False = None"
  "ensure b = Some u \<longleftrightarrow> b" "ensure b = None \<longleftrightarrow> \<not> b"
  by (simp_all add: ensure_def)

lemma bind_ensure [simp, panic_simps]:
  "Option.bind (ensure b) f = (if b then f () else None)"
  by (simp add: ensure_def)

lemma bind_Some_iff [panic_simps]:
  "Option.bind m f = Some y \<longleftrightarrow> (\<exists>x. m = Some x \<and> f x = Some y)"
  by (cases m) simp_all

lemma bind_SomeE:
  assumes "Option.bind m f = Some y"
  obtains x where "m = Some x" "f x = Some y"
  using assms by (auto simp: bind_Some_iff)

lemma bind_None_iff [panic_simps]:
  "Option.bind m f = None \<longleftrightarrow> m = None \<or> (\<exists>x. m = Some x \<and> f x = None)"
  by (cases m) simp_all

lemma bind_Some_map_option [simp]: "Option.bind m (\<lambda>x. Some (f x)) = map_option f m"
  by (cases m) simp_all

lemma bind_map_option [simp]: "Option.bind (map_option f m) g = Option.bind m (\<lambda>x. g (f x))"
  by (cases m) simp_all

text \<open>\<open>i64\<close> arithmetic: the mathematical result, or a panic when it does not fit.\<close>

definition i64_checked :: "int \<Rightarrow> int option" where
  "i64_checked x = (if - (2 ^ 63) \<le> x \<and> x < 2 ^ 63 then Some x else None)"

lemma i64_checked_Some [panic_simps]:
  "i64_checked x = Some y \<longleftrightarrow> y = x \<and> - (2 ^ 63) \<le> x \<and> x < 2 ^ 63"
  by (auto simp: i64_checked_def)

definition saturating_add_u8 :: "u8 \<Rightarrow> u8 \<Rightarrow> u8" where
  "saturating_add_u8 a b = (if unat a + unat b < 256 then a + b else 255)"

lemma unat_saturating_add_u8:
  "unat (saturating_add_u8 a b) = min 255 (unat a + unat b)"
  by (auto simp: saturating_add_u8_def unat_word_ariths)

section \<open>The signed distance of two 64-bit counters\<close>

text \<open>
  \<open>sn.wrapping_sub(last) as i64\<close>: the wrapping difference read as a signed number.
\<close>

definition wrapping_offset :: "u64 \<Rightarrow> u64 \<Rightarrow> int" where
  "wrapping_offset sn lst = sint (sn - lst)"

lemma wrapping_offset_range:
  "- (2 ^ 63) \<le> wrapping_offset a b" "wrapping_offset a b < 2 ^ 63"
  using sint_greater_eq [of "a - b"] sint_less [of "a - b"]
  by (simp_all add: wrapping_offset_def)

lemma mod_eq_sub: "n \<le> m \<Longrightarrow> m < 2 * n \<Longrightarrow> m mod n = m - n" for m n :: int
  by (metis add.commute diff_add_cancel diff_ge_0_iff_ge diff_less_eq mod_add_self2 mod_pos_pos_trivial mult_2)

lemma sint_u64_unat:
  "sint (w :: u64) = (if unat w < 2 ^ 63 then int (unat w) else int (unat w) - 2 ^ 64)"
proof -
  have lt: "uint w < 2 ^ 64" and ge: "0 \<le> uint w"
    using uint_lt2p [of w] by simp_all
  have "sint w = (uint w + 2 ^ 63) mod 2 ^ 64 - 2 ^ 63"
    by (simp add: sint_uint signed_take_bit_eq_take_bit_shift take_bit_eq_mod)
  then have "sint w = (if uint w < 2 ^ 63 then uint w else uint w - 2 ^ 64)"
    using lt ge by (cases "uint w < 2 ^ 63") (simp_all add: mod_pos_pos_trivial mod_eq_sub)
  then show ?thesis
    by (simp add: uint_nat del: of_nat_unat)
qed

text \<open>
  The lookup that every window operation of \<open>zdpr.rs\<close> repeats: where does the counter
  \<open>sn\<close> fall in a queue of \<open>len\<close> entries whose rightmost entry has the counter
  \<open>lst\<close>?  Negating \<open>i64::MIN\<close> panics.
\<close>

datatype slot = Future | Past | Slot nat

definition locate :: "u64 \<Rightarrow> u64 \<Rightarrow> nat \<Rightarrow> slot option" where
  "locate sn lst len = (let offset = wrapping_offset sn lst in
     if offset > 0 then Some Future
     else do {
       n \<leftarrow> i64_checked (- offset);
       if n \<ge> int len then Some Past
       else Some (Slot (nat (int len + offset - 1)))
     })"

text \<open>The age of a counter: how far it lies behind the newest one.\<close>

definition age :: "u64 \<Rightarrow> u64 \<Rightarrow> nat" where
  "age lst sn = unat (lst - sn)"

lemma age_self [simp]: "age lst lst = 0"
  by (simp add: age_def)

lemma unat_u64_less: "unat (w :: u64) < 2 ^ 64"
  using uint_lt2p [of w] by (simp add: uint_nat del: of_nat_unat)

lemma unat_u8_less: "unat (w :: u8) < 256"
  using uint_lt2p [of w] by (simp add: uint_nat del: of_nat_unat)

lemma age_less: "age lst sn < 2 ^ 64"
  unfolding age_def by (rule unat_u64_less)

lemma unat_minus_u64: "unat (- w :: u64) = (if w = 0 then 0 else 2 ^ 64 - unat w)"
proof -
  have "int (unat (- w)) = - int (unat w) mod 2 ^ 64"
    using uint_word_ariths(4) [of w] by simp
  also have "\<dots> = (if w = 0 then 0 else 2 ^ 64 - int (unat w))"
    using unat_u64_less [of w]
    by (auto simp: zmod_zminus1_eq_if mod_pos_pos_trivial unat_eq_0 uint_nat simp del: of_nat_unat)
  finally show ?thesis
    using unat_u64_less [of w] by (auto simp: of_nat_diff uint_nat simp del: of_nat_unat)
qed

lemma wrapping_offset_age:
  "wrapping_offset sn lst =
     (if age lst sn = 0 then 0
      else if age lst sn \<le> 2 ^ 63 then - int (age lst sn) else 2 ^ 64 - int (age lst sn))"
proof -
  have *: "sn - lst = - (lst - sn)" by simp
  show ?thesis
    using unat_u64_less [of "lst - sn"]
    unfolding wrapping_offset_def age_def * sint_u64_unat unat_minus_u64
    by (auto simp: of_nat_diff unat_eq_0 uint_nat simp del: of_nat_unat)
qed

lemma locate_age:
  assumes "len < 2 ^ 63"
  shows "locate sn lst len =
    (if age lst sn > 2 ^ 63 then Some Future
     else if age lst sn = 2 ^ 63 then None
     else if age lst sn \<ge> len then Some Past
     else Some (Slot (len - 1 - age lst sn)))"
  using assms age_less [of lst sn]
  by (auto simp: locate_def wrapping_offset_age i64_checked_def Let_def nat_diff_distrib
      of_nat_diff split: if_splits)

lemma age_Suc: "age lst sn < 2 ^ 64 - 1 \<Longrightarrow> age (lst + 1) sn = Suc (age lst sn)"
proof -
  assume lt: "age lst sn < 2 ^ 64 - 1"
  have *: "lst + 1 - sn = (lst - sn) + 1" by simp
  have "age (lst + 1) sn = (age lst sn + 1) mod 2 ^ 64"
    unfolding age_def * unat_word_ariths by simp
  with lt show ?thesis by simp
qed

lemma age_minus_of_nat: "n < 2 ^ 64 \<Longrightarrow> age lst (lst - of_nat n) = n"
  by (simp add: age_def unat_of_nat)

lemma age_inject: "age lst a = age lst b \<longleftrightarrow> a = b"
  by (simp add: age_def word_unat_eq_iff [symmetric])

section \<open>Transition systems with an invariant\<close>

text \<open>
  The contract every stateful component is held to: the initial states satisfy the
  invariant and every step keeps it.  What the components gain is that the invariant
  holds in every state that some sequence of operations can reach.
\<close>

locale invariant_system =
  fixes init :: "'s \<Rightarrow> bool"
    and step :: "'s \<Rightarrow> 's \<Rightarrow> bool"
    and inv :: "'s \<Rightarrow> bool"
  assumes inv_init: "init s \<Longrightarrow> inv s"
    and inv_step: "inv s \<Longrightarrow> step s t \<Longrightarrow> inv t"
begin

lemma inv_steps: "inv s \<Longrightarrow> step\<^sup>*\<^sup>* s t \<Longrightarrow> inv t"
  by (rotate_tac, induction rule: rtranclp_induct) (auto intro: inv_step)

lemma inv_reachable: "init s \<Longrightarrow> step\<^sup>*\<^sup>* s t \<Longrightarrow> inv t"
  by (blast intro: inv_init inv_steps)

text \<open>A quantity no step changes is constant along every run.\<close>

lemma frame_steps:
  assumes "\<And>s t. inv s \<Longrightarrow> step s t \<Longrightarrow> f t = f s" and "inv s" and "step\<^sup>*\<^sup>* s t"
  shows "f t = f s"
  using assms(3,2)
proof (induction rule: rtranclp_induct)
  case base
  then show ?case by simp
next
  case (step t u)
  then show ?case using assms(1) inv_steps by metis
qed

text \<open>A relation to the start that every step extends holds along every run.\<close>

lemma mono_steps:
  assumes "\<And>s. P s s" and "\<And>s t u. P s t \<Longrightarrow> inv t \<Longrightarrow> step t u \<Longrightarrow> P s u"
    and "inv s" and "step\<^sup>*\<^sup>* s t"
  shows "P s t"
  using assms(4,3)
proof (induction rule: rtranclp_induct)
  case base
  show ?case by (rule assms(1))
next
  case (step t u)
  then show ?case using assms(2) inv_steps by metis
qed

end

end
