(* ===== verification/Zdpr_Sender.thy ===== *)
theory Zdpr_Sender
  imports Prelude
begin

text \<open>
  The sending half of the reliable ZDP session (\<open>adapter/ph/src/zdpr.rs\<close>, lines 20 to
  1074): the per-packet states and their transitions, the sender's three queues, every
  operation on them with its panics and wake-ups, and the invariant that the operations
  keep.  A \<open>Waker\<close> of the async runtime is a number; an operation that wakes wakers
  returns the list of the wakers woken, in order.
\<close>

section \<open>Data\<close>

datatype waker = Noop | Waker nat

datatype 'p enqueue_result = Sent u64 'p | Queued u64

datatype sender_stat = InvalidAck | TooOldAck | DuplicateAck | TooNewAck

fun sender_stat_is_protocol_error :: "sender_stat \<Rightarrow> bool" where
  "sender_stat_is_protocol_error InvalidAck = True"
| "sender_stat_is_protocol_error TooNewAck = True"
| "sender_stat_is_protocol_error _ = False"

text \<open>
  \<open>Unacked packet waker retry_limit retry_count forgotten\<close> and
  \<open>CancelRequested waker forgotten\<close>.
\<close>

datatype 'p unacked_state =
    Unacked 'p waker "u8 option" u8 bool
  | CancelRequested waker bool
  | Acked
  | CancelAcked

text \<open>\<open>Blocked packet waker retry_limit\<close>.\<close>

datatype 'p blocked_state = Blocked 'p waker "u8 option" | Canceled

record 'p sender =
  window_size :: nat
  last_sent :: u64
  unacked :: "'p unacked_state list"
  last_enqueued :: u64
  blocked :: "'p blocked_state list"
  sent :: "u64 option list"
  stats :: "sender_stat \<Rightarrow> u64"

datatype 'a poll = Ready 'a | Pending

section \<open>One packet\<close>

fun unacked_is_acked :: "'p unacked_state \<Rightarrow> bool" where
  "unacked_is_acked Acked = True"
| "unacked_is_acked CancelAcked = True"
| "unacked_is_acked _ = False"

fun unacked_cancel :: "'p unacked_state \<Rightarrow> 'p option \<times> 'p unacked_state" where
  "unacked_cancel (Unacked packet waker _ _ forgotten) =
     (Some packet, CancelRequested waker forgotten)"
| "unacked_cancel st = (None, st)"

definition reduce_limit :: "u8 \<Rightarrow> u8 option \<Rightarrow> u8 option" where
  "reduce_limit limit retry_limit =
     Some (min limit (case retry_limit of None \<Rightarrow> 255 | Some l \<Rightarrow> l))"

fun unacked_limit_retries :: "u8 \<Rightarrow> 'p unacked_state \<Rightarrow> 'p unacked_state" where
  "unacked_limit_retries limit (Unacked packet waker retry_limit retry_count forgotten) =
     Unacked packet waker (reduce_limit limit retry_limit) retry_count forgotten"
| "unacked_limit_retries limit st = st"

fun unacked_forget :: "'p unacked_state \<Rightarrow> 'p unacked_state" where
  "unacked_forget (Unacked packet waker (Some limit) retry_count forgotten) =
     Unacked packet waker (Some limit) retry_count True"
| "unacked_forget (CancelRequested waker forgotten) = CancelRequested waker True"
| "unacked_forget CancelAcked = Acked"
| "unacked_forget st = st"

fun unacked_age_retries :: "'p unacked_state \<Rightarrow> 'p option \<times> 'p unacked_state" where
  "unacked_age_retries (Unacked packet waker retry_limit retry_count forgotten) =
     (if (case retry_limit of Some limit \<Rightarrow> retry_count \<ge> limit | None \<Rightarrow> False)
      then unacked_cancel (Unacked packet waker retry_limit retry_count forgotten)
      else (None,
        Unacked packet waker retry_limit (saturating_add_u8 retry_count 1) forgotten))"
| "unacked_age_retries st = (None, st)"

fun unacked_destruct :: "'p unacked_state \<Rightarrow> 'p option \<times> waker list" where
  "unacked_destruct (Unacked packet waker _ _ _) = (Some packet, [waker])"
| "unacked_destruct (CancelRequested waker _) = (None, [waker])"
| "unacked_destruct _ = (None, [])"

fun blocked_cancel :: "'p blocked_state \<Rightarrow> ('p \<times> waker) option \<times> 'p blocked_state" where
  "blocked_cancel (Blocked packet waker _) = (Some (packet, waker), Canceled)"
| "blocked_cancel st = (None, st)"

fun blocked_limit_retries :: "u8 \<Rightarrow> 'p blocked_state \<Rightarrow> 'p blocked_state" where
  "blocked_limit_retries limit (Blocked packet waker retry_limit) =
     Blocked packet waker (reduce_limit limit retry_limit)"
| "blocked_limit_retries limit st = st"

fun blocked_destruct :: "'p blocked_state \<Rightarrow> 'p option \<times> waker list" where
  "blocked_destruct (Blocked packet waker _) = (Some packet, [waker])"
| "blocked_destruct Canceled = (None, [])"

section \<open>Queue maintenance\<close>

definition is_blocked :: "'p sender \<Rightarrow> bool" where
  "is_blocked s \<longleftrightarrow> length (unacked s) \<ge> window_size s"

definition has_blocked_packets :: "'p sender \<Rightarrow> bool" where
  "has_blocked_packets s \<longleftrightarrow> blocked s \<noteq> []"

definition is_acked :: "'p sender \<Rightarrow> u64 \<Rightarrow> bool option" where
  "is_acked s sn = do {
     place \<leftarrow> locate sn (last_sent s) (length (unacked s));
     Some (case place of
         Future \<Rightarrow> False
       | Past \<Rightarrow> True
       | Slot idx \<Rightarrow> unacked_is_acked (unacked s ! idx))
   }"

fun clean_blocked_loop ::
    "'p blocked_state list \<Rightarrow> u64 option list \<Rightarrow> 'p blocked_state list \<times> u64 option list"
where
  "clean_blocked_loop (Canceled # bs) ss = clean_blocked_loop bs (ss @ [None])"
| "clean_blocked_loop bs ss = (bs, ss)"

definition clean_blocked_queue :: "'p sender \<Rightarrow> 'p sender" where
  "clean_blocked_queue s = (case clean_blocked_loop (blocked s) (sent s) of
     (bs, ss) \<Rightarrow> s\<lparr>blocked := bs, sent := ss\<rparr>)"

fun clean_unacked_loop :: "'p unacked_state list \<Rightarrow> 'p unacked_state list" where
  "clean_unacked_loop (Acked # us) = clean_unacked_loop us"
| "clean_unacked_loop us = us"

definition clean_unacked_queue :: "'p sender \<Rightarrow> 'p sender" where
  "clean_unacked_queue s = s\<lparr>unacked := clean_unacked_loop (unacked s)\<rparr>"

fun clean_sent_loop :: "'p sender \<Rightarrow> u64 option list \<Rightarrow> u64 option list option" where
  "clean_sent_loop s [] = Some []"
| "clean_sent_loop s (None # ss) = clean_sent_loop s ss"
| "clean_sent_loop s (Some sn # ss) = do {
     a \<leftarrow> is_acked s sn;
     if \<not> a then Some (Some sn # ss) else clean_sent_loop s ss
   }"

definition clean_sent_queue :: "'p sender \<Rightarrow> 'p sender option" where
  "clean_sent_queue s = do {
     ss \<leftarrow> clean_sent_loop s (sent s);
     Some (s\<lparr>sent := ss\<rparr>)
   }"


text \<open>Statistics are incremented with checked arithmetic.\<close>

definition count_sender_stat :: "sender_stat \<Rightarrow> 'p sender \<Rightarrow> 'p sender option" where
  "count_sender_stat k s = do {
     ensure (stats s k \<noteq> - 1);
     Some (s\<lparr>stats := (stats s)(k := stats s k + 1)\<rparr>)
   }"

section \<open>Creation, reset and window\<close>

definition sender_new :: "'p sender" where
  "sender_new = \<lparr>window_size = 1, last_sent = - 1, unacked = [], last_enqueued = - 1,
     blocked = [], sent = [], stats = (\<lambda>_. 0)\<rparr>"

text \<open>\<open>isize::MAX\<close>, the largest capacity a \<open>VecDeque\<close> can be asked to reserve.\<close>

definition max_capacity :: nat where
  "max_capacity = 2 ^ 63 - 1"

definition adjust_window_size :: "nat \<Rightarrow> 'p sender \<Rightarrow> 'p sender option" where
  "adjust_window_size new_size s = do {
     ensure (new_size \<ge> 1);
     ensure (new_size \<ge> length (unacked s) \<longrightarrow> new_size \<le> max_capacity);
     Some (s\<lparr>window_size := new_size\<rparr>)
   }"

text \<open>The packets returned for disposal and the wakers woken, in order.\<close>

definition destruct_internal :: "'p sender \<Rightarrow> 'p list \<times> waker list \<times> 'p sender" where
  "destruct_internal s =
     (let parts = map unacked_destruct (unacked s) @ map blocked_destruct (blocked s) in
      (List.map_filter fst parts, concat (map snd parts), s\<lparr>unacked := [], blocked := []\<rparr>))"

definition sender_reset :: "'p sender \<Rightarrow> waker list \<times> 'p sender" where
  "sender_reset s = (fst (snd (destruct_internal s)), sender_new)"

section \<open>Queries and polling\<close>

definition is_sent :: "'p sender \<Rightarrow> u64 \<Rightarrow> bool option" where
  "is_sent s pid = do {
     n \<leftarrow> i64_checked (- wrapping_offset pid (last_enqueued s));
     Some (n \<ge> int (length (blocked s)))
   }"

definition is_cancel_acked :: "'p sender \<Rightarrow> u64 \<Rightarrow> bool option" where
  "is_cancel_acked s sn = do {
     place \<leftarrow> locate sn (last_sent s) (length (unacked s));
     case place of
       Future \<Rightarrow> None
     | Past \<Rightarrow> Some False
     | Slot idx \<Rightarrow> (case unacked s ! idx of
           CancelAcked \<Rightarrow> Some True
         | Acked \<Rightarrow> Some False
         | _ \<Rightarrow> None)
   }"

definition lookup_seq_num :: "'p sender \<Rightarrow> u64 \<Rightarrow> u64 option option" where
  "lookup_seq_num s pid = do {
     offset \<leftarrow> i64_checked (wrapping_offset pid (last_enqueued s) + int (length (blocked s)));
     ensure (offset \<le> 0);
     n \<leftarrow> i64_checked (- offset);
     if n \<ge> int (length (sent s)) then Some None
     else Some (sent s ! nat (int (length (sent s)) + offset - 1))
   }"

fun set_unacked_waker :: "waker \<Rightarrow> 'p unacked_state \<Rightarrow> 'p unacked_state" where
  "set_unacked_waker w (Unacked packet _ retry_limit retry_count forgotten) =
     Unacked packet w retry_limit retry_count forgotten"
| "set_unacked_waker w (CancelRequested _ forgotten) = CancelRequested w forgotten"
| "set_unacked_waker w st = st"

definition poll_send :: "waker \<Rightarrow> u64 \<Rightarrow> 'p sender \<Rightarrow> (u64 option poll \<times> 'p sender) option"
where
  "poll_send cx pid s = do {
     place \<leftarrow> locate pid (last_enqueued s) (length (blocked s));
     case place of
       Future \<Rightarrow> None
     | Past \<Rightarrow> do {
         r \<leftarrow> lookup_seq_num s pid;
         Some (Ready r, s)
       }
     | Slot idx \<Rightarrow> (case blocked s ! idx of
           Canceled \<Rightarrow> None
         | Blocked packet _ retry_limit \<Rightarrow>
             Some (Pending, s\<lparr>blocked := (blocked s)[idx := Blocked packet cx retry_limit]\<rparr>))
   }"

definition poll_ack :: "waker \<Rightarrow> u64 \<Rightarrow> 'p sender \<Rightarrow> (unit poll \<times> 'p sender) option" where
  "poll_ack cx sn s = do {
     place \<leftarrow> locate sn (last_sent s) (length (unacked s));
     case place of
       Future \<Rightarrow> None
     | Past \<Rightarrow> Some (Ready (), s)
     | Slot idx \<Rightarrow>
         if unacked_is_acked (unacked s ! idx) then Some (Ready (), s)
         else Some (Pending,
           s\<lparr>unacked := (unacked s)[idx := set_unacked_waker cx (unacked s ! idx)]\<rparr>)
   }"

definition poll_send_and_ack ::
    "waker \<Rightarrow> u64 \<Rightarrow> 'p sender \<Rightarrow> (unit poll \<times> 'p sender) option"
where
  "poll_send_and_ack cx pid s = do {
     (r, s1) \<leftarrow> poll_send cx pid s;
     case r of
       Pending \<Rightarrow> Some (Pending, s1)
     | Ready (Some sn) \<Rightarrow> poll_ack cx sn s1
     | Ready None \<Rightarrow> Some (Ready (), s1)
   }"

section \<open>Sending, cancelling and limiting retries\<close>

definition enqueue_packet :: "'p \<Rightarrow> 'p sender \<Rightarrow> 'p enqueue_result \<times> 'p sender" where
  "enqueue_packet packet s =
     (if is_blocked s \<or> has_blocked_packets s then
        (Queued (last_enqueued s + 1),
         s\<lparr>last_enqueued := last_enqueued s + 1, blocked := blocked s @ [Blocked packet Noop None]\<rparr>)
      else
        (Sent (last_sent s + 1) packet,
         s\<lparr>unacked := unacked s @ [Unacked packet Noop None 0 False],
           last_sent := last_sent s + 1\<rparr>))"

definition cancel_queued_packet ::
    "u64 \<Rightarrow> 'p sender \<Rightarrow> ('p option \<times> waker list \<times> 'p sender) option"
where
  "cancel_queued_packet pid s = do {
     place \<leftarrow> locate pid (last_enqueued s) (length (blocked s));
     case place of
       Future \<Rightarrow> None
     | Past \<Rightarrow> Some (None, [], s)
     | Slot idx \<Rightarrow> (case blocked_cancel (blocked s ! idx) of
           (None, st) \<Rightarrow> Some (None, [], s)
         | (Some (pkt, waker), st) \<Rightarrow>
             (let s1 = s\<lparr>blocked := (blocked s)[idx := st]\<rparr>;
                  s2 = (if idx = 0 then clean_blocked_queue s1 else s1)
              in Some (Some pkt, [waker], s2)))
   }"

definition cancel_sent_packet :: "u64 \<Rightarrow> 'p sender \<Rightarrow> ('p option \<times> 'p sender) option" where
  "cancel_sent_packet sn s = do {
     place \<leftarrow> locate sn (last_sent s) (length (unacked s));
     case place of
       Slot idx \<Rightarrow> (case unacked_cancel (unacked s ! idx) of
           (pkt, st) \<Rightarrow> Some (pkt, s\<lparr>unacked := (unacked s)[idx := st]\<rparr>))
     | _ \<Rightarrow> Some (None, s)
   }"

definition limit_retries_by_seq_num :: "u64 \<Rightarrow> u8 \<Rightarrow> 'p sender \<Rightarrow> 'p sender option" where
  "limit_retries_by_seq_num sn limit s = do {
     place \<leftarrow> locate sn (last_sent s) (length (unacked s));
     case place of
       Slot idx \<Rightarrow> Some (s\<lparr>unacked :=
         (unacked s)[idx := unacked_limit_retries limit (unacked s ! idx)]\<rparr>)
     | _ \<Rightarrow> Some s
   }"

definition limit_retries_by_id :: "u64 \<Rightarrow> u8 \<Rightarrow> 'p sender \<Rightarrow> 'p sender option" where
  "limit_retries_by_id pid limit s = do {
     place \<leftarrow> locate pid (last_enqueued s) (length (blocked s));
     case place of
       Future \<Rightarrow> None
     | Past \<Rightarrow> do {
         r \<leftarrow> lookup_seq_num s pid;
         case r of
           Some sn \<Rightarrow> limit_retries_by_seq_num sn limit s
         | None \<Rightarrow> Some s
       }
     | Slot idx \<Rightarrow> Some (s\<lparr>blocked :=
         (blocked s)[idx := blocked_limit_retries limit (blocked s ! idx)]\<rparr>)
   }"

text \<open>The tail that the two acknowledgement handlers and \<open>forget_canceled_packet\<close> share.\<close>

definition settle_slot :: "nat \<Rightarrow> 'p unacked_state \<Rightarrow> 'p sender \<Rightarrow> 'p sender option" where
  "settle_slot idx st s =
     (let s1 = s\<lparr>unacked := (unacked s)[idx := st]\<rparr>;
          s2 = (if idx = 0 then clean_unacked_queue s1 else s1)
      in clean_sent_queue s2)"

definition forget_canceled_packet :: "u64 \<Rightarrow> 'p sender \<Rightarrow> 'p sender option" where
  "forget_canceled_packet sn s = do {
     place \<leftarrow> locate sn (last_sent s) (length (unacked s));
     case place of
       Slot idx \<Rightarrow> settle_slot idx (unacked_forget (unacked s ! idx)) s
     | _ \<Rightarrow> Some s
   }"

section \<open>Acknowledgements\<close>

definition lookup_ack_index :: "u64 \<Rightarrow> 'p sender \<Rightarrow> (nat option \<times> 'p sender) option" where
  "lookup_ack_index sn s = do {
     place \<leftarrow> locate sn (last_sent s) (length (unacked s));
     case place of
       Future \<Rightarrow> do {
         s1 \<leftarrow> count_sender_stat TooNewAck s;
         Some (None, s1)
       }
     | Past \<Rightarrow> do {
         s1 \<leftarrow> count_sender_stat TooOldAck s;
         Some (None, s1)
       }
     | Slot idx \<Rightarrow> Some (Some idx, s)
   }"

definition process_ack ::
    "u64 \<Rightarrow> 'p sender \<Rightarrow> ('p option \<times> waker list \<times> 'p sender) option"
where
  "process_ack sn s = do {
     (found, s1) \<leftarrow> lookup_ack_index sn s;
     case found of
       None \<Rightarrow> Some (None, [], s1)
     | Some idx \<Rightarrow> (case unacked s1 ! idx of
           Unacked packet waker _ _ _ \<Rightarrow> do {
             s2 \<leftarrow> settle_slot idx Acked s1;
             Some (Some packet, [waker], s2)
           }
         | CancelRequested waker _ \<Rightarrow> do {
             s2 \<leftarrow> settle_slot idx Acked s1;
             Some (None, [waker], s2)
           }
         | Acked \<Rightarrow> do {
             s2 \<leftarrow> count_sender_stat DuplicateAck s1;
             Some (None, [], s2)
           }
         | CancelAcked \<Rightarrow> do {
             s2 \<leftarrow> count_sender_stat InvalidAck s1;
             Some (None, [], s2)
           })
   }"

definition process_canceled :: "u64 \<Rightarrow> 'p sender \<Rightarrow> (waker list \<times> 'p sender) option" where
  "process_canceled sn s = do {
     (found, s1) \<leftarrow> lookup_ack_index sn s;
     case found of
       None \<Rightarrow> Some ([], s1)
     | Some idx \<Rightarrow> (case unacked s1 ! idx of
           CancelRequested waker forgotten \<Rightarrow> do {
             s2 \<leftarrow> settle_slot idx (if forgotten then Acked else CancelAcked) s1;
             Some ([waker], s2)
           }
         | CancelAcked \<Rightarrow> do {
             s2 \<leftarrow> count_sender_stat DuplicateAck s1;
             Some ([], s2)
           }
         | _ \<Rightarrow> do {
             s2 \<leftarrow> count_sender_stat InvalidAck s1;
             Some ([], s2)
           })
   }"

section \<open>Unblocking and retrying\<close>

definition unblock_needed :: "'p sender \<Rightarrow> bool" where
  "unblock_needed s \<longleftrightarrow> \<not> is_blocked s \<and> has_blocked_packets s"

definition enqueue_next_blocked_packet ::
    "'p sender \<Rightarrow> (u64 \<times> 'p \<times> waker list \<times> 'p sender) option"
where
  "enqueue_next_blocked_packet s = do {
     ensure (\<not> is_blocked s);
     case blocked s of
       Blocked packet waker retry_limit # rest \<Rightarrow>
         (let sn = last_sent s + 1;
              s1 = s\<lparr>blocked := rest,
                     unacked := unacked s @ [Unacked packet Noop retry_limit 0 False],
                     last_sent := sn,
                     sent := sent s @ [Some sn]\<rparr>
          in Some (sn, packet, [waker], clean_blocked_queue s1))
     | _ \<Rightarrow> None
   }"

definition retry_needed :: "'p sender \<Rightarrow> bool" where
  "retry_needed s \<longleftrightarrow> (\<exists>st \<in> set (unacked s). \<not> unacked_is_acked st)"

definition age_retries :: "'p sender \<Rightarrow> 'p list \<times> 'p sender" where
  "age_retries s =
     (List.map_filter (fst \<circ> unacked_age_retries) (unacked s),
      s\<lparr>unacked := map (snd \<circ> unacked_age_retries) (unacked s)\<rparr>)"

definition sn_base :: "'p sender \<Rightarrow> u64" where
  "sn_base s = last_sent s - of_nat (length (unacked s)) + 1"

definition retry_packets :: "'p sender \<Rightarrow> (u64 \<times> 'p) list" where
  "retry_packets s = List.map_filter
     (\<lambda>(offset, st). case st of
         Unacked packet _ _ _ _ \<Rightarrow> Some (sn_base s + of_nat offset, packet)
       | _ \<Rightarrow> None)
     (List.enumerate 0 (unacked s))"

definition retry_cancels :: "'p sender \<Rightarrow> u64 list" where
  "retry_cancels s = List.map_filter
     (\<lambda>(offset, st). case st of
         CancelRequested _ _ \<Rightarrow> Some (sn_base s + of_nat offset)
       | _ \<Rightarrow> None)
     (List.enumerate 0 (unacked s))"

definition sender_fetch_reset_stat :: "sender_stat \<Rightarrow> 'p sender \<Rightarrow> u64 \<times> 'p sender" where
  "sender_fetch_reset_stat k s = (stats s k, s\<lparr>stats := (stats s)(k := 0)\<rparr>)"

section \<open>The window as a partial function of sequence numbers\<close>

text \<open>
  The state of the packet with sequence number \<open>sn\<close>, and \<open>None\<close> outside the
  window.  The queue is read from its right end, where the newest packet is.
\<close>

definition status :: "'p sender \<Rightarrow> u64 \<Rightarrow> 'p unacked_state option" where
  "status s sn = (if age (last_sent s) sn < length (unacked s)
     then Some (rev (unacked s) ! age (last_sent s) sn) else None)"

text \<open>The queues of a sender in memory have at most this many entries.\<close>

definition fits :: "'p sender \<Rightarrow> bool" where
  "fits s \<longleftrightarrow> length (unacked s) < 2 ^ 62 \<and> length (blocked s) < 2 ^ 62 \<and> length (sent s) < 2 ^ 62"

definition older :: "u64 \<Rightarrow> u64 option \<Rightarrow> u64 option \<Rightarrow> bool" where
  "older lst x y \<longleftrightarrow> (\<forall>a b. x = Some a \<longrightarrow> y = Some b \<longrightarrow> age lst b < age lst a)"

text \<open>
  Sequence numbers waiting for their lookup lie in the window and are in the order in
  which they were assigned.
\<close>

definition sent_ok :: "'p sender \<Rightarrow> bool" where
  "sent_ok s \<longleftrightarrow> sorted_wrt (older (last_sent s)) (sent s) \<and>
     (\<forall>sn. Some sn \<in> set (sent s) \<longrightarrow> age (last_sent s) sn < length (unacked s))"

definition sender_inv :: "'p sender \<Rightarrow> bool" where
  "sender_inv s \<longleftrightarrow> window_size s \<ge> 1 \<and> fits s \<and> sent_ok s \<and>
     (unacked s \<noteq> [] \<longrightarrow> hd (unacked s) \<noteq> Acked) \<and>
     (blocked s \<noteq> [] \<longrightarrow> hd (blocked s) \<noteq> Canceled)"

definition stale :: "'p sender \<Rightarrow> u64 option \<Rightarrow> bool" where
  "stale s x \<longleftrightarrow> (case x of None \<Rightarrow> True | Some sn \<Rightarrow>
     (case status s sn of None \<Rightarrow> True | Some st \<Rightarrow> unacked_is_acked st))"

lemma rev_nth_age: "n < length xs \<Longrightarrow> rev xs ! n = xs ! (length xs - 1 - n)"
  by (simp add: rev_nth)

lemma locate_sent:
  assumes "length (unacked s) < 2 ^ 63"
  shows "locate sn (last_sent s) (length (unacked s)) =
    (if age (last_sent s) sn > 2 ^ 63 then Some Future
     else if age (last_sent s) sn = 2 ^ 63 then None
     else if status s sn = None then Some Past
     else Some (Slot (length (unacked s) - Suc (age (last_sent s) sn))))"
  using locate_age [OF assms, of sn "last_sent s"] by (simp add: status_def)

lemma status_Slot:
  assumes "status s sn = Some st"
  shows "unacked s ! (length (unacked s) - Suc (age (last_sent s) sn)) = st"
    and "length (unacked s) - Suc (age (last_sent s) sn) < length (unacked s)"
  using assms by (auto simp: status_def rev_nth split: if_splits)

lemma is_acked_status:
  assumes "length (unacked s) < 2 ^ 63" "age (last_sent s) sn < 2 ^ 63"
  shows "is_acked s sn = Some (case status s sn of None \<Rightarrow> True | Some st \<Rightarrow> unacked_is_acked st)"
  using assms by (auto simp: is_acked_def locate_sent status_Slot split: option.splits)

lemma clean_sent_loop_dropWhile:
  assumes "length (unacked s) < 2 ^ 63"
    and "\<And>sn. Some sn \<in> set ss \<Longrightarrow> age (last_sent s) sn < 2 ^ 63"
  shows "clean_sent_loop s ss = Some (dropWhile (stale s) ss)"
  using assms(2)
proof (induction ss)
  case (Cons x ss)
  then show ?case
    by (cases x) (auto simp: is_acked_status [OF assms(1)] stale_def)
qed simp

lemma clean_unacked_loop_dropWhile: "clean_unacked_loop us = dropWhile (\<lambda>st. st = Acked) us"
  by (induction us rule: clean_unacked_loop.induct) auto

lemma clean_blocked_loop_dropWhile:
  "clean_blocked_loop bs ss = (dropWhile (\<lambda>b. b = Canceled) bs,
     ss @ map (\<lambda>_. None) (takeWhile (\<lambda>b. b = Canceled) bs))"
  by (induction bs ss rule: clean_blocked_loop.induct) auto

lemma sorted_wrt_dropWhile: "sorted_wrt P xs \<Longrightarrow> sorted_wrt P (dropWhile Q xs)"
  by (simp add: dropWhile_eq_drop sorted_wrt_drop)

lemma hd_clean_unacked: "dropWhile (\<lambda>st. st = Acked) us \<noteq> [] \<Longrightarrow> hd (dropWhile (\<lambda>st. st = Acked) us) \<noteq> Acked"
  using hd_dropWhile by blast

lemma nth_rev_dropWhile:
  assumes "n < length (dropWhile P xs)"
  shows "rev (dropWhile P xs) ! n = rev xs ! n"
proof -
  have "rev xs = rev (dropWhile P xs) @ rev (takeWhile P xs)"
    by (metis rev_append takeWhile_dropWhile_id)
  then show ?thesis using assms by (simp add: nth_append)
qed

lemma nth_rev_takeWhile:
  assumes "length (dropWhile P xs) \<le> n" "n < length xs"
  shows "P (rev xs ! n)"
proof -
  have eq: "rev xs = rev (dropWhile P xs) @ rev (takeWhile P xs)"
    by (metis rev_append takeWhile_dropWhile_id)
  have len: "n - length (dropWhile P xs) < length (takeWhile P xs)"
    using assms by (metis (no_types, lifting) add_diff_cancel_right' diff_less_mono length_append takeWhile_dropWhile_id add.commute)
  have "rev xs ! n = rev (takeWhile P xs) ! (n - length (dropWhile P xs))"
    using assms by (simp add: eq nth_append)
  then have "rev xs ! n \<in> set (takeWhile P xs)"
    using len by (metis length_rev nth_mem set_rev)
  then show ?thesis by (rule set_takeWhileD [THEN conjunct2])
qed

section \<open>The abstraction: one state per sequence number\<close>

text \<open>
  The contract of the window is a total function from sequence numbers to packet states,
  in which everything outside the window counts as acknowledged.  The operations update
  this function at one point; removing acknowledged entries on the left of the queue does
  not change it.
\<close>

definition view :: "u64 \<Rightarrow> 'p unacked_state list \<Rightarrow> u64 \<Rightarrow> 'p unacked_state" where
  "view lst us sn = (if age lst sn < length us then rev us ! age lst sn else Acked)"

definition slot_state :: "'p sender \<Rightarrow> u64 \<Rightarrow> 'p unacked_state" where
  "slot_state s = view (last_sent s) (unacked s)"

named_theorems view_simps

lemma view_update [view_simps]:
  assumes "age lst sn < length us"
  shows "view lst (us[length us - Suc (age lst sn) := st]) = (view lst us)(sn := st)"
proof
  fix x
  have "rev (us[length us - Suc (age lst sn) := st]) = (rev us)[age lst sn := st]"
    using assms by (simp add: rev_update)
  then show "view lst (us[length us - Suc (age lst sn) := st]) x = ((view lst us)(sn := st)) x"
    using assms by (auto simp: view_def nth_list_update age_inject)
qed

lemma view_clean [view_simps]: "view lst (dropWhile (\<lambda>st. st = Acked) us) = view lst us"
proof
  fix x
  have "length (dropWhile (\<lambda>st. st = Acked) us) \<le> length us"
    by (rule length_dropWhile_le)
  then show "view lst (dropWhile (\<lambda>st. st = Acked) us) x = view lst us x"
    using nth_rev_dropWhile [of "age lst x" "\<lambda>st. st = Acked" us]
      nth_rev_takeWhile [of "\<lambda>st. st = Acked" us "age lst x"]
    by (auto simp: view_def)
qed

lemma age_pred: "x \<noteq> lst + 1 \<Longrightarrow> age (lst + 1) x = Suc (age lst x)"
proof (rule age_Suc, rule ccontr)
  assume ne: "x \<noteq> lst + 1" and "\<not> age lst x < 2 ^ 64 - 1"
  then have "age lst x = age lst (lst + 1)"
    using age_less [of lst x] unat_minus_u64 [of 1] by (simp add: age_def)
  with ne show False by (simp add: age_inject)
qed

lemma view_snoc [view_simps]:
  "view (lst + 1) (us @ [st]) = (view lst us)(lst + 1 := st)"
  by (rule ext) (auto simp: view_def age_pred)

lemma view_map [view_simps]: "f Acked = Acked \<Longrightarrow> view lst (map f us) x = f (view lst us x)"
  by (simp add: view_def rev_map)

lemma slot_state_status: "slot_state s sn = (case status s sn of None \<Rightarrow> Acked | Some st \<Rightarrow> st)"
  by (simp add: slot_state_def view_def status_def)

lemma sender_invD:
  assumes "sender_inv s"
  shows "length (unacked s) < 2 ^ 62" "length (blocked s) < 2 ^ 62" "length (sent s) < 2 ^ 62"
    "length (unacked s) < 2 ^ 63" "length (blocked s) < 2 ^ 63"
    "window_size s \<ge> 1" "sent_ok s"
    "unacked s \<noteq> [] \<Longrightarrow> hd (unacked s) \<noteq> Acked"
    "blocked s \<noteq> [] \<Longrightarrow> hd (blocked s) \<noteq> Canceled"
  using assms by (simp_all add: sender_inv_def fits_def)

text \<open>The state that \<^const>\<open>settle_slot\<close> leaves behind.\<close>

definition settled :: "nat \<Rightarrow> 'p unacked_state \<Rightarrow> 'p sender \<Rightarrow> 'p sender" where
  "settled idx st s =
     (let s2 = s\<lparr>unacked := dropWhile (\<lambda>st. st = Acked) ((unacked s)[idx := st])\<rparr>
      in s2\<lparr>sent := dropWhile (stale s2) (sent s)\<rparr>)"

lemma dropWhile_hd_False: "(xs \<noteq> [] \<Longrightarrow> \<not> P (hd xs)) \<Longrightarrow> dropWhile P xs = xs"
  by (cases xs) simp_all

lemma sent_ok_age: "sent_ok s \<Longrightarrow> Some sn \<in> set (sent s) \<Longrightarrow> age (last_sent s) sn < length (unacked s)"
  by (simp add: sent_ok_def)

lemma settle_slot_eq:
  assumes "sender_inv s" "idx < length (unacked s)"
  shows "settle_slot idx st s = Some (settled idx st s)"
proof -
  let ?us = "(unacked s)[idx := st]"
  let ?vs = "dropWhile (\<lambda>st. st = Acked) ?us"
  note inv = sender_invD [OF assms(1)]
  have "idx \<noteq> 0 \<Longrightarrow> ?vs = ?us"
    using inv(8) assms(2) by (intro dropWhile_hd_False) (auto simp: hd_conv_nth)
  then have step: "settle_slot idx st s = clean_sent_queue (s\<lparr>unacked := ?vs\<rparr>)"
    by (auto simp: settle_slot_def clean_unacked_queue_def clean_unacked_loop_dropWhile Let_def)
  have "length ?vs \<le> length (unacked s)"
    using length_dropWhile_le [of _ ?us] by simp
  then have "clean_sent_loop (s\<lparr>unacked := ?vs\<rparr>) (sent s) =
      Some (dropWhile (stale (s\<lparr>unacked := ?vs\<rparr>)) (sent s))"
    using inv(1,7) by (intro clean_sent_loop_dropWhile) (auto dest: sent_ok_age)
  then show ?thesis
    by (simp add: step clean_sent_queue_def settled_def Let_def)
qed

lemma settled_fields [simp]:
  "window_size (settled idx st s) = window_size s" "last_sent (settled idx st s) = last_sent s"
  "last_enqueued (settled idx st s) = last_enqueued s" "blocked (settled idx st s) = blocked s"
  "stats (settled idx st s) = stats s"
  "unacked (settled idx st s) = dropWhile (\<lambda>st. st = Acked) ((unacked s)[idx := st])"
  by (simp_all add: settled_def Let_def)

lemma not_stale_age:
  "\<not> stale s x \<Longrightarrow> \<exists>a. x = Some a \<and> age (last_sent s) a < length (unacked s)"
  by (auto simp: stale_def status_def split: if_splits option.splits)

lemma stale_sent [simp]: "stale (s\<lparr>sent := ss\<rparr>) = stale s"
  by (rule ext) (simp add: stale_def status_def cong: option.case_cong split: option.split)

text \<open>
  After the stale prefix is gone, the first entry lies in the window, and so do all the
  entries behind it, because they are younger.
\<close>

lemma sent_ok_dropWhile_stale:
  assumes "sorted_wrt (older (last_sent s)) (sent s)" "sent s = dropWhile (stale s) ss"
  shows "sent_ok s"
proof (cases "sent s")
  case Nil
  then show ?thesis by (simp add: sent_ok_def)
next
  case (Cons x rest)
  then have "\<not> stale s x"
    using assms(2) hd_dropWhile [of "stale s" ss] by (metis list.distinct(1) list.sel(1))
  then obtain a where a: "x = Some a" "age (last_sent s) a < length (unacked s)"
    by (blast dest: not_stale_age)
  then show ?thesis
    using assms(1) Cons by (fastforce simp: sent_ok_def older_def)
qed

lemma sender_inv_settled:
  assumes "sender_inv s" "idx < length (unacked s)"
  shows "sender_inv (settled idx st s)"
proof -
  note inv = sender_invD [OF assms(1)]
  let ?t = "settled idx st s"
  have sent: "sent ?t = dropWhile (stale ?t) (sent s)"
    by (simp add: settled_def Let_def)
  have "sent_ok ?t"
    using sent inv(7) by (intro sent_ok_dropWhile_stale)
      (simp_all add: sent_ok_def sorted_wrt_dropWhile)
  moreover have "length (unacked ?t) \<le> length (unacked s)"
    using length_dropWhile_le [of _ "(unacked s)[idx := st]"] by simp
  moreover have "length (sent ?t) \<le> length (sent s)"
    unfolding sent by (rule length_dropWhile_le)
  ultimately show ?thesis
    using inv hd_clean_unacked [of "(unacked s)[idx := st]"]
    by (simp add: sender_inv_def fits_def)
qed

lemma slot_state_settled:
  assumes "status s sn = Some old"
  shows "slot_state (settled (length (unacked s) - Suc (age (last_sent s) sn)) st s) =
    (slot_state s)(sn := st)"
  using assms by (simp add: slot_state_def view_simps status_def split: if_splits)

text \<open>Updating a slot in place keeps the invariant when it does not acknowledge the slot.\<close>

lemma sender_inv_update:
  assumes "sender_inv s" "idx < length (unacked s)" "st \<noteq> Acked \<or> unacked s ! idx = Acked"
  shows "sender_inv (s\<lparr>unacked := (unacked s)[idx := st]\<rparr>)"
  using assms
  by (cases "idx = 0")
    (auto simp: sender_inv_def fits_def sent_ok_def hd_conv_nth nth_list_update)

section \<open>The operations, each as an update of the window\<close>

lemma update_not_Acked:
  "unacked_is_acked (set_unacked_waker w st) = unacked_is_acked st"
  "set_unacked_waker w st = Acked \<longleftrightarrow> st = Acked"
  "unacked_limit_retries limit st = Acked \<longleftrightarrow> st = Acked"
  "snd (unacked_cancel st) = Acked \<longleftrightarrow> st = Acked"
  "snd (unacked_age_retries st) = Acked \<longleftrightarrow> st = Acked"
  by (cases st; simp)+

lemma locate_known:
  assumes "sender_inv s" "age (last_sent s) sn < 2 ^ 63"
  shows "locate sn (last_sent s) (length (unacked s)) =
    Some (case status s sn of None \<Rightarrow> Past
      | Some _ \<Rightarrow> Slot (length (unacked s) - Suc (age (last_sent s) sn)))"
  using locate_sent [OF sender_invD(4) [OF assms(1)], of sn] assms(2)
  by (auto split: option.splits)

lemma locate_Slot:
  assumes "locate sn lst len = Some (Slot idx)" "len < 2 ^ 63"
  shows "age lst sn < len" "idx = len - Suc (age lst sn)" "idx < len" "age lst sn < 2 ^ 63"
  using assms(1) assms(2) by (auto simp: locate_age [OF assms(2)] split: if_splits)

lemma locate_unacked_Slot:
  assumes "locate sn (last_sent s) (length (unacked s)) = Some (Slot idx)"
    "length (unacked s) < 2 ^ 63"
  shows "status s sn = Some (unacked s ! idx)" "slot_state s sn = unacked s ! idx"
  using locate_Slot [OF assms]
  by (simp_all add: status_def slot_state_def view_def rev_nth)

lemma process_ack_known:
  assumes "sender_inv s" "age (last_sent s) sn < 2 ^ 63"
  shows "process_ack sn s =
    (let t = settled (length (unacked s) - Suc (age (last_sent s) sn)) Acked s in
     case slot_state s sn of
       Unacked packet waker _ _ _ \<Rightarrow> Some (Some packet, [waker], t)
     | CancelRequested waker _ \<Rightarrow> Some (None, [waker], t)
     | Acked \<Rightarrow> map_option (\<lambda>t. (None, [], t))
         (count_sender_stat (if status s sn = None then TooOldAck else DuplicateAck) s)
     | CancelAcked \<Rightarrow> map_option (\<lambda>t. (None, [], t)) (count_sender_stat InvalidAck s))"
proof (cases "status s sn")
  case None
  then show ?thesis
    by (simp add: process_ack_def lookup_ack_index_def locate_known [OF assms] slot_state_status)
next
  case (Some st)
  then show ?thesis
    using status_Slot [OF Some]
    by (cases st)
      (simp_all add: process_ack_def lookup_ack_index_def locate_known [OF assms] slot_state_status
        settle_slot_eq [OF assms(1)])
qed

lemma process_canceled_known:
  assumes "sender_inv s" "age (last_sent s) sn < 2 ^ 63"
  shows "process_canceled sn s =
    (case slot_state s sn of
       CancelRequested waker forgotten \<Rightarrow> Some ([waker],
         settled (length (unacked s) - Suc (age (last_sent s) sn))
           (if forgotten then Acked else CancelAcked) s)
     | CancelAcked \<Rightarrow> map_option (\<lambda>t. ([], t)) (count_sender_stat DuplicateAck s)
     | _ \<Rightarrow> map_option (\<lambda>t. ([], t))
         (count_sender_stat (if status s sn = None then TooOldAck else InvalidAck) s))"
proof (cases "status s sn")
  case None
  then show ?thesis
    by (simp add: process_canceled_def lookup_ack_index_def locate_known [OF assms]
        slot_state_status)
next
  case (Some st)
  then show ?thesis
    using status_Slot [OF Some]
    by (cases st)
      (simp_all add: process_canceled_def lookup_ack_index_def locate_known [OF assms]
        slot_state_status settle_slot_eq [OF assms(1)])
qed

lemma process_ack_future:
  assumes "sender_inv s" "age (last_sent s) sn > 2 ^ 63"
  shows "process_ack sn s = map_option (\<lambda>t. (None, [], t)) (count_sender_stat TooNewAck s)"
    and "process_canceled sn s = map_option (\<lambda>t. ([], t)) (count_sender_stat TooNewAck s)"
  using locate_sent [OF sender_invD(4) [OF assms(1)], of sn] assms(2)
  by (simp_all add: process_ack_def process_canceled_def lookup_ack_index_def)

lemma process_ack_antipode:
  assumes "sender_inv s" "age (last_sent s) sn = 2 ^ 63"
  shows "process_ack sn s = None" "process_canceled sn s = None"
  using locate_sent [OF sender_invD(4) [OF assms(1)], of sn] assms(2)
  by (simp_all add: process_ack_def process_canceled_def lookup_ack_index_def)

lemma count_sender_stat_fields:
  assumes "count_sender_stat k s = Some t"
  shows "t = s\<lparr>stats := (stats s)(k := stats s k + 1)\<rparr>"
  using assms by (simp add: count_sender_stat_def split: if_splits)

lemma sender_inv_stats [simp]: "sender_inv (s\<lparr>stats := f\<rparr>) = sender_inv s"
  by (simp add: sender_inv_def fits_def sent_ok_def)

lemma slot_state_other [simp]:
  "slot_state (s\<lparr>stats := f\<rparr>) = slot_state s"
  "slot_state (s\<lparr>blocked := bs\<rparr>) = slot_state s"
  "slot_state (s\<lparr>sent := ss\<rparr>) = slot_state s"
  "slot_state (s\<lparr>window_size := n\<rparr>) = slot_state s"
  "slot_state (s\<lparr>last_enqueued := i\<rparr>) = slot_state s"
  by (simp_all add: slot_state_def)

section \<open>The invariant along every operation\<close>

text \<open>
  The operations of the sender's public interface that change its state.  A poll, a
  lookup or a statistic that only reads is not a step.
\<close>

inductive sender_op :: "'p sender \<Rightarrow> 'p sender \<Rightarrow> bool" where
  op_reset: "sender_op s (snd (sender_reset s))"
| op_adjust: "adjust_window_size n s = Some t \<Longrightarrow> sender_op s t"
| op_poll_send: "poll_send cx pid s = Some (r, t) \<Longrightarrow> sender_op s t"
| op_poll_ack: "poll_ack cx sn s = Some (r, t) \<Longrightarrow> sender_op s t"
| op_poll_send_and_ack: "poll_send_and_ack cx pid s = Some (r, t) \<Longrightarrow> sender_op s t"
| op_enqueue: "sender_op s (snd (enqueue_packet p s))"
| op_cancel_queued: "cancel_queued_packet pid s = Some (r, ws, t) \<Longrightarrow> sender_op s t"
| op_cancel_sent: "cancel_sent_packet sn s = Some (r, t) \<Longrightarrow> sender_op s t"
| op_limit_id: "limit_retries_by_id pid limit s = Some t \<Longrightarrow> sender_op s t"
| op_limit_sn: "limit_retries_by_seq_num sn limit s = Some t \<Longrightarrow> sender_op s t"
| op_forget: "forget_canceled_packet sn s = Some t \<Longrightarrow> sender_op s t"
| op_ack: "process_ack sn s = Some (r, ws, t) \<Longrightarrow> sender_op s t"
| op_canceled: "process_canceled sn s = Some (ws, t) \<Longrightarrow> sender_op s t"
| op_unblock: "enqueue_next_blocked_packet s = Some (sn, p, ws, t) \<Longrightarrow> sender_op s t"
| op_age: "sender_op s (snd (age_retries s))"
| op_stat: "sender_op s (snd (sender_fetch_reset_stat k s))"

text \<open>A step is an operation after which the queues still fit in memory.\<close>

definition sender_step :: "'p sender \<Rightarrow> 'p sender \<Rightarrow> bool" where
  "sender_step s t \<longleftrightarrow> sender_op s t \<and> fits t"

lemma sender_inv_new [simp]: "sender_inv sender_new"
  by (simp add: sender_inv_def sender_new_def fits_def sent_ok_def)

lemma adjust_window_size_inv:
  "adjust_window_size n s = Some t \<Longrightarrow> sender_inv s \<Longrightarrow> sender_inv t"
  by (auto simp: adjust_window_size_def sender_inv_def fits_def sent_ok_def split: if_splits)

lemma poll_ack_inv:
  assumes "poll_ack cx sn s = Some (r, t)" "sender_inv s"
  shows "sender_inv t"
proof -
  note len = sender_invD(4) [OF assms(2)]
  have "t = s \<or> (\<exists>idx. locate sn (last_sent s) (length (unacked s)) = Some (Slot idx) \<and>
      t = s\<lparr>unacked := (unacked s)[idx := set_unacked_waker cx (unacked s ! idx)]\<rparr>)"
    using assms(1) by (auto simp: poll_ack_def elim!: bind_SomeE split: slot.splits if_splits)
  then show ?thesis
    using assms(2) by (auto dest: locate_Slot(3) [OF _ len] intro!: sender_inv_update simp: update_not_Acked)
qed

lemma poll_send_cases:
  assumes "poll_send cx pid s = Some (r, t)"
  obtains "t = s" "\<exists>x. r = Ready x \<and> lookup_seq_num s pid = Some x"
  | idx packet w limit where "r = Pending" "blocked s ! idx = Blocked packet w limit"
    "locate pid (last_enqueued s) (length (blocked s)) = Some (Slot idx)"
    "t = s\<lparr>blocked := (blocked s)[idx := Blocked packet cx limit]\<rparr>"
  using assms
  by (auto simp: poll_send_def elim!: bind_SomeE split: slot.splits blocked_state.splits)

lemma hd_list_update: "xs \<noteq> [] \<Longrightarrow> hd (xs[i := x]) = (if i = 0 then x else hd xs)"
  by (cases xs; cases i) auto

lemma sender_inv_update_blocked:
  assumes "sender_inv s" "b \<noteq> Canceled \<or> i \<noteq> 0 \<or> blocked s = []"
  shows "sender_inv (s\<lparr>blocked := (blocked s)[i := b]\<rparr>)"
  using assms by (auto simp: sender_inv_def fits_def sent_ok_def hd_list_update)

lemma poll_send_inv:
  assumes "poll_send cx pid s = Some (r, t)" "sender_inv s"
  shows "sender_inv t"
  using assms(1) by (rule poll_send_cases) (auto simp: assms(2) intro!: sender_inv_update_blocked)

lemma poll_send_and_ack_inv:
  assumes "poll_send_and_ack cx pid s = Some (r, t)" "sender_inv s"
  shows "sender_inv t"
proof -
  obtain q u where u: "poll_send cx pid s = Some (q, u)"
    and t: "(case q of Pending \<Rightarrow> Some (Pending, u) | Ready (Some sn) \<Rightarrow> poll_ack cx sn u
      | Ready None \<Rightarrow> Some (Ready (), u)) = Some (r, t)"
    using assms(1) by (auto simp: poll_send_and_ack_def elim!: bind_SomeE)
  have "t = u \<or> (\<exists>sn. poll_ack cx sn u = Some (r, t))"
    using t by (auto split: poll.splits option.splits)
  then show ?thesis
    using poll_send_inv [OF u assms(2)] poll_ack_inv by blast
qed

lemma older_Suc:
  assumes "sorted_wrt (older lst) ss" "\<forall>sn. Some sn \<in> set ss \<longrightarrow> age lst sn < 2 ^ 62"
  shows "sorted_wrt (older (lst + 1)) (ss @ [Some (lst + 1)])"
proof -
  have suc: "Some sn \<in> set ss \<Longrightarrow> age (lst + 1) sn = Suc (age lst sn)" for sn
    using assms(2) by (auto intro!: age_Suc)
  have "sorted_wrt (older (lst + 1)) ss"
    using assms(1) by (rule sorted_wrt_mono_rel [rotated]) (auto simp: older_def suc)
  then show ?thesis
    by (auto simp: sorted_wrt_append older_def suc)
qed

lemma sent_ok_push:
  assumes "sent_ok s" "length (unacked s) < 2 ^ 62"
  shows "sent_ok (s\<lparr>unacked := unacked s @ [st], last_sent := last_sent s + 1\<rparr>)"
    and "sent_ok (s\<lparr>blocked := bs, unacked := unacked s @ [st], last_sent := last_sent s + 1,
      sent := sent s @ [Some (last_sent s + 1)]\<rparr>)"
proof -
  have lt: "\<forall>sn. Some sn \<in> set (sent s) \<longrightarrow> age (last_sent s) sn < 2 ^ 62"
    using assms by (fastforce simp: sent_ok_def)
  have suc: "Some sn \<in> set (sent s) \<Longrightarrow> age (last_sent s + 1) sn < Suc (length (unacked s))" for sn
    using assms lt by (auto simp: sent_ok_def age_Suc)
  have "sorted_wrt (older (last_sent s + 1)) (sent s @ [Some (last_sent s + 1)])"
    using assms(1) lt by (auto simp: sent_ok_def intro!: older_Suc)
  then show "sent_ok (s\<lparr>unacked := unacked s @ [st], last_sent := last_sent s + 1\<rparr>)"
    and "sent_ok (s\<lparr>blocked := bs, unacked := unacked s @ [st], last_sent := last_sent s + 1,
      sent := sent s @ [Some (last_sent s + 1)]\<rparr>)"
    using suc by (auto simp: sent_ok_def sorted_wrt_append)
qed

lemma enqueue_packet_inv:
  assumes "sender_inv s" "fits (snd (enqueue_packet p s))"
  shows "sender_inv (snd (enqueue_packet p s))"
proof (cases "is_blocked s \<or> has_blocked_packets s")
  case True
  then show ?thesis
    using assms by (auto simp: enqueue_packet_def sender_inv_def sent_ok_def fits_def
        hd_append has_blocked_packets_def)
next
  case False
  have "sent_ok (s\<lparr>unacked := unacked s @ [Unacked p Noop None 0 False],
      last_sent := last_sent s + 1\<rparr>)"
    using sender_invD [OF assms(1)] by (intro sent_ok_push)
  then show ?thesis
    using False assms by (auto simp: enqueue_packet_def sender_inv_def fits_def hd_append)
qed

lemma clean_blocked_queue_eq:
  "clean_blocked_queue s = s\<lparr>blocked := dropWhile (\<lambda>b. b = Canceled) (blocked s),
     sent := sent s @ map (\<lambda>_. None) (takeWhile (\<lambda>b. b = Canceled) (blocked s))\<rparr>"
  by (simp add: clean_blocked_queue_def clean_blocked_loop_dropWhile)

lemma hd_clean_blocked:
  "dropWhile (\<lambda>b. b = Canceled) bs \<noteq> [] \<Longrightarrow> hd (dropWhile (\<lambda>b. b = Canceled) bs) \<noteq> Canceled"
  using hd_dropWhile by blast

lemma sent_ok_append_None:
  "sent_ok s \<Longrightarrow> sent_ok (s\<lparr>blocked := bs, sent := sent s @ map (\<lambda>_. None) ys\<rparr>)"
  by (auto simp: sent_ok_def sorted_wrt_append sorted_wrt_map older_def)

lemma clean_blocked_queue_inv:
  assumes "sent_ok s" "window_size s \<ge> 1" "unacked s \<noteq> [] \<longrightarrow> hd (unacked s) \<noteq> Acked"
    "fits (clean_blocked_queue s)"
  shows "sender_inv (clean_blocked_queue s)"
  using assms sent_ok_append_None [OF assms(1)] hd_clean_blocked [of "blocked s"]
  by (simp add: sender_inv_def clean_blocked_queue_eq)

lemma cancel_queued_packet_cases:
  assumes "cancel_queued_packet pid s = Some (r, ws, t)"
  obtains "t = s" "r = None" "ws = []"
  | idx packet w limit where "r = Some packet" "ws = [w]"
    "blocked s ! idx = Blocked packet w limit"
    "locate pid (last_enqueued s) (length (blocked s)) = Some (Slot idx)"
    "t = (if idx = 0 then clean_blocked_queue (s\<lparr>blocked := (blocked s)[idx := Canceled]\<rparr>)
          else s\<lparr>blocked := (blocked s)[idx := Canceled]\<rparr>)"
proof -
  obtain place where place: "locate pid (last_enqueued s) (length (blocked s)) = Some place"
    using assms by (auto simp: cancel_queued_packet_def elim!: bind_SomeE)
  show thesis
  proof (cases place)
    case (Slot idx)
    then show thesis
      using that place assms
      by (cases "blocked s ! idx") (auto simp: cancel_queued_packet_def Let_def split: if_splits)
  qed (use that place assms in \<open>simp_all add: cancel_queued_packet_def\<close>)
qed

lemma cancel_queued_packet_inv:
  assumes "cancel_queued_packet pid s = Some (r, ws, t)" "sender_inv s" "fits t"
  shows "sender_inv t"
  using assms(1)
proof (rule cancel_queued_packet_cases)
  fix idx
  assume t: "t = (if idx = 0 then clean_blocked_queue (s\<lparr>blocked := (blocked s)[idx := Canceled]\<rparr>)
    else s\<lparr>blocked := (blocked s)[idx := Canceled]\<rparr>)"
  have "sent_ok (s\<lparr>blocked := bs\<rparr>)" for bs
    using sender_invD(7) [OF assms(2)] by (simp add: sent_ok_def)
  then show ?thesis
    using assms(2,3) sender_invD [OF assms(2)]
    by (auto simp: t intro!: clean_blocked_queue_inv sender_inv_update_blocked)
qed (use assms in simp_all)

text \<open>The three operations that rewrite one slot in place have the same shape.\<close>

lemma cancel_sent_packet_cases:
  assumes "cancel_sent_packet sn s = Some (r, t)"
  obtains "t = s" "r = None"
  | idx where "locate sn (last_sent s) (length (unacked s)) = Some (Slot idx)"
    "r = fst (unacked_cancel (unacked s ! idx))"
    "t = s\<lparr>unacked := (unacked s)[idx := snd (unacked_cancel (unacked s ! idx))]\<rparr>"
  using assms
  by (auto simp: cancel_sent_packet_def elim!: bind_SomeE split: slot.splits prod.splits)

lemma limit_retries_by_seq_num_cases:
  assumes "limit_retries_by_seq_num sn limit s = Some t"
  obtains "t = s"
  | idx where "locate sn (last_sent s) (length (unacked s)) = Some (Slot idx)"
    "t = s\<lparr>unacked := (unacked s)[idx := unacked_limit_retries limit (unacked s ! idx)]\<rparr>"
  using assms
  by (auto simp: limit_retries_by_seq_num_def elim!: bind_SomeE split: slot.splits)

lemma cancel_sent_packet_inv:
  assumes "cancel_sent_packet sn s = Some (r, t)" "sender_inv s"
  shows "sender_inv t"
  using assms(1) by (rule cancel_sent_packet_cases)
    (auto simp: assms(2) update_not_Acked intro!: sender_inv_update
      dest: locate_Slot(3) [OF _ sender_invD(4) [OF assms(2)]])

lemma limit_retries_by_seq_num_inv:
  assumes "limit_retries_by_seq_num sn limit s = Some t" "sender_inv s"
  shows "sender_inv t"
  using assms(1) by (rule limit_retries_by_seq_num_cases)
    (auto simp: assms(2) update_not_Acked intro!: sender_inv_update
      dest: locate_Slot(3) [OF _ sender_invD(4) [OF assms(2)]])

lemma blocked_limit_not_Canceled: "blocked_limit_retries limit b = Canceled \<longleftrightarrow> b = Canceled"
  by (cases b) simp_all

lemma limit_retries_by_id_cases:
  assumes "limit_retries_by_id pid limit s = Some t"
  obtains "t = s"
  | sn where "lookup_seq_num s pid = Some (Some sn)" "limit_retries_by_seq_num sn limit s = Some t"
  | idx where "locate pid (last_enqueued s) (length (blocked s)) = Some (Slot idx)"
    "t = s\<lparr>blocked := (blocked s)[idx := blocked_limit_retries limit (blocked s ! idx)]\<rparr>"
  using assms
  by (auto simp: limit_retries_by_id_def elim!: bind_SomeE split: slot.splits option.splits)

lemma limit_retries_by_id_inv:
  assumes "limit_retries_by_id pid limit s = Some t" "sender_inv s"
  shows "sender_inv t"
  using assms(1)
proof (rule limit_retries_by_id_cases)
  fix idx
  assume t: "t = s\<lparr>blocked := (blocked s)[idx := blocked_limit_retries limit (blocked s ! idx)]\<rparr>"
  show ?thesis
    using assms(2) sender_invD(9) [OF assms(2)] unfolding t
    by (cases "idx = 0"; intro sender_inv_update_blocked)
      (auto simp: blocked_limit_not_Canceled hd_conv_nth)
qed (use assms(2) limit_retries_by_seq_num_inv in auto)

lemma forget_canceled_packet_cases:
  assumes "forget_canceled_packet sn s = Some t" "sender_inv s"
  obtains "t = s"
  | idx where "locate sn (last_sent s) (length (unacked s)) = Some (Slot idx)"
    "t = settled idx (unacked_forget (unacked s ! idx)) s" "idx < length (unacked s)"
proof -
  note slot = locate_Slot(3) [OF _ sender_invD(4) [OF assms(2)]]
  show thesis
    using assms that
    by (auto simp: forget_canceled_packet_def settle_slot_eq [OF assms(2) slot] slot
        elim!: bind_SomeE split: slot.splits)
qed

lemma forget_canceled_packet_inv:
  assumes "forget_canceled_packet sn s = Some t" "sender_inv s"
  shows "sender_inv t"
  using assms by (rule forget_canceled_packet_cases) (simp_all add: assms(2) sender_inv_settled)

lemma age_trichotomy:
  obtains "age lst sn < 2 ^ 63" | "age lst sn = 2 ^ 63" | "age lst sn > 2 ^ 63"
  by linarith

lemma process_ack_inv:
  assumes "process_ack sn s = Some (r, ws, t)" "sender_inv s"
  shows "sender_inv t"
proof (cases rule: age_trichotomy [of "last_sent s" sn])
  case 1
  then show ?thesis
    using assms status_Slot(2) [of s sn] sender_inv_settled [OF assms(2)]
    by (auto simp: process_ack_known Let_def slot_state_status dest!: count_sender_stat_fields
        split: unacked_state.splits option.splits)
next
  case 2
  then show ?thesis using assms by (simp add: process_ack_antipode)
next
  case 3
  then show ?thesis using assms by (auto simp: process_ack_future dest!: count_sender_stat_fields)
qed

lemma process_canceled_inv:
  assumes "process_canceled sn s = Some (ws, t)" "sender_inv s"
  shows "sender_inv t"
proof (cases rule: age_trichotomy [of "last_sent s" sn])
  case 1
  then show ?thesis
    using assms status_Slot(2) [of s sn] sender_inv_settled [OF assms(2)]
    by (auto simp: process_canceled_known slot_state_status dest!: count_sender_stat_fields
        split: unacked_state.splits option.splits if_splits)
next
  case 2
  then show ?thesis using assms by (simp add: process_ack_antipode)
next
  case 3
  then show ?thesis using assms by (auto simp: process_ack_future dest!: count_sender_stat_fields)
qed

lemma enqueue_next_blocked_packet_cases:
  assumes "enqueue_next_blocked_packet s = Some (sn, p, ws, t)"
  obtains w limit rest where "blocked s = Blocked p w limit # rest" "ws = [w]" "\<not> is_blocked s"
    "sn = last_sent s + 1"
    "t = clean_blocked_queue (s\<lparr>blocked := rest,
       unacked := unacked s @ [Unacked p Noop limit 0 False], last_sent := sn,
       sent := sent s @ [Some sn]\<rparr>)"
  using assms
  by (auto simp: enqueue_next_blocked_packet_def Let_def
      split: list.splits blocked_state.splits if_splits)

lemma enqueue_next_blocked_packet_inv:
  assumes "enqueue_next_blocked_packet s = Some (sn, p, ws, t)" "sender_inv s" "fits t"
  shows "sender_inv t"
  using assms(1)
proof (rule enqueue_next_blocked_packet_cases)
  fix w limit rest
  assume sn: "sn = last_sent s + 1" and t: "t = clean_blocked_queue (s\<lparr>blocked := rest,
    unacked := unacked s @ [Unacked p Noop limit 0 False], last_sent := sn,
    sent := sent s @ [Some sn]\<rparr>)"
  note inv = sender_invD [OF assms(2)]
  show ?thesis
    using assms(3) inv sent_ok_push(2) [OF inv(7,1)] unfolding t sn
    by (intro clean_blocked_queue_inv) (auto simp: hd_append)
qed

lemma age_retries_inv: "sender_inv s \<Longrightarrow> sender_inv (snd (age_retries s))"
  by (auto simp: age_retries_def sender_inv_def fits_def sent_ok_def hd_map update_not_Acked)

lemma sender_step_inv: "sender_inv s \<Longrightarrow> sender_step s t \<Longrightarrow> sender_inv t"
  unfolding sender_step_def
  by (elim conjE, erule sender_op.cases)
    (auto simp: sender_reset_def sender_fetch_reset_stat_def age_retries_inv
      dest: adjust_window_size_inv poll_send_inv poll_ack_inv poll_send_and_ack_inv
        enqueue_packet_inv cancel_queued_packet_inv cancel_sent_packet_inv limit_retries_by_id_inv
        limit_retries_by_seq_num_inv forget_canceled_packet_inv process_ack_inv
        process_canceled_inv enqueue_next_blocked_packet_inv)

interpretation sender: invariant_system "\<lambda>s. s = sender_new" sender_step sender_inv
  by unfold_locales (auto intro: sender_step_inv)

end
