(* ===== verification/Zdpr_Contract.thy ===== *)
theory Zdpr_Contract
  imports Zdpr_Sender
begin

text \<open>
  What the sender of \<open>zdpr.rs\<close> promises to its callers: each operation moves each packet
  along the packet state machine that the source documents (lines 304 to 391), the retry
  lists contain exactly the packets still to be acknowledged, the retry limit is respected,
  the local queue is first in first out, and packet identifiers resolve to the sequence
  number the packet was sent with.
\<close>

section \<open>The documented state machine of one packet\<close>

text \<open>
  The events of the comment that concern a packet with a sequence number.  An update that
  only changes the waker, the retry limit, the retry count or the forgotten mark is
  \<open>CANCEL\<close>-free bookkeeping and keeps the packet in its state.
\<close>

datatype event = CALLER | ACK | CANCEL_ACK

inductive moves :: "event \<Rightarrow> 'p unacked_state \<Rightarrow> 'p unacked_state \<Rightarrow> bool" where
  stay: "moves ev st st"
| note_unacked: "moves CALLER (Unacked p w l c f) (Unacked p w' l' c' f')"
| note_cancel: "moves CALLER (CancelRequested w f) (CancelRequested w' f')"
| cancel: "moves CALLER (Unacked p w l c f) (CancelRequested w' f')"
| forget: "moves CALLER CancelAcked Acked"
| ack: "moves ACK (Unacked p w l c f) Acked"
| ack_canceled: "moves ACK (CancelRequested w f) Acked"
| cancel_ack: "moves CANCEL_ACK (CancelRequested w False) CancelAcked"
| cancel_ack_forgotten: "moves CANCEL_ACK (CancelRequested w True) Acked"

declare moves.intros [intro] and moves.stay [simp]

lemma moves_to_Acked: "\<exists>ev. moves ev st Acked"
  by (cases st) (blast intro: moves.intros)+

inductive_cases moves_CallerE: "moves CALLER st st'"
inductive_cases moves_AckE: "moves ACK st st'"
inductive_cases moves_CancelAckE: "moves CANCEL_ACK st st'"

text \<open>
  A step of the caller: no packet is sent, and every packet moves only as the caller's
  events allow.
\<close>

definition quiet :: "'p sender \<Rightarrow> 'p sender \<Rightarrow> bool" where
  "quiet s t \<longleftrightarrow> last_sent t = last_sent s \<and> stats t = stats s \<and> length (unacked t) \<le> length (unacked s) \<and>
     (\<forall>sn. moves CALLER (slot_state s sn) (slot_state t sn))"

text \<open>A packet leaves for the network with the next sequence number.\<close>

definition sends :: "u64 \<Rightarrow> 'p \<Rightarrow> 'p sender \<Rightarrow> 'p sender \<Rightarrow> bool" where
  "sends sn p s t \<longleftrightarrow> sn = last_sent s + 1 \<and> last_sent t = sn \<and> stats t = stats s \<and>
     length (unacked s) < window_size s \<and> length (unacked t) = Suc (length (unacked s)) \<and>
     (\<exists>limit. slot_state t = (slot_state s)(sn := Unacked p Noop limit 0 False))"

text \<open>An acknowledgement from the network reaches one packet.\<close>

definition settles :: "event \<Rightarrow> u64 \<Rightarrow> 'p sender \<Rightarrow> 'p sender \<Rightarrow> bool" where
  "settles ev sn s t \<longleftrightarrow> last_sent t = last_sent s \<and> length (unacked t) \<le> length (unacked s) \<and>
     (\<exists>st. moves ev (slot_state s sn) st \<and> slot_state t = (slot_state s)(sn := st))"

section \<open>Caller operations are quiet\<close>

lemma quiet_refl [simp]: "quiet s s"
  by (auto simp: quiet_def)

lemma moves_local:
  "moves CALLER st (snd (unacked_cancel st))"
  "moves CALLER st (unacked_limit_retries limit st)"
  "moves CALLER st (unacked_forget st)"
  "moves CALLER st (snd (unacked_age_retries st))"
  "moves CALLER st (set_unacked_waker w st)"
proof -
  show "moves CALLER st (snd (unacked_cancel st))"
    by (cases st rule: unacked_cancel.cases) (simp_all add: moves.intros)
  show "moves CALLER st (unacked_limit_retries limit st)"
    by (cases st) (simp_all add: moves.intros)
  show "moves CALLER st (unacked_forget st)"
    by (cases st rule: unacked_forget.cases) (simp_all add: moves.intros)
  show "moves CALLER st (snd (unacked_age_retries st))"
    by (cases st) (simp_all add: moves.intros split: option.split)
  show "moves CALLER st (set_unacked_waker w st)"
    by (cases st) (simp_all add: moves.intros)
qed

lemma quiet_fields:
  "quiet s (s\<lparr>blocked := bs\<rparr>)" "quiet s (s\<lparr>window_size := n\<rparr>)"
  "quiet s (s\<lparr>blocked := bs, sent := ss\<rparr>)" "quiet s (s\<lparr>last_enqueued := i, blocked := bs\<rparr>)"
  by (auto simp: quiet_def slot_state_def)

lemma slot_state_update:
  assumes "locate sn (last_sent s) (length (unacked s)) = Some (Slot idx)" "sender_inv s"
  shows "slot_state (s\<lparr>unacked := (unacked s)[idx := st]\<rparr>) = (slot_state s)(sn := st)"
  using locate_Slot [OF assms(1) sender_invD(4) [OF assms(2)]]
  by (simp add: slot_state_def view_simps)

lemma quiet_update:
  assumes "locate sn (last_sent s) (length (unacked s)) = Some (Slot idx)" "sender_inv s"
    "moves CALLER (unacked s ! idx) st"
  shows "quiet s (s\<lparr>unacked := (unacked s)[idx := st]\<rparr>)"
  using assms(3) locate_unacked_Slot(2) [OF assms(1) sender_invD(4) [OF assms(2)]]
  by (auto simp: quiet_def slot_state_update [OF assms(1,2)])

lemma slot_state_settled_at:
  assumes "locate sn (last_sent s) (length (unacked s)) = Some (Slot idx)" "sender_inv s"
  shows "slot_state (settled idx st s) = (slot_state s)(sn := st)"
  using locate_Slot [OF assms(1) sender_invD(4) [OF assms(2)]]
  by (simp add: slot_state_def view_simps)

lemma length_settled: "length (unacked (settled idx st s)) \<le> length (unacked s)"
  using length_dropWhile_le [of _ "(unacked s)[idx := st]"] by simp

lemma poll_ack_quiet:
  assumes "poll_ack cx sn s = Some (r, t)" "sender_inv s"
  shows "quiet s t"
  using assms
  by (auto simp: poll_ack_def elim!: bind_SomeE split: slot.splits if_splits
      intro!: quiet_update moves_local)

lemma poll_send_quiet:
  assumes "poll_send cx pid s = Some (r, t)"
  shows "quiet s t"
  using assms by (rule poll_send_cases) (auto simp: quiet_fields)

lemma cancel_queued_packet_quiet:
  assumes "cancel_queued_packet pid s = Some (r, ws, t)"
  shows "quiet s t"
  using assms by (rule cancel_queued_packet_cases) (auto simp: clean_blocked_queue_eq quiet_fields)

lemma cancel_sent_packet_quiet:
  assumes "cancel_sent_packet sn s = Some (r, t)" "sender_inv s"
  shows "quiet s t"
  using assms(1) by (rule cancel_sent_packet_cases) (auto intro!: quiet_update moves_local assms(2))

lemma limit_retries_by_seq_num_quiet:
  assumes "limit_retries_by_seq_num sn limit s = Some t" "sender_inv s"
  shows "quiet s t"
  using assms(1) by (rule limit_retries_by_seq_num_cases)
    (auto intro!: quiet_update moves_local assms(2))

lemma limit_retries_by_id_quiet:
  assumes "limit_retries_by_id pid limit s = Some t" "sender_inv s"
  shows "quiet s t"
  using assms(1) by (rule limit_retries_by_id_cases)
    (auto simp: quiet_fields intro: limit_retries_by_seq_num_quiet assms(2))

lemma forget_canceled_packet_quiet:
  assumes "forget_canceled_packet sn s = Some t" "sender_inv s"
  shows "quiet s t"
  using assms
proof (rule forget_canceled_packet_cases)
  fix idx
  assume slot: "locate sn (last_sent s) (length (unacked s)) = Some (Slot idx)"
    and t: "t = settled idx (unacked_forget (unacked s ! idx)) s"
  show ?thesis
    using moves_local(3) [of "unacked s ! idx"] length_settled
      locate_unacked_Slot(2) [OF slot sender_invD(4) [OF assms(2)]]
    by (auto simp: quiet_def t slot_state_settled_at [OF slot assms(2)]
        simp del: settled_fields(6))
qed simp

lemma age_retries_slot_state:
  "slot_state (snd (age_retries s)) sn = snd (unacked_age_retries (slot_state s sn))"
  by (simp add: age_retries_def slot_state_def view_map)

lemma age_retries_quiet: "quiet s (snd (age_retries s))"
  by (simp add: quiet_def age_retries_slot_state moves_local) (simp add: age_retries_def)

lemma adjust_window_size_quiet: "adjust_window_size n s = Some t \<Longrightarrow> quiet s t"
  by (auto simp: adjust_window_size_def quiet_fields split: if_splits)

lemma moves_CALLER_trans: "moves CALLER a b \<Longrightarrow> moves CALLER b c \<Longrightarrow> moves CALLER a c"
  by (auto elim!: moves_CallerE)

lemma quiet_trans: "quiet s t \<Longrightarrow> quiet t u \<Longrightarrow> quiet s u"
  by (auto simp: quiet_def intro: moves_CALLER_trans)

section \<open>Sending and acknowledging\<close>

lemma enqueue_packet_Queued:
  "fst (enqueue_packet p s) = Queued pid \<Longrightarrow> quiet s (snd (enqueue_packet p s))"
  by (auto simp: enqueue_packet_def quiet_fields split: if_splits)

lemma enqueue_packet_Sent:
  "fst (enqueue_packet p s) = Sent sn q \<Longrightarrow> q = p \<and> sends sn p s (snd (enqueue_packet p s))"
  by (auto simp: enqueue_packet_def sends_def slot_state_def view_simps is_blocked_def
      split: if_splits)

lemma enqueue_next_blocked_packet_sends:
  assumes "enqueue_next_blocked_packet s = Some (sn, p, ws, t)"
  shows "sends sn p s t"
  using assms
  by (rule enqueue_next_blocked_packet_cases)
    (auto simp: sends_def clean_blocked_queue_eq slot_state_def view_simps is_blocked_def)

lemma window_size_keep:
  "window_size (snd (enqueue_packet p s)) = window_size s"
  "enqueue_next_blocked_packet s = Some (sn, q, ws, t) \<Longrightarrow> window_size t = window_size s"
  by (auto simp: enqueue_packet_def clean_blocked_queue_eq elim!: enqueue_next_blocked_packet_cases)

lemma settles_refl [simp]: "settles ev sn s s"
  unfolding settles_def by (intro conjI exI [of _ "slot_state s sn"]) auto

lemma settles_stats [simp]: "settles ev sn s (s\<lparr>stats := f\<rparr>)"
  unfolding settles_def by (intro conjI exI [of _ "slot_state s sn"]) auto

lemma settles_settled:
  assumes "status s sn = Some old" "moves ev old st"
  shows "settles ev sn s (settled (length (unacked s) - Suc (age (last_sent s) sn)) st s)"
  using assms length_settled
  by (auto simp: settles_def slot_state_settled [OF assms(1)] slot_state_status
      simp del: settled_fields(6))

lemma process_ack_settles:
  assumes "process_ack sn s = Some (r, ws, t)" "sender_inv s"
  shows "settles ACK sn s t"
proof (cases rule: age_trichotomy [of "last_sent s" sn])
  case 1
  show ?thesis
  proof (cases "status s sn")
    case None
    then show ?thesis
      using assms 1 by (auto simp: process_ack_known slot_state_status dest!: count_sender_stat_fields)
  next
    case (Some st)
    then show ?thesis
      using assms 1 settles_settled [OF Some, of ACK Acked]
      by (cases st) (auto simp: process_ack_known slot_state_status Let_def
          dest!: count_sender_stat_fields)
  qed
next
  case 2
  then show ?thesis using assms by (simp add: process_ack_antipode)
next
  case 3
  then show ?thesis using assms by (auto simp: process_ack_future dest!: count_sender_stat_fields)
qed

lemma process_canceled_settles:
  assumes "process_canceled sn s = Some (ws, t)" "sender_inv s"
  shows "settles CANCEL_ACK sn s t"
proof (cases rule: age_trichotomy [of "last_sent s" sn])
  case 1
  show ?thesis
  proof (cases "status s sn")
    case None
    then show ?thesis
      using assms 1
      by (auto simp: process_canceled_known slot_state_status dest!: count_sender_stat_fields)
  next
    case (Some st)
    then show ?thesis
      using assms 1 settles_settled [OF Some, of CANCEL_ACK Acked]
        settles_settled [OF Some, of CANCEL_ACK CancelAcked]
      by (cases st) (auto simp: process_canceled_known slot_state_status
          dest!: count_sender_stat_fields split: if_splits)
  qed
next
  case 2
  then show ?thesis using assms by (simp add: process_ack_antipode)
next
  case 3
  then show ?thesis using assms by (auto simp: process_ack_future dest!: count_sender_stat_fields)
qed

lemma window_size_settled:
  "process_ack sn s = Some (r, ws, t) \<Longrightarrow> sender_inv s \<Longrightarrow> window_size t = window_size s"
  "process_canceled sn s = Some (ws, t) \<Longrightarrow> sender_inv s \<Longrightarrow> window_size t = window_size s"
  by (cases rule: age_trichotomy [of "last_sent s" sn];
      auto simp: process_ack_known process_canceled_known process_ack_future process_ack_antipode
        Let_def dest!: count_sender_stat_fields split: unacked_state.splits if_splits)+

section \<open>The retry lists\<close>

lemma map_filter_enumerate_rev:
  "set (List.map_filter f (List.enumerate 0 xs)) =
     {y. \<exists>n < length xs. f (length xs - Suc n, rev xs ! n) = Some y}"
proof (intro set_eqI iffI)
  fix y
  assume "y \<in> set (List.map_filter f (List.enumerate 0 xs))"
  then obtain m where "m < length xs" "f (m, xs ! m) = Some y"
    by (auto simp: List.map_filter_def in_set_enumerate_eq)
  then show "y \<in> {y. \<exists>n < length xs. f (length xs - Suc n, rev xs ! n) = Some y}"
    by (auto simp: rev_nth intro!: exI [of _ "length xs - Suc m"])
next
  fix y
  assume "y \<in> {y. \<exists>n < length xs. f (length xs - Suc n, rev xs ! n) = Some y}"
  then obtain n where "n < length xs" "f (length xs - Suc n, xs ! (length xs - Suc n)) = Some y"
    by (auto simp: rev_nth)
  then show "y \<in> set (List.map_filter f (List.enumerate 0 xs))"
    by (auto simp: List.map_filter_def in_set_enumerate_eq image_iff
        intro!: exI [of _ "length xs - Suc n"])
qed

lemma case_unacked_Some:
  "(case st of Unacked p _ _ _ _ \<Rightarrow> Some (g p) | _ \<Rightarrow> None) = Some y \<longleftrightarrow>
     (\<exists>p w l c f. st = Unacked p w l c f \<and> y = g p)"
  "(case st of CancelRequested _ _ \<Rightarrow> Some z | _ \<Rightarrow> None) = Some y \<longleftrightarrow>
     (\<exists>w f. st = CancelRequested w f \<and> y = z)"
  by (cases st; auto)+

lemma sn_base_nth:
  "sn_base s + (of_nat (length (unacked s)) - (1 + of_nat n)) = last_sent s - of_nat n"
  by (simp add: sn_base_def)

text \<open>Which sequence numbers have the age \<open>n\<close>.\<close>

lemma age_eq_iff: "n < 2 ^ 64 \<Longrightarrow> age lst sn = n \<longleftrightarrow> sn = lst - of_nat n"
  using age_inject [of lst sn "lst - of_nat n"] by (simp add: age_minus_of_nat)

lemma slot_state_cases:
  assumes "sender_inv s" "st \<noteq> Acked"
  shows "slot_state s sn = st \<longleftrightarrow>
    (\<exists>n < length (unacked s). rev (unacked s) ! n = st \<and> sn = last_sent s - of_nat n)"
proof -
  have lt: "n < length (unacked s) \<Longrightarrow> n < 2 ^ 64" for n
    using sender_invD(1) [OF assms(1)] by simp
  have "slot_state s sn = st \<longleftrightarrow>
      (\<exists>n < length (unacked s). rev (unacked s) ! n = st \<and> age (last_sent s) sn = n)"
    using assms(2) by (auto simp: slot_state_def view_def)
  then show ?thesis using age_eq_iff [OF lt, of _ "last_sent s" sn] by (simp cong: conj_cong)
qed

lemma set_retry_packets:
  assumes "sender_inv s"
  shows "set (retry_packets s) = {(sn, p). \<exists>w l c f. slot_state s sn = Unacked p w l c f}"
proof -
  have "(sn, p) \<in> set (retry_packets s) \<longleftrightarrow> (\<exists>w l c f. slot_state s sn = Unacked p w l c f)" for sn p
    unfolding retry_packets_def map_filter_enumerate_rev
    by (simp add: slot_state_cases [OF assms] case_unacked_Some sn_base_nth cong: conj_cong) blast
  then show ?thesis by auto
qed

lemma set_retry_cancels:
  assumes "sender_inv s"
  shows "set (retry_cancels s) = {sn. \<exists>w f. slot_state s sn = CancelRequested w f}"
proof -
  have "sn \<in> set (retry_cancels s) \<longleftrightarrow> (\<exists>w f. slot_state s sn = CancelRequested w f)" for sn
    unfolding retry_cancels_def map_filter_enumerate_rev
    by (simp add: slot_state_cases [OF assms] case_unacked_Some sn_base_nth cong: conj_cong) blast
  then show ?thesis by auto
qed

section \<open>Identifiers of queued packets\<close>

text \<open>
  Read from the right, the lookup queue continues the local queue: the identifier of age
  \<open>n\<close> belongs to a blocked packet while \<open>n\<close> is below the number of blocked packets.
\<close>

lemma lookup_seq_num_eq:
  assumes "sender_inv s" "age (last_enqueued s) pid < 2 ^ 62"
  shows "lookup_seq_num s pid =
    (let n = age (last_enqueued s) pid; b = length (blocked s) in
     if n < b then None
     else if n - b < length (sent s) then Some (rev (sent s) ! (n - b)) else Some None)"
proof -
  let ?n = "age (last_enqueued s) pid" and ?b = "length (blocked s)"
  have off: "wrapping_offset pid (last_enqueued s) = - int ?n"
    using assms(2) by (simp add: wrapping_offset_age)
  have b: "?b < 2 ^ 62" by (rule sender_invD(2) [OF assms(1)])
  show ?thesis
  proof (cases "?n < ?b")
    case True
    then show ?thesis
      using b by (simp add: lookup_seq_num_def off i64_checked_def Let_def)
  next
    case False
    have "?n - ?b < length (sent s) \<Longrightarrow>
        sent s ! nat (int (length (sent s)) + (int ?b - int ?n) - 1) = rev (sent s) ! (?n - ?b)"
      using False by (subst rev_nth) (auto intro!: arg_cong [where f = "nth (sent s)"])
    then show ?thesis
      using False b assms(2) by (auto simp: lookup_seq_num_def off i64_checked_def Let_def)
  qed
qed

text \<open>The identifier of the packet at the head of the local queue.\<close>

definition head_id :: "'p sender \<Rightarrow> u64" where
  "head_id s = last_enqueued s - of_nat (length (blocked s) - 1)"

lemma age_head_id:
  "sender_inv s \<Longrightarrow> blocked s \<noteq> [] \<Longrightarrow> age (last_enqueued s) (head_id s) = length (blocked s) - 1"
  using sender_invD(2) [of s] unfolding head_id_def by (intro age_minus_of_nat) simp

lemma lookup_after_unblock:
  assumes "sender_inv s" "enqueue_next_blocked_packet s = Some (sn, p, ws, t)" "fits t"
  shows "lookup_seq_num t (head_id s) = Some (Some sn)"
  using assms(2)
proof (rule enqueue_next_blocked_packet_cases)
  fix w limit rest
  assume bs: "blocked s = Blocked p w limit # rest"
    and t: "t = clean_blocked_queue (s\<lparr>blocked := rest,
      unacked := unacked s @ [Unacked p Noop limit 0 False], last_sent := sn,
      sent := sent s @ [Some sn]\<rparr>)"
  let ?tw = "takeWhile (\<lambda>b. b = Canceled) rest" and ?dw = "dropWhile (\<lambda>b. b = Canceled) rest"
  have len: "length rest = length ?tw + length ?dw"
    by (metis length_append takeWhile_dropWhile_id)
  have age: "age (last_enqueued t) (head_id s) = length rest"
    using age_head_id [OF assms(1)] bs by (simp add: t clean_blocked_queue_eq)
  have "sender_inv t" by (rule enqueue_next_blocked_packet_inv [OF assms(2,1,3)])
  moreover have "length rest < 2 ^ 62" using sender_invD(2) [OF assms(1)] bs by simp
  ultimately have "lookup_seq_num t (head_id s) = (let n = length rest; b = length (blocked t) in
      if n < b then None
      else if n - b < length (sent t) then Some (rev (sent t) ! (n - b)) else Some None)"
    using lookup_seq_num_eq [of t "head_id s"] age by simp
  then show ?thesis
    using len by (simp add: t clean_blocked_queue_eq nth_append)
qed

section \<open>Properties\<close>



text \<open>Every operation, seen from one packet.\<close>

definition packet_step :: "'p sender \<Rightarrow> 'p sender \<Rightarrow> u64 \<Rightarrow> bool" where
  "packet_step s t sn \<longleftrightarrow>
     (\<exists>ev. moves ev (slot_state s sn) (slot_state t sn)) \<or>
     (sn = last_sent s + 1 \<and> last_sent t = sn \<and> length (unacked s) < window_size s \<and>
      (\<exists>p lim. slot_state t sn = Unacked p Noop lim 0 False))"

lemma packet_step_quiet: "quiet s t \<Longrightarrow> packet_step s t sn"
  by (auto simp: packet_step_def quiet_def)

lemma packet_step_sends: "sends x p s t \<Longrightarrow> packet_step s t sn"
  by (auto simp: packet_step_def sends_def)

lemma packet_step_settles: "settles ev x s t \<Longrightarrow> packet_step s t sn"
  by (auto simp: packet_step_def settles_def)

lemma packet_step_reset: "packet_step (s :: 'a sender) sender_new sn"
proof -
  have "slot_state (sender_new :: 'a sender) sn = Acked"
    by (simp add: slot_state_def view_def sender_new_def)
  then show ?thesis
    using moves_to_Acked by (simp add: packet_step_def)
qed

lemma packet_step_enqueue: "packet_step s (snd (enqueue_packet p s)) sn"
  using enqueue_packet_Queued [of p s] enqueue_packet_Sent [of p s]
  by (cases "fst (enqueue_packet p s)") (auto intro: packet_step_quiet packet_step_sends)

lemma poll_send_and_ack_quiet:
  assumes "poll_send_and_ack cx pid s = Some (r, t)" "sender_inv s"
  shows "quiet s t"
proof -
  obtain q u where u: "poll_send cx pid s = Some (q, u)"
    and t: "(case q of Pending \<Rightarrow> Some (Pending, u) | Ready (Some sn) \<Rightarrow> poll_ack cx sn u
      | Ready None \<Rightarrow> Some (Ready (), u)) = Some (r, t)"
    using assms(1) by (auto simp: poll_send_and_ack_def elim!: bind_SomeE)
  have "t = u \<or> (\<exists>sn. poll_ack cx sn u = Some (r, t))"
    using t by (auto split: poll.splits option.splits)
  then show ?thesis
    using poll_send_quiet [OF u] poll_send_inv [OF u assms(2)] poll_ack_quiet quiet_trans by blast
qed

lemma sender_op_packet_step:
  assumes "sender_inv s" "sender_op s t"
  shows "packet_step s t sn"
  using assms(2)
proof cases
  case op_reset
  then show ?thesis by (simp add: sender_reset_def packet_step_reset)
next
  case (op_stat k)
  then show ?thesis
    by (auto simp: packet_step_def sender_fetch_reset_stat_def)
next
  case (op_enqueue p)
  then show ?thesis by (simp add: packet_step_enqueue)
next
  case (op_unblock x p ws)
  then show ?thesis by (blast intro: packet_step_sends enqueue_next_blocked_packet_sends)
next
  case (op_ack x r ws)
  then show ?thesis by (blast intro: packet_step_settles process_ack_settles assms(1))
next
  case (op_canceled x ws)
  then show ?thesis by (blast intro: packet_step_settles process_canceled_settles assms(1))
next
  case op_age
  then show ?thesis by (simp add: packet_step_quiet age_retries_quiet)
qed (use assms(1) in \<open>blast intro: packet_step_quiet adjust_window_size_quiet poll_send_quiet
    poll_ack_quiet poll_send_and_ack_quiet cancel_queued_packet_quiet cancel_sent_packet_quiet
    limit_retries_by_id_quiet limit_retries_by_seq_num_quiet forget_canceled_packet_quiet\<close>)+



lemma not_acked_iff:
  "\<not> unacked_is_acked st \<longleftrightarrow>
     (\<exists>p w l c f. st = Unacked p w l c f) \<or> (\<exists>w f. st = CancelRequested w f)"
  by (cases st) auto

text \<open>
  C27: The retry worker resends exactly what is outstanding: the packet list holds the
  sequence number and the packet of every unacknowledged packet, the cancellation list the
  number of every packet whose cancellation is unacknowledged, and the retry timer is wanted
  exactly while one of the two is not empty.
\<close>

theorem retry_lists_are_complete:
  assumes "sender_inv s"
  shows "set (retry_packets s) = {(sn, p). \<exists>w l c f. slot_state s sn = Unacked p w l c f} \<and>
    set (retry_cancels s) = {sn. \<exists>w f. slot_state s sn = CancelRequested w f} \<and>
    (retry_needed s \<longleftrightarrow> retry_packets s \<noteq> [] \<or> retry_cancels s \<noteq> [])"
proof -
  have "retry_needed s \<longleftrightarrow> (\<exists>sn. \<not> unacked_is_acked (slot_state s sn))"
  proof
    assume "retry_needed s"
    then obtain i where i: "i < length (unacked s)" "\<not> unacked_is_acked (rev (unacked s) ! i)"
      by (auto simp: retry_needed_def) (metis in_set_conv_nth length_rev set_rev)
    then have "rev (unacked s) ! i \<noteq> Acked" by auto
    then have "slot_state s (last_sent s - of_nat i) = rev (unacked s) ! i"
      using slot_state_cases [OF assms, of "rev (unacked s) ! i" "last_sent s - of_nat i"] i(1) by blast
    then show "\<exists>sn. \<not> unacked_is_acked (slot_state s sn)" using i(2) by metis
  next
    assume "\<exists>sn. \<not> unacked_is_acked (slot_state s sn)"
    then obtain sn where sn: "\<not> unacked_is_acked (slot_state s sn)" by blast
    then have "slot_state s sn \<in> set (unacked s)"
      by (auto simp: slot_state_def view_def split: if_splits)
        (metis length_rev nth_mem set_rev)
    with sn show "retry_needed s" by (auto simp: retry_needed_def)
  qed
  also have "\<dots> \<longleftrightarrow> set (retry_packets s) \<noteq> {} \<or> set (retry_cancels s) \<noteq> {}"
    unfolding set_retry_packets [OF assms] set_retry_cancels [OF assms]
    unfolding not_acked_iff by blast
  finally have "retry_needed s \<longleftrightarrow> retry_packets s \<noteq> [] \<or> retry_cancels s \<noteq> []"
    by (simp only: set_empty)
  then show ?thesis
    using set_retry_packets [OF assms] set_retry_cancels [OF assms] by blast
qed

theorem retry_lists_are_complete_witness:
  "retry_packets (snd (enqueue_packet (7 :: nat) sender_new)) = [(0, 7)] \<and>
   retry_needed (snd (enqueue_packet (7 :: nat) sender_new))"
proof -
  let ?s = "snd (enqueue_packet (7 :: nat) sender_new)"
  have "sender_inv ?s"
    by (rule enqueue_packet_inv [OF sender_inv_new])
      (simp add: fits_def enqueue_packet_def sender_new_def is_blocked_def has_blocked_packets_def)
  then have "retry_needed ?s \<longleftrightarrow> retry_packets ?s \<noteq> [] \<or> retry_cancels ?s \<noteq> []"
    using retry_lists_are_complete [of ?s] by blast
  moreover have "retry_packets ?s = [(0, 7)]"
    by (simp add: retry_packets_def sn_base_def enqueue_packet_def sender_new_def is_blocked_def
        has_blocked_packets_def List.map_filter_def)
  ultimately show ?thesis by simp
qed

text \<open>One round of ageing on a packet with a retry limit.\<close>

lemma age_once:
  "snd (unacked_age_retries (Unacked p w (Some limit) count f)) =
     (if unat count < unat limit then Unacked p w (Some limit) (count + 1) f
      else CancelRequested w f)"
proof -
  show ?thesis
    using unat_u8_less [of limit] by (auto simp: word_le_nat_alt saturating_add_u8_def)
qed

lemma unat_Suc_u8: "unat (c :: u8) < unat limit \<Longrightarrow> unat (c + 1) = Suc (unat c)"
  for limit :: u8
  using unat_u8_less [of limit] by (simp add: unat_word_ariths)

text \<open>
  C28: A retry limit is exact.  A packet with limit \<open>limit\<close> that has been retried
  \<open>count\<close> times survives \<open>limit - count\<close> further rounds of the retry worker and is
  turned into a cancellation request in the round after them, for every limit up to 255.
\<close>

theorem retry_limit_is_exact:
  assumes "slot_state s sn = Unacked p w (Some limit) count f"
  shows "slot_state (((snd \<circ> age_retries) ^^ n) s) sn =
    (if n \<le> unat limit - unat count then Unacked p w (Some limit) (count + of_nat n) f
     else CancelRequested w f)"
  using assms
proof (induction n arbitrary: s count)
  case 0
  then show ?case by simp
next
  case (Suc n)
  have step: "slot_state (snd (age_retries s)) sn =
      (if unat count < unat limit then Unacked p w (Some limit) (count + 1) f else CancelRequested w f)"
    by (simp only: age_retries_slot_state Suc.prems age_once)
  have stuck: "slot_state t sn = CancelRequested w f \<Longrightarrow>
      slot_state (((snd \<circ> age_retries) ^^ m) t) sn = CancelRequested w f" for m t
    by (induction m) (simp_all add: age_retries_slot_state)
  show ?case
  proof (cases "unat count < unat limit")
    case True
    then have "slot_state (snd (age_retries s)) sn = Unacked p w (Some limit) (count + 1) f"
      using step by simp
    from Suc.IH [OF this] show ?thesis
      using True unat_Suc_u8 [OF True] by (auto simp: funpow_Suc_right ac_simps simp del: funpow.simps)
  next
    case False
    then show ?thesis
      using step stuck [of "snd (age_retries s)" n]
      by (simp add: funpow_Suc_right o_def del: funpow.simps)
  qed
qed

theorem retry_limit_is_exact_witness:
  "slot_state (((snd \<circ> age_retries) ^^ 3)
     ((snd (enqueue_packet (7 :: nat) sender_new))\<lparr>unacked := [Unacked 7 Noop (Some 2) 0 False]\<rparr>)) 0 =
   CancelRequested Noop False"
proof -
  let ?s = "(snd (enqueue_packet (7 :: nat) sender_new))\<lparr>unacked := [Unacked 7 Noop (Some 2) 0 False]\<rparr>"
  have "slot_state ?s 0 = Unacked 7 Noop (Some 2) 0 False"
    by (simp add: slot_state_def view_def enqueue_packet_def sender_new_def is_blocked_def
        has_blocked_packets_def)
  from retry_limit_is_exact [OF this, of 3] show ?thesis by simp
qed

text \<open>
  The identifier returned for a queued packet resolves to the sequence number the packet
  is sent with: after the head of the local queue is sent, looking up its identifier gives
  exactly the number on the wire, also when cancelled packets follow it in the queue.
\<close>

theorem queued_id_resolves_to_sequence_number:
  assumes "sender_inv s" "enqueue_next_blocked_packet s = Some (sn, p, ws, t)" "fits t"
  shows "lookup_seq_num t (last_enqueued s - of_nat (length (blocked s) - 1)) = Some (Some sn) \<and>
    (\<exists>w l c f. slot_state t sn = Unacked p w l c f) \<and> is_sent t (last_enqueued s - of_nat (length (blocked s) - 1)) = Some True"
proof -
  have sent: "is_sent t (head_id s) = Some True"
    using assms(2)
  proof (rule enqueue_next_blocked_packet_cases)
    fix w limit rest
    assume bs: "blocked s = Blocked p w limit # rest"
      and t: "t = clean_blocked_queue (s\<lparr>blocked := rest,
        unacked := unacked s @ [Unacked p Noop limit 0 False], last_sent := sn,
        sent := sent s @ [Some sn]\<rparr>)"
    have "age (last_enqueued t) (head_id s) = length rest"
      using age_head_id [OF assms(1)] bs by (simp add: t clean_blocked_queue_eq)
    moreover have "length rest < 2 ^ 62" using sender_invD(2) [OF assms(1)] bs by simp
    moreover have "length (blocked t) \<le> length rest"
      by (simp add: t clean_blocked_queue_eq length_dropWhile_le)
    ultimately show ?thesis
      by (auto simp: is_sent_def wrapping_offset_age i64_checked_def)
  qed
  show ?thesis
    using lookup_after_unblock [OF assms] sent enqueue_next_blocked_packet_sends [OF assms(2)]
    by (auto simp: head_id_def sends_def)
qed

theorem queued_id_resolves_to_sequence_number_witness:
  "\<exists>sn p ws t. enqueue_next_blocked_packet
      (sender_new\<lparr>last_enqueued := 0, blocked := [Blocked (7 :: nat) Noop None]\<rparr>) = Some (sn, p, ws, t) \<and>
    lookup_seq_num t 0 = Some (Some sn)"
proof -
  let ?s = "sender_new\<lparr>last_enqueued := 0, blocked := [Blocked (7 :: nat) Noop None]\<rparr>"
  have inv: "sender_inv ?s"
    by (simp add: sender_inv_def sender_new_def fits_def sent_ok_def)
  obtain sn p ws t where t: "enqueue_next_blocked_packet ?s = Some (sn, p, ws, t)" "fits t"
    by (simp add: enqueue_next_blocked_packet_def sender_new_def is_blocked_def Let_def
        clean_blocked_queue_def fits_def)
  from queued_id_resolves_to_sequence_number [OF inv t] have "lookup_seq_num t 0 = Some (Some sn)"
    by (simp add: sender_new_def)
  with t(1) show ?thesis by blast
qed

text \<open>
  C35: Which acknowledgements make the sender panic.  With counters below their maximum,
  processing an acknowledgement or a cancellation acknowledgement panics exactly for the one
  sequence number at distance \<open>2 ^ 63\<close> from the last one sent, whose signed distance
  cannot be negated.
\<close>

theorem ack_panics_exactly_at_antipode:
  assumes "sender_inv s" "\<forall>k. stats s k \<noteq> - 1"
  shows "(process_ack sn s = None \<longleftrightarrow> sn = last_sent s + 2 ^ 63) \<and>
    (process_canceled sn s = None \<longleftrightarrow> sn = last_sent s + 2 ^ 63)"
proof -
  have two: "(2 ^ 63 :: u64) + 2 ^ 63 = 0" by simp
  have "age (last_sent s) sn = 2 ^ 63 \<longleftrightarrow> sn = last_sent s - 2 ^ 63"
    using age_eq_iff [of "2 ^ 63" "last_sent s" sn] by simp
  also have "last_sent s - 2 ^ 63 = last_sent s + 2 ^ 63"
    using two by (simp add: diff_eq_eq add.assoc)
  finally have iff: "age (last_sent s) sn = 2 ^ 63 \<longleftrightarrow> sn = last_sent s + 2 ^ 63" .
  have "\<And>k. count_sender_stat k s \<noteq> None"
    using assms(2) by (simp add: count_sender_stat_def)
  then show ?thesis
    unfolding iff [symmetric] using assms(1)
    by (cases rule: age_trichotomy [of "last_sent s" sn])
      (auto simp: process_ack_known process_canceled_known process_ack_antipode process_ack_future
        Let_def split: unacked_state.splits)
qed

theorem ack_panics_exactly_at_antipode_witness:
  "process_ack (2 ^ 63 - 1) (sender_new :: nat sender) = None"
proof -
  have "(2 ^ 63 - 1 :: u64) = last_sent (sender_new :: nat sender) + 2 ^ 63"
    "\<forall>k. stats (sender_new :: nat sender) k \<noteq> - 1"
    by (simp_all add: sender_new_def)
  then show ?thesis
    using ack_panics_exactly_at_antipode [OF sender_inv_new] by blast
qed

end
