(* ===== verification/Zdpr_Receiver.thy ===== *)
theory Zdpr_Receiver
  imports Prelude
begin

text \<open>
  The receiving half of the reliable ZDP session (\<open>adapter/ph/src/zdpr.rs\<close>, lines 1076
  to 1324): the window bit sets, the decision whether a packet or a cancellation request
  is accepted, acknowledged again or ignored, and the refinement of the bit sets to plain
  sets of accepted and of cancelled sequence numbers.
\<close>

section \<open>Data\<close>

datatype disposition = AckAndProcess | AckDoNotProcess | AckCancelDoNotProcess | Ignore

fun should_ack :: "disposition \<Rightarrow> bool" where
  "should_ack Ignore = False"
| "should_ack _ = True"

fun ack_is_canceled :: "disposition \<Rightarrow> bool" where
  "ack_is_canceled AckCancelDoNotProcess = True"
| "ack_is_canceled _ = False"

fun should_process :: "disposition \<Rightarrow> bool" where
  "should_process AckAndProcess = True"
| "should_process _ = False"

datatype receiver_stat = TooOld | Duplicate | TooNew | OutOfOrder

fun receiver_stat_is_protocol_error :: "receiver_stat \<Rightarrow> bool" where
  "receiver_stat_is_protocol_error TooNew = True"
| "receiver_stat_is_protocol_error _ = False"

record receiver =
  rwindow_size :: nat
  highest_seen :: u64
  recvd :: u64
  canceled :: u64
  rstats :: "receiver_stat \<Rightarrow> u64"

section \<open>Operations\<close>

definition receiver_new :: "nat \<Rightarrow> receiver option" where
  "receiver_new w = do {
     ensure (w \<ge> 1);
     ensure (w \<le> 64);
     Some \<lparr>rwindow_size = w, highest_seen = - 1, recvd = - 1, canceled = - 1, rstats = (\<lambda>_. 0)\<rparr>
   }"

definition receiver_reset :: "receiver \<Rightarrow> receiver option" where
  "receiver_reset r = receiver_new (rwindow_size r)"

text \<open>\<open>u64::leading_ones\<close>: the number of set bits above the highest clear bit.\<close>

fun ones_from :: "nat \<Rightarrow> u64 \<Rightarrow> nat" where
  "ones_from 0 w = 0"
| "ones_from (Suc n) w = (if bit w n then Suc (ones_from n w) else 0)"

definition leading_ones :: "u64 \<Rightarrow> nat" where
  "leading_ones w = ones_from 64 w"

definition oldest_unrecvd_offset :: "receiver \<Rightarrow> int" where
  "oldest_unrecvd_offset r = - 64 + int (leading_ones (recvd r)) + 1"

text \<open>Shifts of a \<open>u64\<close> panic when the distance is negative or at least 64.\<close>

definition shl64 :: "u64 \<Rightarrow> int \<Rightarrow> u64 option" where
  "shl64 w n = (if 0 \<le> n \<and> n < 64 then Some (push_bit (nat n) w) else None)"

definition shr64 :: "u64 \<Rightarrow> int \<Rightarrow> u64 option" where
  "shr64 w n = (if 0 \<le> n \<and> n < 64 then Some (drop_bit (nat n) w) else None)"

definition count_receiver_stat :: "receiver_stat \<Rightarrow> receiver \<Rightarrow> receiver option" where
  "count_receiver_stat k r = do {
     ensure (rstats r k \<noteq> - 1);
     Some (r\<lparr>rstats := (rstats r)(k := rstats r k + 1)\<rparr>)
   }"

definition process_packet_or_cancel ::
    "u64 \<Rightarrow> bool \<Rightarrow> receiver \<Rightarrow> (disposition \<times> receiver) option"
where
  "process_packet_or_cancel sn is_cancel r = (let offset = wrapping_offset sn (highest_seen r) in
     if offset \<le> - int (rwindow_size r) then do {
       r1 \<leftarrow> count_receiver_stat TooOld r;
       Some (Ignore, r1)
     }
     else if offset \<ge> oldest_unrecvd_offset r + int (rwindow_size r) then do {
       r1 \<leftarrow> count_receiver_stat TooNew r;
       Some (Ignore, r1)
     }
     else if offset > 0 then do {
       rs \<leftarrow> shl64 (recvd r) offset;
       cs \<leftarrow> shl64 (canceled r) offset;
       let r1 = r\<lparr>highest_seen := highest_seen r + of_int offset, recvd := rs OR 1\<rparr>;
       if is_cancel
       then Some (AckCancelDoNotProcess, r1\<lparr>canceled := cs OR 1\<rparr>)
       else Some (AckAndProcess, r1\<lparr>canceled := cs\<rparr>)
     }
     else do {
       seen \<leftarrow> shr64 (recvd r) (- offset);
       if seen AND 1 = 0 then do {
         r1 \<leftarrow> count_receiver_stat OutOfOrder r;
         mark \<leftarrow> shl64 1 (- offset);
         let r2 = r1\<lparr>recvd := recvd r1 OR mark\<rparr>;
         if is_cancel
         then Some (AckCancelDoNotProcess, r2\<lparr>canceled := canceled r2 OR mark\<rparr>)
         else Some (AckAndProcess, r2)
       }
       else do {
         r1 \<leftarrow> count_receiver_stat Duplicate r;
         can \<leftarrow> shr64 (canceled r1) (- offset);
         if can AND 1 = 0 then Some (AckDoNotProcess, r1)
         else Some (AckCancelDoNotProcess, r1)
       }
     })"

definition process_packet :: "u64 \<Rightarrow> receiver \<Rightarrow> (disposition \<times> receiver) option" where
  "process_packet sn r = process_packet_or_cancel sn False r"

definition process_cancel :: "u64 \<Rightarrow> receiver \<Rightarrow> (disposition \<times> receiver) option" where
  "process_cancel sn r = process_packet_or_cancel sn True r"

definition should_process_packet :: "u64 \<Rightarrow> receiver \<Rightarrow> bool option" where
  "should_process_packet sn r = (let offset = wrapping_offset sn (highest_seen r) in
     if offset \<le> - int (rwindow_size r) then Some False
     else if offset \<ge> oldest_unrecvd_offset r + int (rwindow_size r) then Some False
     else if offset > 0 then Some True
     else do {
       seen \<leftarrow> shr64 (recvd r) (- offset);
       Some (seen AND 1 = 0)
     })"

definition receiver_fetch_reset_stat :: "receiver_stat \<Rightarrow> receiver \<Rightarrow> u64 \<times> receiver" where
  "receiver_fetch_reset_stat k r = (rstats r k, r\<lparr>rstats := (rstats r)(k := 0)\<rparr>)"

section \<open>The contract: sets of sequence numbers\<close>

text \<open>
  The specification numbers the packets of a session 0, 1, 2, \<dots> without wrapping and
  keeps the set of the accepted and the set of the cancelled ones.  Nothing older than the
  window below the newest accepted packet is answered, and nothing that would put the
  oldest missing packet out of the window is accepted.
\<close>

type_synonym accepted = "nat set \<times> nat set"

definition next_new :: "nat set \<Rightarrow> nat" where
  "next_new R = (if R = {} then 0 else Suc (Max R))"

definition oldest_missing :: "nat set \<Rightarrow> nat" where
  "oldest_missing R = (LEAST i. i \<notin> R)"

definition spec_process :: "nat \<Rightarrow> nat \<Rightarrow> bool \<Rightarrow> accepted \<Rightarrow> disposition \<times> accepted" where
  "spec_process W i is_cancel A = (case A of (R, C) \<Rightarrow>
     if i + W < next_new R then (Ignore, A)
     else if oldest_missing R + W \<le> i then (Ignore, A)
     else if i \<in> R then (if i \<in> C then AckCancelDoNotProcess else AckDoNotProcess, A)
     else if is_cancel then (AckCancelDoNotProcess, (insert i R, insert i C))
     else (AckAndProcess, (insert i R, C)))"

text \<open>
  The refinement relation: the newest accepted number, the bits of the window and the
  completeness of everything below the window.
\<close>

definition refines :: "receiver \<Rightarrow> accepted \<Rightarrow> bool" where
  "refines r A \<longleftrightarrow> (case A of (R, C) \<Rightarrow>
     finite R \<and> C \<subseteq> R \<and> next_new R < 2 ^ 62 \<and>
     highest_seen r = of_nat (next_new R) - 1 \<and>
     1 \<le> rwindow_size r \<and> rwindow_size r \<le> 64 \<and>
     (\<forall>n < 64. bit (recvd r) n \<longleftrightarrow> (n < next_new R \<longrightarrow> next_new R - Suc n \<in> R)) \<and>
     (\<forall>n < 64. n < next_new R \<longrightarrow> next_new R - Suc n \<in> R \<longrightarrow>
        (bit (canceled r) n \<longleftrightarrow> next_new R - Suc n \<in> C)) \<and>
     (\<forall>n < 64. bit (canceled r) n \<longrightarrow> bit (recvd r) n) \<and>
     (\<forall>i. i + rwindow_size r < next_new R \<longrightarrow> i \<in> R))"

section \<open>Bits and offsets\<close>

lemma ones_from_le: "ones_from n w \<le> n"
  by (induction n) auto

lemma ones_from_ones: "n - ones_from n w \<le> m \<Longrightarrow> m < n \<Longrightarrow> bit w m"
  by (induction n) (auto simp: less_Suc_eq split: if_splits)

lemma ones_from_zero: "ones_from n w < n \<Longrightarrow> \<not> bit w (n - Suc (ones_from n w))"
  by (induction n) auto

lemma bit_and_1: "(drop_bit n w :: u64) AND 1 = 0 \<longleftrightarrow> \<not> bit w n"
  by (simp add: and_one_eq mod2_eq_if bit_iff_odd_drop_bit)

lemma sint_of_int_u64:
  assumes "- (2 ^ 63) \<le> k" "k < 2 ^ 63"
  shows "sint (of_int k :: u64) = k"
  using assms by (simp add: sint_uint signed_take_bit_int_eq_self signed_take_bit_take_bit uint_word_of_int_eq)

lemma wrapping_offset_of_nat:
  assumes "i < 2 ^ 62" "h < 2 ^ 62"
  shows "wrapping_offset (of_nat i) (of_nat h - 1) = int i - int h + 1"
proof -
  have *: "(of_nat i - (of_nat h - 1) :: u64) = of_int (int i - int h + 1)"
    by simp
  show ?thesis
    using assms unfolding wrapping_offset_def * by (intro sint_of_int_u64) auto
qed

lemma next_new_upper: "finite R \<Longrightarrow> i \<in> R \<Longrightarrow> i < next_new R"
  using Max_ge [of R i] by (auto simp: next_new_def less_Suc_eq_le)

lemma next_new_insert: "finite R \<Longrightarrow> next_new (insert i R) = max (Suc i) (next_new R)"
  by (auto simp: next_new_def)

lemma oldest_missing_eqI:
  assumes "m \<notin> R" "\<And>i. i < m \<Longrightarrow> i \<in> R"
  shows "oldest_missing R = m"
  unfolding oldest_missing_def using assms by (intro Least_equality) (auto simp: not_less [symmetric])

lemma refinesD:
  assumes "refines r (R, C)"
  shows "finite R" "C \<subseteq> R" "next_new R < 2 ^ 62" "highest_seen r = of_nat (next_new R) - 1"
    "1 \<le> rwindow_size r" "rwindow_size r \<le> 64"
    "\<And>n. n < 64 \<Longrightarrow> bit (recvd r) n \<longleftrightarrow> (n < next_new R \<longrightarrow> next_new R - Suc n \<in> R)"
    "\<And>n. n < 64 \<Longrightarrow> n < next_new R \<Longrightarrow> next_new R - Suc n \<in> R \<Longrightarrow>
        bit (canceled r) n \<longleftrightarrow> next_new R - Suc n \<in> C"
    "\<And>i. i + rwindow_size r < next_new R \<Longrightarrow> i \<in> R"
    "\<And>n. n < 64 \<Longrightarrow> bit (canceled r) n \<Longrightarrow> bit (recvd r) n"
  using assms unfolding refines_def prod.case by blast+

text \<open>The count of leading ones finds the oldest missing packet.\<close>

lemma oldest_unrecvd_offset_refines:
  assumes "refines r (R, C)"
  shows "oldest_unrecvd_offset r = int (oldest_missing R) - int (next_new R) + 1"
proof -
  note r = refinesD [OF assms]
  let ?L = "leading_ones (recvd r)" and ?H = "next_new R"
  have le: "?L \<le> 64" unfolding leading_ones_def by (rule ones_from_le)
  have below: "i \<in> R" if "i < ?H" "64 - ?L < ?H - i" for i
  proof (cases "?H - Suc i < 64")
    case True
    have "bit (recvd r) (?H - Suc i)"
      using that True by (intro ones_from_ones [of 64]) (auto simp: leading_ones_def)
    then show ?thesis using r(7) [OF True] that by auto
  next
    case False
    then show ?thesis using r(6) by (intro r(9)) simp
  qed
  show ?thesis
  proof (cases "?L = 64")
    case True
    have "?H \<notin> R" using next_new_upper [OF r(1)] by blast
    then have "oldest_missing R = ?H"
      using below True by (intro oldest_missing_eqI) auto
    then show ?thesis using True by (simp add: oldest_unrecvd_offset_def)
  next
    case False
    then have lt: "?L < 64" using le by simp
    then have "\<not> bit (recvd r) (64 - Suc ?L)"
      unfolding leading_ones_def by (rule ones_from_zero)
    then have m: "64 - Suc ?L < ?H" "?H - Suc (64 - Suc ?L) \<notin> R"
      using r(7) [of "64 - Suc ?L"] by auto
    then have "oldest_missing R = ?H - Suc (64 - Suc ?L)"
      using below lt by (intro oldest_missing_eqI) auto
    then show ?thesis using m lt by (simp add: oldest_unrecvd_offset_def of_nat_diff)
  qed
qed

section \<open>The implementation refines the contract\<close>

lemma bit_push_u64: "bit (push_bit n w :: u64) m \<longleftrightarrow> m < 64 \<and> n \<le> m \<and> bit w (m - n)"
  by (auto simp: bit_push_bit_iff)

lemma bit_or_1: "bit (w OR 1 :: u64) m \<longleftrightarrow> m = 0 \<or> bit w m"
  by (auto simp: bit_or_iff bit_1_iff)

lemma bit_or_mark: "n < 64 \<Longrightarrow> bit (w OR 2 ^ n :: u64) m \<longleftrightarrow> m = n \<or> bit w m"
  by (auto simp: bit_or_iff bit_exp_iff)

lemma oldest_missing_notin: "finite R \<Longrightarrow> oldest_missing R \<notin> R"
  unfolding oldest_missing_def by (rule LeastI_ex) (meson ex_new_if_finite infinite_UNIV_nat)

lemma oldest_missing_le: "i \<notin> R \<Longrightarrow> oldest_missing R \<le> i"
  unfolding oldest_missing_def by (rule Least_le)

lemma less_oldest_missing: "i < oldest_missing R \<Longrightarrow> i \<in> R"
  using oldest_missing_le leD by blast

lemma oldest_missing_le_next: "finite R \<Longrightarrow> oldest_missing R \<le> next_new R"
  using next_new_upper by (intro oldest_missing_le) blast

text \<open>A packet newer than all before it shifts the window by the distance to the newest.\<close>

lemma refines_shift:
  assumes ref: "refines r (R, C)" and i: "next_new R \<le> i" "i < oldest_missing R + rwindow_size r"
    and "Suc i < 2 ^ 62"
    and d: "d = Suc i - next_new R" "d < 64"
    and c: "\<And>n. n < 64 \<Longrightarrow> bit cs n \<longleftrightarrow> (n = 0 \<and> is_cancel) \<or> (d \<le> n \<and> bit (canceled r) (n - d))"
  shows "refines (r\<lparr>highest_seen := highest_seen r + of_nat d,
      recvd := push_bit d (recvd r) OR 1, canceled := cs\<rparr>)
    (insert i R, if is_cancel then insert i C else C)"
proof -
  note r = refinesD [OF ref]
  let ?H = "next_new R" and ?R = "insert i R"
  have H': "next_new ?R = Suc i" using i r(1) by (simp add: next_new_insert)
  have fresh: "i \<notin> R" using next_new_upper [OF r(1), of i] i by auto
  have "of_nat (Suc i) = (of_nat ?H + of_nat d :: u64)"
    using i d by (metis le_add_diff_inverse le_Suc_eq of_nat_add)
  then have hs: "highest_seen r + of_nat d = of_nat (Suc i) - 1"
    using r(4) by simp
  have shift: "Suc i - Suc n = ?H - Suc (n - d)" "n < Suc i \<longleftrightarrow> n - d < ?H" if "d \<le> n" for n
    using that i d by auto
  have gap: "Suc i - Suc n \<notin> R" if "n < d" "n \<noteq> 0" for n
    using that i d next_new_upper [OF r(1), of "i - n"] by auto
  have bits: "bit (push_bit d (recvd r) OR 1) n \<longleftrightarrow> (n < Suc i \<longrightarrow> Suc i - Suc n \<in> ?R)"
    if "n < 64" for n
  proof (cases "d \<le> n")
    case True
    then show ?thesis
      using that r(7) [of "n - d"] i d shift [OF True] by (auto simp: bit_or_1 bit_push_u64)
  next
    case False
    then show ?thesis
      using that gap [of n] i d by (cases "n = 0") (auto simp: bit_or_1 bit_push_u64)
  qed
  have cans: "bit cs n \<longleftrightarrow> Suc i - Suc n \<in> (if is_cancel then insert i C else C)"
    if "n < 64" "n < Suc i" "Suc i - Suc n \<in> ?R" for n
  proof (cases "d \<le> n")
    case True
    then have "n - d < 64" "n \<noteq> 0" using that i d by auto
    then show ?thesis
      using that r(8) [of "n - d"] shift [OF True] c [of n] True fresh i by auto
  next
    case False
    then show ?thesis
      using that gap [of n] i d r(2) fresh c [of n] by (cases "n = 0") auto
  qed
  have sub: "bit (push_bit d (recvd r) OR 1) n" if "n < 64" "bit cs n" for n
    using that c [of n] r(10) [of "n - d"] by (auto simp: bit_or_1 bit_push_u64)
  have full: "j \<in> ?R" if "j + rwindow_size r < Suc i" for j
    using that i by (auto intro: less_oldest_missing)
  show ?thesis
    unfolding refines_def prod.case H' using r(1,2,5,6) assms(4) hs bits cans full sub by auto
qed

text \<open>A packet inside the window sets one bit.\<close>

lemma refines_mark:
  assumes ref: "refines r (R, C)" and i: "i < next_new R" "i \<notin> R"
    and n: "n = next_new R - Suc i" "n < 64"
    and c: "\<And>m. m < 64 \<Longrightarrow> bit cs m \<longleftrightarrow> (m = n \<and> is_cancel) \<or> bit (canceled r) m"
  shows "refines (r\<lparr>recvd := recvd r OR 2 ^ n, canceled := cs\<rparr>)
    (insert i R, if is_cancel then insert i C else C)"
proof -
  note r = refinesD [OF ref]
  have H': "next_new (insert i R) = next_new R" using i r(1) by (simp add: next_new_insert)
  have pos: "next_new R - Suc m = i \<longleftrightarrow> m = n" if "m < next_new R" for m
    using that i n by auto
  have nth: "next_new R - Suc n = i" "n < next_new R" using i n by auto
  then have old: "\<not> bit (canceled r) n" using r(7) [of n] r(10) [of n] i n by auto
  have bits: "bit (recvd r OR 2 ^ n) m \<longleftrightarrow> (m < next_new R \<longrightarrow> next_new R - Suc m \<in> insert i R)"
    if "m < 64" for m
    using that r(7) [of m] pos [of m] n nth by (auto simp: bit_or_mark)
  have cans: "bit cs m \<longleftrightarrow> next_new R - Suc m \<in> (if is_cancel then insert i C else C)"
    if "m < 64" "m < next_new R" "next_new R - Suc m \<in> insert i R" for m
    using that r(8) [of m] c [of m] pos [of m] old nth i r(2) by (cases "m = n") auto
  have sub: "bit (recvd r OR 2 ^ n) m" if "m < 64" "bit cs m" for m
    using that r(10) [of m] c [of m] n by (auto simp: bit_or_mark)
  show ?thesis
    unfolding refines_def prod.case H' using r(1-6,9) bits cans sub by auto
qed

definition receiver_counters_ok :: "receiver \<Rightarrow> bool" where
  "receiver_counters_ok r \<longleftrightarrow> (\<forall>k. rstats r k \<noteq> - 1)"

lemma count_receiver_stat_ok:
  "receiver_counters_ok r \<Longrightarrow>
     count_receiver_stat k r = Some (r\<lparr>rstats := (rstats r)(k := rstats r k + 1)\<rparr>)"
  by (simp add: count_receiver_stat_def receiver_counters_ok_def)

lemma refines_rstats [simp]:
  "refines (r\<lparr>rstats := f\<rparr>) A = refines r A"
  "refines (r\<lparr>rstats := f, recvd := a, canceled := b\<rparr>) A = refines (r\<lparr>recvd := a, canceled := b\<rparr>) A"
  "refines (r\<lparr>rstats := f, recvd := a\<rparr>) A = refines (r\<lparr>recvd := a, canceled := canceled r\<rparr>) A"
  by (simp_all add: refines_def)

lemma refines_new: "receiver_new w = Some r \<Longrightarrow> refines r ({}, {})"
  by (auto simp: receiver_new_def refines_def next_new_def split: if_splits)

lemma process_packet_or_cancel_refines:
  assumes ref: "refines r (R, C)" and ok: "receiver_counters_ok r" and w: "rwindow_size r \<le> 63"
    and i: "Suc i < 2 ^ 62"
    and spec: "spec_process (rwindow_size r) i is_cancel (R, C) = (d, A)"
  shows "\<exists>r'. process_packet_or_cancel (of_nat i) is_cancel r = Some (d, r') \<and> refines r' A \<and>
    rwindow_size r' = rwindow_size r"
proof -
  note r = refinesD [OF ref] and count = count_receiver_stat_ok [OF ok]
  let ?H = "next_new R" and ?W = "rwindow_size r"
  have off: "wrapping_offset (of_nat i) (highest_seen r) = int i - int ?H + 1"
    using r(3,4) i by (simp add: wrapping_offset_of_nat)
  note old = oldest_unrecvd_offset_refines [OF ref]
  note le = oldest_missing_le_next [OF r(1)]
  consider "i + ?W < ?H" | "?H \<le> i + ?W" "oldest_missing R + ?W \<le> i"
    | "?H \<le> i" "i < oldest_missing R + ?W" | "i < ?H" "?H \<le> i + ?W" "i \<notin> R"
    | "i < ?H" "?H \<le> i + ?W" "i \<in> R"
    using r(5) le by linarith
  then show ?thesis
  proof cases
    case 1
    then show ?thesis
      using spec ref by (auto simp: process_packet_or_cancel_def off count spec_process_def)
  next
    case 2
    then show ?thesis
      using spec ref by (auto simp: process_packet_or_cancel_def off old count spec_process_def)
  next
    case 3
    have fresh: "i \<notin> R" using 3 next_new_upper [OF r(1), of i] by auto
    define dist where "dist = Suc i - ?H"
    have dist: "int i - int ?H + 1 = int dist" "dist < 64" "dist > 0"
      using 3 w le by (auto simp: dist_def)
    have "refines (r\<lparr>highest_seen := highest_seen r + of_nat dist,
        recvd := push_bit dist (recvd r) OR 1,
        canceled := push_bit dist (canceled r) OR (if is_cancel then 1 else 0)\<rparr>)
      (insert i R, if is_cancel then insert i C else C)"
      by (rule refines_shift [OF ref 3 i dist_def dist(2)]) (auto simp: bit_push_u64 bit_or_1)
    then show ?thesis
      using spec 3 fresh dist w
      by (cases is_cancel)
        (auto simp: process_packet_or_cancel_def off old spec_process_def shl64_def Let_def)
  next
    case 4
    define n where "n = ?H - Suc i"
    have n: "int i - int ?H + 1 = - int n" "n < 64" "\<not> bit (recvd r) n"
      using 4 w r(7) [of n] by (auto simp: n_def)
    have "refines (r\<lparr>recvd := recvd r OR 2 ^ n,
        canceled := canceled r OR (if is_cancel then 2 ^ n else 0)\<rparr>)
      (insert i R, if is_cancel then insert i C else C)"
      by (rule refines_mark [OF ref 4(1,3) n_def n(2)]) (auto simp: bit_or_mark n)
    then show ?thesis
      using spec ref 4 n oldest_missing_le [OF 4(3)] r(5)
      by (cases is_cancel)
        (auto simp: process_packet_or_cancel_def off old spec_process_def shl64_def shr64_def
          Let_def count bit_and_1)
  next
    case 5
    define n where "n = ?H - Suc i"
    have n: "int i - int ?H + 1 = - int n" "n < 64" "bit (recvd r) n"
      "bit (canceled r) n \<longleftrightarrow> i \<in> C"
      using 5 w r(7,8) [of n] by (auto simp: n_def)
    then show ?thesis
      using spec 5 ref
      by (cases "oldest_missing R + ?W \<le> i")
        (auto simp: process_packet_or_cancel_def off old spec_process_def shr64_def Let_def
          count bit_and_1)
  qed
qed

text \<open>The query and the update agree on what to process.\<close>

lemma should_process_packet_eq:
  assumes "process_packet sn r = Some (d, r')"
  shows "should_process_packet sn r = Some (should_process d)"
  using assms
  by (auto simp: process_packet_def process_packet_or_cancel_def should_process_packet_def Let_def
      elim!: bind_SomeE split: if_splits)

lemma process_packet_or_cancel_frame:
  "process_packet_or_cancel sn c r = Some (d, r') \<Longrightarrow> rwindow_size r' = rwindow_size r"
  by (auto simp: process_packet_or_cancel_def count_receiver_stat_def Let_def
      elim!: bind_SomeE split: if_splits)

lemma too_new_not_counted:
  assumes "refines r (R, C)" "i < 2 ^ 62" "i < oldest_missing R + rwindow_size r"
    "process_packet_or_cancel (of_nat i) c r = Some (d, r')"
  shows "rstats r' TooNew = rstats r TooNew"
proof -
  note r = refinesD [OF assms(1)]
  have "wrapping_offset (of_nat i) (highest_seen r) = int i - int (next_new R) + 1"
    using r(3,4) assms(2) by (simp add: wrapping_offset_of_nat)
  then show ?thesis
    using assms(3,4) oldest_unrecvd_offset_refines [OF assms(1)]
    by (auto simp: process_packet_or_cancel_def count_receiver_stat_def Let_def
        elim!: bind_SomeE split: if_splits)
qed

section \<open>Properties\<close>

text \<open>
  C6: The bit-set receiver implements its contract on sets: for every window of at most 63 and
  every packet number below \<open>2 ^ 62\<close>, processing a packet or a cancellation request
  returns, without panic, the disposition of the specification, and the new bit sets represent
  the new sets of accepted and cancelled packets.
\<close>

theorem receiver_refines_specification:
  assumes "refines r (R, C)" "\<forall>k. rstats r k \<noteq> - 1" "rwindow_size r \<le> 63" "Suc i < 2 ^ 62"
  shows "\<exists>r'. process_packet_or_cancel (of_nat i) is_cancel r =
      Some (fst (spec_process (rwindow_size r) i is_cancel (R, C)), r') \<and>
    refines r' (snd (spec_process (rwindow_size r) i is_cancel (R, C)))"
proof -
  have "receiver_counters_ok r" using assms(2) by (simp add: receiver_counters_ok_def)
  from process_packet_or_cancel_refines [OF assms(1) this assms(3,4),
      of is_cancel "fst (spec_process (rwindow_size r) i is_cancel (R, C))"
        "snd (spec_process (rwindow_size r) i is_cancel (R, C))"]
  show ?thesis by auto
qed

theorem receiver_refines_specification_witness:
  "\<exists>r r'. receiver_new 32 = Some r \<and> refines r ({}, {}) \<and>
     process_packet_or_cancel (of_nat 5) False r = Some (AckAndProcess, r') \<and> refines r' ({5}, {})"
proof -
  obtain r where r: "receiver_new 32 = Some r" "rwindow_size r = 32" "\<forall>k. rstats r k \<noteq> - 1"
    by (simp add: receiver_new_def)
  have ref: "refines r ({}, {})" by (rule refines_new [OF r(1)])
  have "spec_process 32 5 False ({}, {}) = (AckAndProcess, ({5}, {}))"
    by (simp add: spec_process_def next_new_def oldest_missing_eqI [of 0 "{}"])
  then show ?thesis
    using receiver_refines_specification [OF ref r(3), of 5 False] r(1,2) ref by auto
qed

text \<open>
  C29: The query that dispatch makes before it queues a packet predicts the decision that is
  then taken: it says yes exactly when processing the same packet returns
  \<open>AckAndProcess\<close>.
\<close>

theorem should_process_predicts_process:
  assumes "process_packet sn r = Some (d, r')"
  shows "should_process_packet sn r = Some (d = AckAndProcess)"
  using should_process_packet_eq [OF assms] by (cases d) simp_all

theorem should_process_predicts_process_witness:
  "\<exists>r. receiver_new 32 = Some r \<and> should_process_packet 0 r = Some True"
proof -
  obtain r r' where r: "receiver_new 32 = Some r" and p: "process_packet (of_nat 0) r = Some (AckAndProcess, r')"
  proof -
    obtain r where r: "receiver_new 32 = Some r" "rwindow_size r = 32" "receiver_counters_ok r"
      by (simp add: receiver_new_def receiver_counters_ok_def)
    have "spec_process 32 0 False ({}, {}) = (AckAndProcess, ({0}, {}))"
      by (simp add: spec_process_def next_new_def oldest_missing_eqI [of 0 "{}"])
    then show thesis
      using that process_packet_or_cancel_refines [OF refines_new [OF r(1)] r(3), of 0 False] r(1,2)
      by (auto simp: process_packet_def)
  qed
  then show ?thesis
    using should_process_predicts_process [OF p] by simp
qed


end
