(* ===== verification/Zdpr_Link.thy ===== *)
theory Zdpr_Link
  imports Zdpr_Contract Zdpr_Receiver
begin

text \<open>
  One direction of a reliable management link: the handlers of
  \<open>adapter/ph/src/mgmt/dispatch.rs\<close> and the retry worker of \<open>zdpr_worker.rs\<close>
  around the sender and the receiver of \<open>zdpr.rs\<close>, and the network between them, which
  may lose, duplicate, delay and reorder messages.  The theorems are the end-to-end
  guarantees: at most one delivery of each packet, no acknowledgement without delivery, no
  delivery of a packet reported as cancelled, no panic and no rejected packet between two
  endpoints that follow the protocol, and progress by retransmission.
\<close>

section \<open>Messages and statistics\<close>

text \<open>The management packet types that carry a sequence number; \<open>Data\<close> is every other type.\<close>

datatype 'p wire = Data u64 'p | Acknowledgement u64 | Cancel u64 | CanceledMsg u64

datatype mgmt_counter =
    BadMgmtResponse | DroppedTooOld | DroppedDuplicate | DroppedTooNew | OutOfOrderPacket

fun zdpr_sender_stat_to_counter :: "sender_stat \<Rightarrow> mgmt_counter" where
  "zdpr_sender_stat_to_counter InvalidAck = BadMgmtResponse"
| "zdpr_sender_stat_to_counter TooOldAck = DroppedTooOld"
| "zdpr_sender_stat_to_counter DuplicateAck = DroppedDuplicate"
| "zdpr_sender_stat_to_counter TooNewAck = DroppedTooNew"

fun zdpr_receiver_stat_to_counter :: "receiver_stat \<Rightarrow> mgmt_counter" where
  "zdpr_receiver_stat_to_counter TooOld = DroppedTooOld"
| "zdpr_receiver_stat_to_counter Duplicate = DroppedDuplicate"
| "zdpr_receiver_stat_to_counter TooNew = DroppedTooNew"
| "zdpr_receiver_stat_to_counter OutOfOrder = OutOfOrderPacket"

fun count_sender_loop ::
    "sender_stat list \<Rightarrow> 'p sender \<Rightarrow> (mgmt_counter \<times> u64) list \<times> 'p sender"
where
  "count_sender_loop [] s = ([], s)"
| "count_sender_loop (k # ks) s = (case sender_fetch_reset_stat k s of (n, s1) \<Rightarrow>
     (case count_sender_loop ks s1 of (cs, s2) \<Rightarrow> ((zdpr_sender_stat_to_counter k, n) # cs, s2)))"

definition count_zdpr_sender_stats :: "'p sender \<Rightarrow> (mgmt_counter \<times> u64) list \<times> 'p sender" where
  "count_zdpr_sender_stats = count_sender_loop [InvalidAck, TooOldAck, DuplicateAck, TooNewAck]"

fun count_receiver_loop ::
    "receiver_stat list \<Rightarrow> receiver \<Rightarrow> (mgmt_counter \<times> u64) list \<times> receiver"
where
  "count_receiver_loop [] r = ([], r)"
| "count_receiver_loop (k # ks) r = (case receiver_fetch_reset_stat k r of (n, r1) \<Rightarrow>
     (case count_receiver_loop ks r1 of (cs, r2) \<Rightarrow> ((zdpr_receiver_stat_to_counter k, n) # cs, r2)))"

definition count_zdpr_receiver_stats :: "receiver \<Rightarrow> (mgmt_counter \<times> u64) list \<times> receiver" where
  "count_zdpr_receiver_stats = count_receiver_loop [TooOld, Duplicate, TooNew, OutOfOrder]"

section \<open>The handlers\<close>

definition mgmt_processor_queue_size :: nat where
  "mgmt_processor_queue_size = 16"

definition respond :: "disposition \<Rightarrow> u64 \<Rightarrow> 'p wire list" where
  "respond disp sn =
     (if should_ack disp
      then (if ack_is_canceled disp then [CanceledMsg sn] else [Acknowledgement sn])
      else [])"

text \<open>
  The tail of \<open>dispatch_mgmt_packet_with_link\<close>: the packet is queued for its processor
  only when the receiver will accept it, and a full queue leaves everything as it was.
\<close>

definition dispatch_reliable ::
    "u64 \<Rightarrow> 'p \<Rightarrow> receiver \<Rightarrow> 'p list \<Rightarrow> ('p wire list \<times> receiver \<times> 'p list) option"
where
  "dispatch_reliable sn pkt r q = do {
     process \<leftarrow> should_process_packet sn r;
     if process \<and> length q \<ge> mgmt_processor_queue_size then Some ([], r, q)
     else do {
       (disp, r1) \<leftarrow> process_packet sn r;
       Some (respond disp sn, snd (count_zdpr_receiver_stats r1), if process then q @ [pkt] else q)
     }
   }"

definition handle_cancel :: "u64 \<Rightarrow> receiver \<Rightarrow> ('p wire list \<times> receiver) option" where
  "handle_cancel sn r = do {
     (disp, r1) \<leftarrow> process_cancel sn r;
     Some (respond disp sn, snd (count_zdpr_receiver_stats r1))
   }"

text \<open>The loop that sends blocked packets after the window has opened.\<close>

function unblock_loop :: "'p sender \<Rightarrow> ('p wire list \<times> waker list \<times> 'p sender) option" where
  "unblock_loop s =
     (if \<not> unblock_needed s then Some ([], [], s)
      else (case enqueue_next_blocked_packet s of
          None \<Rightarrow> None
        | Some (sn, pkt, ws, t) \<Rightarrow> (case unblock_loop t of
              None \<Rightarrow> None
            | Some (out, ws', u) \<Rightarrow> Some (Data sn pkt # out, ws @ ws', u))))"
  by pat_completeness auto

lemma enqueue_next_blocked_shrinks:
  "enqueue_next_blocked_packet s = Some (sn, p, ws, t) \<Longrightarrow> length (blocked t) < length (blocked s)"
  using length_dropWhile_le [of "\<lambda>b. b = Canceled"]
  by (auto elim!: enqueue_next_blocked_packet_cases simp: clean_blocked_queue_eq less_Suc_eq_le)

termination unblock_loop
  by (relation "measure (\<lambda>s. length (blocked s))") (auto dest: enqueue_next_blocked_shrinks)

declare unblock_loop.simps [simp del]

definition handle_acknowledgement_canceled_common ::
    "u64 \<Rightarrow> bool \<Rightarrow> 'p sender \<Rightarrow> ('p wire list \<times> waker list \<times> bool \<times> 'p sender) option"
where
  "handle_acknowledgement_canceled_common sn is_canceled s = do {
     (ws, s1) \<leftarrow> (if is_canceled then process_canceled sn s
       else map_option snd (process_ack sn s));
     let s2 = snd (count_zdpr_sender_stats s1);
     let old_retry_needed = retry_needed s2;
     (out, ws', s3) \<leftarrow> unblock_loop s2;
     Some (out, ws @ ws', retry_needed s3 \<and> \<not> old_retry_needed, s3)
   }"

text \<open>One tick of the retry worker: age, resend the packets, resend the cancellations.\<close>

definition retry_tick :: "'p sender \<Rightarrow> 'p wire list \<times> 'p sender" where
  "retry_tick s = (if \<not> retry_needed s then ([], s) else
     (let s1 = snd (age_retries s) in
      (map (\<lambda>(sn, pkt). Data sn pkt) (retry_packets s1) @ map Cancel (retry_cancels s1), s1)))"

text \<open>The part of \<open>send_mgmt_helper\<close> that hands a packet to the sender.\<close>

definition send_mgmt :: "'p \<Rightarrow> 'p sender \<Rightarrow> 'p wire list \<times> bool \<times> 'p sender" where
  "send_mgmt pkt s = (case enqueue_packet pkt s of
       (Sent sn q, t) \<Rightarrow> ([Data sn q], \<not> retry_needed s, t)
     | (Queued pid, t) \<Rightarrow> ([], False, t))"

section \<open>One direction of a link\<close>

text \<open>
  \<open>air\<close> holds every message that was ever put on the network; delivering one does not
  remove it.  \<open>hist\<close> lists the packets in the order of their first transmission and
  \<open>dlvd\<close> the packets queued for processing at the receiving end, with their position in
  \<open>hist\<close>: neither is read by the code.
\<close>

record 'p session =
  lsend :: "'p sender"
  lrecv :: receiver
  inq :: "'p list"
  air :: "'p wire set"
  hist :: "'p list"
  dlvd :: "(nat \<times> 'p) list"

definition datas :: "'p wire list \<Rightarrow> 'p list" where
  "datas ws = List.map_filter (\<lambda>w. case w of Data _ p \<Rightarrow> Some p | _ \<Rightarrow> None) ws"

definition session_init :: "nat \<Rightarrow> 'p session \<Rightarrow> bool" where
  "session_init W l \<longleftrightarrow> lsend l = sender_new \<and> receiver_new W = Some (lrecv l) \<and> inq l = [] \<and>
     air l = {} \<and> hist l = [] \<and> dlvd l = []"

text \<open>What the owner of a packet may do with the sender, with windows up to \<open>M\<close>.\<close>

inductive caller_op :: "nat \<Rightarrow> 'p sender \<Rightarrow> 'p sender \<Rightarrow> bool" for M where
  "n \<le> M \<Longrightarrow> adjust_window_size n s = Some t \<Longrightarrow> caller_op M s t"
| "poll_send cx pid s = Some (r, t) \<Longrightarrow> caller_op M s t"
| "poll_ack cx sn s = Some (r', t) \<Longrightarrow> caller_op M s t"
| "cancel_queued_packet pid s = Some (pkt, ws, t) \<Longrightarrow> caller_op M s t"
| "limit_retries_by_id pid limit s = Some t \<Longrightarrow> caller_op M s t"
| "limit_retries_by_seq_num sn limit s = Some t \<Longrightarrow> caller_op M s t"
| "forget_canceled_packet sn s = Some t \<Longrightarrow> caller_op M s t"

inductive session_op :: "nat \<Rightarrow> 'p session \<Rightarrow> 'p session \<Rightarrow> bool" for M where
  caller: "caller_op M (lsend l) t \<Longrightarrow> session_op M l (l\<lparr>lsend := t\<rparr>)"
| cancel_sent: "cancel_sent_packet sn (lsend l) = Some (pkt, t) \<Longrightarrow>
    session_op M l (l\<lparr>lsend := t, air := air l \<union> (if pkt = None then {} else {Cancel sn})\<rparr>)"
| send: "send_mgmt p (lsend l) = (ws, notify, t) \<Longrightarrow>
    session_op M l (l\<lparr>lsend := t, air := air l \<union> set ws, hist := hist l @ datas ws\<rparr>)"
| tick: "retry_tick (lsend l) = (ws, t) \<Longrightarrow>
    session_op M l (l\<lparr>lsend := t, air := air l \<union> set ws\<rparr>)"
| recv_ack: "Acknowledgement sn \<in> air l \<Longrightarrow>
    handle_acknowledgement_canceled_common sn False (lsend l) = Some (ws, wk, notify, t) \<Longrightarrow>
    session_op M l (l\<lparr>lsend := t, air := air l \<union> set ws, hist := hist l @ datas ws\<rparr>)"
| recv_canceled: "CanceledMsg sn \<in> air l \<Longrightarrow>
    handle_acknowledgement_canceled_common sn True (lsend l) = Some (ws, wk, notify, t) \<Longrightarrow>
    session_op M l (l\<lparr>lsend := t, air := air l \<union> set ws, hist := hist l @ datas ws\<rparr>)"
| recv_data: "Data sn p \<in> air l \<Longrightarrow> dispatch_reliable sn p (lrecv l) (inq l) = Some (ws, r, q) \<Longrightarrow>
    session_op M l (l\<lparr>lrecv := r, inq := q, air := air l \<union> set ws,
      dlvd := dlvd l @ (if q = inq l then [] else [(unat sn, p)])\<rparr>)"
| recv_cancel: "Cancel sn \<in> air l \<Longrightarrow> handle_cancel sn (lrecv l) = Some (ws, r) \<Longrightarrow>
    session_op M l (l\<lparr>lrecv := r, air := air l \<union> set ws\<rparr>)"
| process: "inq l = p # q \<Longrightarrow> session_op M l (l\<lparr>inq := q\<rparr>)"

text \<open>
  Sequence numbers are 64 bits wide and messages may be delayed without bound, so a session
  is followed up to \<open>2 ^ 62\<close> packets.
\<close>

definition session_step :: "nat \<Rightarrow> 'p session \<Rightarrow> 'p session \<Rightarrow> bool" where
  "session_step M l l' \<longleftrightarrow> session_op M l l' \<and> fits (lsend l') \<and> length (hist l') < 2 ^ 62 - 1"

section \<open>The invariant\<close>

text \<open>The packets the receiving end has answered, read off the messages on the network.\<close>

definition answered :: "'p wire set \<Rightarrow> nat set" where
  "answered A = {unat sn | sn. Acknowledgement sn \<in> A \<or> CanceledMsg sn \<in> A}"

definition answered_canceled :: "'p wire set \<Rightarrow> nat set" where
  "answered_canceled A = {unat sn | sn. CanceledMsg sn \<in> A}"

definition slot_ok :: "'p session \<Rightarrow> nat \<Rightarrow> 'p unacked_state \<Rightarrow> bool" where
  "slot_ok l i st \<longleftrightarrow> (unacked_is_acked st \<longrightarrow> i \<in> answered (air l)) \<and>
     (st = CancelAcked \<longrightarrow> i \<in> answered_canceled (air l)) \<and>
     (\<forall>p w lim c f. st = Unacked p w lim c f \<longrightarrow> hist l ! i = p \<and> Cancel (of_nat i) \<notin> air l)"

definition sender_side :: "nat \<Rightarrow> 'p session \<Rightarrow> bool" where
  "sender_side M l \<longleftrightarrow> sender_inv (lsend l) \<and> stats (lsend l) = (\<lambda>_. 0) \<and>
     last_sent (lsend l) = of_nat (length (hist l)) - 1 \<and>
     length (unacked (lsend l)) \<le> length (hist l) \<and>
     length (unacked (lsend l)) \<le> M \<and> window_size (lsend l) \<le> M \<and>
     (\<forall>i < length (hist l). slot_ok l i (slot_state (lsend l) (of_nat i)))"

definition air_ok :: "'p session \<Rightarrow> bool" where
  "air_ok l \<longleftrightarrow>
     (\<forall>sn p. Data sn p \<in> air l \<longrightarrow> unat sn < length (hist l) \<and> hist l ! unat sn = p) \<and>
     (\<forall>sn. Cancel sn \<in> air l \<longrightarrow> unat sn < length (hist l)) \<and>
     answered (air l) \<subseteq> {..< length (hist l)} \<and>
     (\<forall>sn. Acknowledgement sn \<in> air l \<longrightarrow> CanceledMsg sn \<notin> air l) \<and>
     (\<forall>sn. CanceledMsg sn \<in> air l \<longrightarrow> Cancel sn \<in> air l)"

definition receiver_side :: "nat \<Rightarrow> 'p session \<Rightarrow> bool" where
  "receiver_side W l \<longleftrightarrow> rwindow_size (lrecv l) = W \<and> rstats (lrecv l) = (\<lambda>_. 0) \<and>
     refines (lrecv l) (answered (air l), answered_canceled (air l))"

definition log_ok :: "'p session \<Rightarrow> bool" where
  "log_ok l \<longleftrightarrow> distinct (map fst (dlvd l)) \<and>
     set (map fst (dlvd l)) = answered (air l) - answered_canceled (air l) \<and>
     (\<forall>(i, p) \<in> set (dlvd l). hist l ! i = p)"

definition session_inv :: "nat \<Rightarrow> nat \<Rightarrow> 'p session \<Rightarrow> bool" where
  "session_inv W M l \<longleftrightarrow> 1 \<le> M \<and> M \<le> W \<and> W \<le> 63 \<and> length (hist l) < 2 ^ 62 - 1 \<and>
     sender_side M l \<and> air_ok l \<and> receiver_side W l \<and> log_ok l"

lemma unat_of_nat_u64: "i < 2 ^ 64 \<Longrightarrow> unat (of_nat i :: u64) = i"
  by (simp add: unat_of_nat)

lemma of_nat_unat_u64 [simp]: "of_nat (unat (w :: u64)) = w"
  by simp

lemma link_invD:
  assumes "session_inv W M l"
  shows "sender_inv (lsend l)" "last_sent (lsend l) = of_nat (length (hist l)) - 1"
    "length (unacked (lsend l)) \<le> length (hist l)" "length (unacked (lsend l)) \<le> M"
    "window_size (lsend l) \<le> M" "M \<le> W" "W \<le> 63" "length (hist l) < 2 ^ 62 - 1"
    "\<And>i. i < length (hist l) \<Longrightarrow> slot_ok l i (slot_state (lsend l) (of_nat i))"
    "air_ok l" "receiver_side W l" "log_ok l" "sender_side M l" "1 \<le> M"
    "stats (lsend l) = (\<lambda>_. 0)"
  using assms by (auto simp: session_inv_def sender_side_def)

lemma age_of_nat:
  assumes "n < 2 ^ 62" "i < n"
  shows "age (of_nat n - 1) (of_nat i) = n - Suc i"
proof -
  have *: "(of_nat n - 1 - of_nat i :: u64) = of_nat (n - Suc i)"
    using assms by (simp add: of_nat_diff)
  show ?thesis
    unfolding age_def * by (rule unat_of_nat_u64) (use assms in simp)
qed

text \<open>The packets below the window are all answered.\<close>

lemma below_window_answered:
  assumes "session_inv W M l" "i + length (unacked (lsend l)) < length (hist l)"
  shows "i \<in> answered (air l)"
proof -
  note inv = link_invD [OF assms(1)]
  have "age (last_sent (lsend l)) (of_nat i) = length (hist l) - Suc i"
    using assms(2) inv(2,8) by (simp add: age_of_nat)
  then have "slot_state (lsend l) (of_nat i) = Acked"
    using assms(2) by (auto simp: slot_state_def view_def)
  then show ?thesis
    using inv(9) [of i] assms(2) by (simp add: slot_ok_def)
qed

lemma oldest_missing_window:
  assumes "session_inv W M l"
  shows "length (hist l) \<le> oldest_missing (answered (air l)) + M"
proof (rule ccontr)
  note inv = link_invD [OF assms]
  assume "\<not> length (hist l) \<le> oldest_missing (answered (air l)) + M"
  then have "oldest_missing (answered (air l)) \<in> answered (air l)"
    using inv(4) by (intro below_window_answered [OF assms]) simp
  moreover have "finite (answered (air l))"
    using inv(10) finite_subset [OF _ finite_lessThan] by (auto simp: air_ok_def)
  ultimately show False using oldest_missing_notin by blast
qed

lemma next_new_hist:
  assumes "session_inv W M l"
  shows "next_new (answered (air l)) \<le> length (hist l)"
proof -
  have "answered (air l) \<subseteq> {..< length (hist l)}"
    using link_invD(10) [OF assms] by (simp add: air_ok_def)
  moreover from this have "finite (answered (air l))" by (rule finite_subset) simp
  ultimately show ?thesis by (auto simp: next_new_def Suc_le_eq)
qed

section \<open>The sending end keeps the invariant\<close>

text \<open>More messages and more packets, but no new cancellation request for position \<open>i\<close>.\<close>

definition grows :: "nat \<Rightarrow> 'p session \<Rightarrow> 'p session \<Rightarrow> bool" where
  "grows i l l' \<longleftrightarrow> air l \<subseteq> air l' \<and> (\<exists>xs. hist l' = hist l @ xs) \<and>
     (Cancel (of_nat i) \<in> air l' \<longrightarrow> Cancel (of_nat i) \<in> air l)"

lemma slot_ok_grows:
  "slot_ok l i st \<Longrightarrow> grows i l l' \<Longrightarrow> i < length (hist l) \<Longrightarrow> slot_ok l' i st"
  by (auto simp: slot_ok_def grows_def answered_def answered_canceled_def nth_append)

text \<open>A packet whose cancellation was requested may be cancelled on the network.\<close>

lemma slot_ok_cancel:
  assumes "slot_ok l i st" "air l \<subseteq> A" "\<And>p w lim c f. st \<noteq> Unacked p w lim c f"
  shows "slot_ok (l\<lparr>lsend := t, air := A\<rparr>) i st"
  using assms by (auto simp: slot_ok_def answered_def answered_canceled_def)

lemma slot_ok_moves:
  "moves CALLER st st' \<Longrightarrow> slot_ok l i st \<Longrightarrow> slot_ok l i st'"
  by (auto simp: slot_ok_def elim!: moves_CallerE)

lemma sender_side_quiet:
  assumes "sender_side M l" "quiet (lsend l) t" "sender_inv t" "window_size t \<le> M"
    "\<And>sn p w lim c f. Cancel sn \<in> X \<Longrightarrow> slot_state t sn \<noteq> Unacked p w lim c f"
  shows "sender_side M (l\<lparr>lsend := t, air := air l \<union> X\<rparr>)"
proof -
  let ?l = "l\<lparr>lsend := t, air := air l \<union> X\<rparr>"
  have "slot_ok ?l i (slot_state t (of_nat i))" if "i < length (hist l)" for i
  proof -
    have slot: "slot_ok l i (slot_state t (of_nat i))"
      using assms(1,2) that by (auto simp: sender_side_def quiet_def intro: slot_ok_moves)
    show ?thesis
    proof (cases "Cancel (of_nat i) \<in> X")
      case True
      then show ?thesis using assms(5) by (intro slot_ok_cancel [OF slot]) auto
    next
      case False
      then show ?thesis using slot_ok_grows [OF slot, of ?l] that by (simp add: grows_def)
    qed
  qed
  then show ?thesis
    using assms(1-4) by (auto simp: sender_side_def quiet_def)
qed

lemma sender_side_sends:
  assumes "sender_side M l" "sends sn p (lsend l) t" "sender_inv t"
    "window_size t = window_size (lsend l)" "Suc (length (hist l)) < 2 ^ 62" "air_ok l"
  shows "sender_side M (l\<lparr>lsend := t, air := insert (Data sn p) (air l), hist := hist l @ [p]\<rparr>)"
proof -
  let ?l = "l\<lparr>lsend := t, air := insert (Data sn p) (air l), hist := hist l @ [p]\<rparr>"
  let ?n = "length (hist l)"
  have sn: "sn = of_nat ?n" "last_sent t = of_nat ?n"
    using assms(1,2) by (simp_all add: sender_side_def sends_def)
  obtain lim where st: "slot_state t = (slot_state (lsend l))(sn := Unacked p Noop lim 0 False)"
    using assms(2) by (auto simp: sends_def)
  have ne: "i < ?n \<Longrightarrow> (of_nat i :: u64) \<noteq> of_nat ?n" for i
    using assms(5) unat_of_nat_u64 [of i] unat_of_nat_u64 [of ?n] by auto
  have "slot_ok ?l i (slot_state t (of_nat i))" if "i < Suc ?n" for i
  proof (cases "i = ?n")
    case True
    have "unat (of_nat ?n :: u64) = ?n" using assms(5) by (intro unat_of_nat_u64) simp
    then have "Cancel (of_nat ?n) \<notin> air l" using assms(6) by (auto simp: air_ok_def)
    then show ?thesis using True by (simp add: st sn slot_ok_def)
  next
    case False
    then have "slot_ok l i (slot_state (lsend l) (of_nat i))" "i < ?n"
      using that assms(1) by (auto simp: sender_side_def)
    then show ?thesis
      using slot_ok_grows [of l i _ ?l] ne by (simp add: st sn grows_def subset_insertI)
  qed
  then show ?thesis
    using assms(1-5) by (simp add: sender_side_def sends_def)
qed

lemma answered_simps [simp]:
  "answered (insert (Data sn p) A) = answered A" "answered (insert (Cancel sn) A) = answered A"
  "answered_canceled (insert (Data sn p) A) = answered_canceled A"
  "answered_canceled (insert (Cancel sn) A) = answered_canceled A"
  by (simp_all add: answered_def answered_canceled_def)

lemma air_ok_sends:
  assumes "air_ok l" "sn = of_nat (length (hist l))" "length (hist l) < 2 ^ 62"
  shows "air_ok (l\<lparr>lsend := t, air := insert (Data sn p) (air l), hist := hist l @ [p]\<rparr>)"
  using assms unat_of_nat_u64 [of "length (hist l)"]
  by (auto simp: air_ok_def nth_append less_Suc_eq)

lemma unblock_loop_rule [consumes 1, case_names stop send]:
  assumes "unblock_loop s = Some (ws, wk, t)"
    and "\<And>s. \<not> unblock_needed s \<Longrightarrow> P s [] s"
    and "\<And>s sn p w1 t1 ws wk t. enqueue_next_blocked_packet s = Some (sn, p, w1, t1) \<Longrightarrow>
      unblock_loop t1 = Some (ws, wk, t) \<Longrightarrow> P t1 ws t \<Longrightarrow> P s (Data sn p # ws) t"
  shows "P s ws t"
  using assms(1)
proof (induction s arbitrary: ws wk t rule: unblock_loop.induct)
  case (1 s)
  show ?case
  proof (cases "unblock_needed s")
    case True
    with 1(2) obtain sn p w1 t1 ws1 wk1 where
      hd: "enqueue_next_blocked_packet s = Some (sn, p, w1, t1)"
      and rest: "unblock_loop t1 = Some (ws1, wk1, t)" "ws = Data sn p # ws1"
      by (subst (asm) unblock_loop.simps) (auto split: option.splits)
    then show ?thesis
      using 1(1) [OF _ hd refl refl refl rest(1)] True assms(3) [OF hd rest(1)] rest(2) by simp
  next
    case False
    then show ?thesis using 1(2) assms(2) by (subst (asm) unblock_loop.simps) simp
  qed
qed

lemma unblock_loop_monotone:
  assumes "unblock_loop s = Some (ws, wk, t)"
  shows "length (unacked s) \<le> length (unacked t) \<and> length (sent s) \<le> length (sent t) \<and>
     length (blocked t) \<le> length (blocked s)"
  using assms
proof (induction rule: unblock_loop_rule)
  case (send s sn p w1 t1 ws wk t)
  from send(1) have "length (unacked s) \<le> length (unacked t1)" "length (sent s) \<le> length (sent t1)"
    by (auto elim!: enqueue_next_blocked_packet_cases simp: clean_blocked_queue_eq)
  then show ?case
    using send(3) enqueue_next_blocked_shrinks [OF send(1)] by simp
qed simp

text \<open>The sending end of a link: everything that does not involve the receiver.\<close>

definition front_ok :: "nat \<Rightarrow> 'p session \<Rightarrow> bool" where
  "front_ok M l \<longleftrightarrow> sender_side M l \<and> air_ok l"

lemma front_ok_sends:
  assumes "front_ok M l" "sends sn p (lsend l) t" "sender_inv t"
    "window_size t = window_size (lsend l)" "Suc (length (hist l)) < 2 ^ 62"
  shows "front_ok M (l\<lparr>lsend := t, air := insert (Data sn p) (air l), hist := hist l @ [p]\<rparr>)"
proof -
  have "sn = of_nat (length (hist l))"
    using assms(1,2) by (simp add: front_ok_def sender_side_def sends_def)
  then show ?thesis
    using assms by (simp add: front_ok_def sender_side_sends air_ok_sends)
qed

lemma datas_simps [simp]:
  "datas [] = []" "datas (Data sn p # ws) = p # datas ws"
  by (simp_all add: datas_def List.map_filter_def)

lemma unblock_loop_front_ok:
  assumes "unblock_loop s = Some (ws, wk, t)" "front_ok M (l\<lparr>lsend := s\<rparr>)" "fits t"
    "length (hist l) + length (datas ws) < 2 ^ 62 - 1"
  shows "front_ok M (l\<lparr>lsend := t, air := air l \<union> set ws, hist := hist l @ datas ws\<rparr>)"
  using assms
proof (induction arbitrary: l rule: unblock_loop_rule)
  case (stop s)
  then show ?case by simp
next
  case (send s sn p w1 t1 ws wk t)
  have inv: "sender_inv s" using send(4) by (simp add: front_ok_def sender_side_def)
  have "fits t1"
    using send(5) unblock_loop_monotone [OF send(2)] enqueue_next_blocked_shrinks [OF send(1)]
      sender_invD(2) [OF inv] by (auto simp: fits_def)
  then have t1: "sender_inv t1"
    using enqueue_next_blocked_packet_inv [OF send(1) inv] by simp
  define m where "m = l\<lparr>lsend := t1, air := insert (Data sn p) (air l), hist := hist l @ [p]\<rparr>"
  have m: "m\<lparr>lsend := t1\<rparr> = m" by (cases l) (simp add: m_def)
  have "front_ok M m"
    using front_ok_sends [OF send(4), of sn p t1] send(6) t1
      enqueue_next_blocked_packet_sends [OF send(1)] window_size_keep(2) [OF send(1)]
    by (simp add: m_def)
  then show ?case
    using send(3) [of m] send(5,6) unfolding m by (simp add: m_def)
qed

section \<open>Every step keeps the invariant\<close>

lemma count_zdpr_sender_stats_eq: "snd (count_zdpr_sender_stats s) = s\<lparr>stats := (\<lambda>_. 0)\<rparr>"
proof -
  have "((stats s)(InvalidAck := 0, TooOldAck := 0, DuplicateAck := 0, TooNewAck := 0)) k = 0" for k
    by (cases k) simp_all
  then have "(stats s)(InvalidAck := 0, TooOldAck := 0, DuplicateAck := 0, TooNewAck := 0) = (\<lambda>_. 0)"
    by (rule ext)
  then show ?thesis
    by (simp add: count_zdpr_sender_stats_def sender_fetch_reset_stat_def fun_upd_twist)
qed

lemma count_zdpr_receiver_stats_eq: "snd (count_zdpr_receiver_stats r) = r\<lparr>rstats := (\<lambda>_. 0)\<rparr>"
proof -
  have "((rstats r)(TooOld := 0, Duplicate := 0, TooNew := 0, OutOfOrder := 0)) k = 0" for k
    by (cases k) simp_all
  then have "(rstats r)(TooOld := 0, Duplicate := 0, TooNew := 0, OutOfOrder := 0) = (\<lambda>_. 0)"
    by (rule ext)
  then show ?thesis
    by (simp add: count_zdpr_receiver_stats_def receiver_fetch_reset_stat_def fun_upd_twist)
qed

text \<open>Steps of the sending end do not touch what the receiving end has answered.\<close>

definition silent :: "'p wire set \<Rightarrow> bool" where
  "silent X \<longleftrightarrow> (\<forall>w \<in> X. case w of Data _ _ \<Rightarrow> True | Cancel _ \<Rightarrow> True | _ \<Rightarrow> False)"

lemma answered_silent:
  assumes "silent X"
  shows "answered (A \<union> X) = answered A" "answered_canceled (A \<union> X) = answered_canceled A"
  using assms by (fastforce simp: silent_def answered_def answered_canceled_def)+

lemma link_inv_front:
  assumes "session_inv W M l" "silent X" "length (hist l @ xs) < 2 ^ 62 - 1"
    "front_ok M (l\<lparr>lsend := t, air := air l \<union> X, hist := hist l @ xs\<rparr>)"
  shows "session_inv W M (l\<lparr>lsend := t, air := air l \<union> X, hist := hist l @ xs\<rparr>)"
proof -
  note inv = link_invD [OF assms(1)]
  have "answered (air l) \<subseteq> {..< length (hist l)}"
    using inv(10) by (simp add: air_ok_def)
  then have "\<forall>(i, p) \<in> set (dlvd l). (hist l @ xs) ! i = p"
    using inv(12) by (fastforce simp: log_ok_def nth_append)
  then show ?thesis
    using assms inv by (simp add: session_inv_def front_ok_def receiver_side_def log_ok_def answered_silent)
qed

lemma air_ok_silent:
  assumes "air_ok l" "\<And>sn p. Data sn p \<in> X \<Longrightarrow> unat sn < length (hist l) \<and> hist l ! unat sn = p"
    "\<And>sn. Cancel sn \<in> X \<Longrightarrow> unat sn < length (hist l)" "silent X"
  shows "air_ok (l\<lparr>lsend := t, air := air l \<union> X\<rparr>)"
  using assms(1-3) assms(4)
  by (auto simp: air_ok_def answered_silent [OF assms(4)] silent_def)

text \<open>A packet in the window has a position in the history.\<close>

lemma slot_position:
  assumes "session_inv W M l" "slot_state (lsend l) sn \<noteq> Acked"
  shows "unat sn < length (hist l)" "slot_ok l (unat sn) (slot_state (lsend l) sn)"
proof -
  note inv = link_invD [OF assms(1)]
  obtain n where n: "n < length (unacked (lsend l))" "sn = last_sent (lsend l) - of_nat n"
    using slot_state_cases [OF inv(1) assms(2), of sn] by auto
  then have "sn = of_nat (length (hist l) - Suc n)"
    using inv(2,3) by (simp add: of_nat_diff)
  then have pos: "unat sn = length (hist l) - Suc n"
    using inv(8) unat_of_nat_u64 [of "length (hist l) - Suc n"] by simp
  then show lt: "unat sn < length (hist l)" using n(1) inv(3) by auto
  show "slot_ok l (unat sn) (slot_state (lsend l) sn)"
    using inv(9) [OF lt] by simp
qed

lemma caller_op_quiet:
  assumes "caller_op M s t" "sender_inv s" "fits t"
  shows "quiet s t" "sender_inv t"
  using assms
  by (auto elim!: caller_op.cases
      intro: adjust_window_size_quiet poll_send_quiet poll_ack_quiet cancel_queued_packet_quiet
        limit_retries_by_id_quiet limit_retries_by_seq_num_quiet forget_canceled_packet_quiet
        adjust_window_size_inv poll_send_inv poll_ack_inv cancel_queued_packet_inv
        limit_retries_by_id_inv limit_retries_by_seq_num_inv forget_canceled_packet_inv)

lemma caller_op_window:
  assumes "caller_op M s t" "sender_inv s" "window_size s \<le> M"
  shows "window_size t \<le> M"
  using assms(1)
proof cases
  case (1 n)
  then show ?thesis by (auto simp: adjust_window_size_def split: if_splits)
next
  case (2 cx pid r)
  then show ?thesis using assms(3) by (auto elim!: poll_send_cases)
next
  case (3 cx sn r')
  then show ?thesis
    using assms(3) by (auto simp: poll_ack_def elim!: bind_SomeE split: slot.splits if_splits)
next
  case (4 pid pkt ws)
  then show ?thesis
    using assms(3) by (auto elim!: cancel_queued_packet_cases simp: clean_blocked_queue_eq)
next
  case (5 pid limit)
  then show ?thesis
    using assms(3) by (auto elim!: limit_retries_by_id_cases limit_retries_by_seq_num_cases)
next
  case (6 sn limit)
  then show ?thesis using assms(3) by (auto elim!: limit_retries_by_seq_num_cases)
next
  case (7 sn)
  then show ?thesis
    using assms(2,3) by (auto elim!: forget_canceled_packet_cases)
qed

lemma link_inv_quiet:
  assumes "session_inv W M l" "quiet (lsend l) t" "sender_inv t" "window_size t \<le> M" "silent X"
    "\<And>sn p. Data sn p \<in> X \<Longrightarrow> unat sn < length (hist l) \<and> hist l ! unat sn = p"
    "\<And>sn. Cancel sn \<in> X \<Longrightarrow> unat sn < length (hist l)"
    "\<And>sn p w lim c f. Cancel sn \<in> X \<Longrightarrow> slot_state t sn \<noteq> Unacked p w lim c f"
  shows "session_inv W M (l\<lparr>lsend := t, air := air l \<union> X\<rparr>)"
proof -
  note inv = link_invD [OF assms(1)]
  have "front_ok M (l\<lparr>lsend := t, air := air l \<union> X\<rparr>)"
    unfolding front_ok_def using sender_side_quiet [OF inv(13) assms(2-4,8)] air_ok_silent [OF inv(10) assms(6,7,5)]
    by blast
  then show ?thesis
    using link_inv_front [OF assms(1,5), of "[]" t] inv(8) by simp
qed

lemma unacked_cancel_not_Unacked: "snd (unacked_cancel st) \<noteq> Unacked p w lim c f"
  by (cases st) simp_all

lemma link_inv_cancel_sent:
  assumes "session_inv W M l" "cancel_sent_packet sn (lsend l) = Some (pkt, t)"
  shows "session_inv W M (l\<lparr>lsend := t, air := air l \<union> (if pkt = None then {} else {Cancel sn})\<rparr>)"
proof (rule link_inv_quiet)
  note inv = link_invD [OF assms(1)]
  show "window_size t \<le> M"
    using assms(2) inv(5) by (auto elim!: cancel_sent_packet_cases)
  have "pkt \<noteq> None \<Longrightarrow> slot_state (lsend l) sn \<noteq> Acked"
    using assms(2) locate_unacked_Slot(2) [OF _ sender_invD(4) [OF inv(1)]]
    by (auto elim!: cancel_sent_packet_cases)
  then show "Cancel sn' \<in> (if pkt = None then {} else {Cancel sn}) \<Longrightarrow> unat sn' < length (hist l)" for sn'
    using slot_position(1) [OF assms(1)] by (auto split: if_splits)
  show "Cancel sn' \<in> (if pkt = None then {} else {Cancel sn}) \<Longrightarrow>
      slot_state t sn' \<noteq> Unacked p w lim c f" for sn' p w lim c f
    using assms(2) inv(1)
    by (auto elim!: cancel_sent_packet_cases split: if_splits
        simp: slot_state_update unacked_cancel_not_Unacked)
qed (use assms link_invD(1) [OF assms(1)] in
  \<open>auto intro: cancel_sent_packet_quiet cancel_sent_packet_inv simp: silent_def split: if_splits\<close>)

lemma link_inv_send:
  assumes "session_inv W M l" "send_mgmt p (lsend l) = (ws, notify, t)" "fits t"
    "length (hist l @ datas ws) < 2 ^ 62 - 1"
  shows "session_inv W M (l\<lparr>lsend := t, air := air l \<union> set ws, hist := hist l @ datas ws\<rparr>)"
proof -
  note inv = link_invD [OF assms(1)]
  obtain res where enq: "enqueue_packet p (lsend l) = (res, t)"
    using assms(2) by (auto simp: send_mgmt_def split: prod.splits enqueue_result.splits)
  have t: "sender_inv t" "window_size t = window_size (lsend l)"
    using enqueue_packet_inv [OF inv(1), of p] window_size_keep(1) [of p "lsend l"] enq assms(3) by auto
  show ?thesis
  proof (cases res)
    case (Sent sn q)
    then have ws: "ws = [Data sn q]" and q: "q = p" and sends: "sends sn p (lsend l) t"
      using assms(2) enq enqueue_packet_Sent [of p "lsend l"] by (auto simp: send_mgmt_def)
    have "front_ok M (l\<lparr>lsend := t, air := air l \<union> set ws, hist := hist l @ datas ws\<rparr>)"
      using front_ok_sends [of M l sn p t] inv(10,13) sends t assms(4) ws q by (simp add: front_ok_def)
    then show ?thesis
      by (intro link_inv_front [OF assms(1) _ assms(4)]) (simp_all add: silent_def ws)
  next
    case (Queued pid)
    then have ws: "ws = []" and "quiet (lsend l) t"
      using assms(2) enq enqueue_packet_Queued [of p "lsend l"] by (auto simp: send_mgmt_def)
    then show ?thesis
      using link_inv_quiet [OF assms(1), of t "{}"] t inv(5) by (simp add: silent_def)
  qed
qed

lemma link_inv_tick:
  assumes "session_inv W M l" "retry_tick (lsend l) = (ws, t)"
  shows "session_inv W M (l\<lparr>lsend := t, air := air l \<union> set ws\<rparr>)"
proof (cases "retry_needed (lsend l)")
  case True
  note inv = link_invD [OF assms(1)]
  have t: "t = snd (age_retries (lsend l))" and
    ws: "ws = map (\<lambda>(sn, pkt). Data sn pkt) (retry_packets t) @ map Cancel (retry_cancels t)"
    using assms(2) True by (auto simp: retry_tick_def Let_def)
  have inv': "sender_inv t" "quiet (lsend l) t" "window_size t = window_size (lsend l)"
    using age_retries_inv [OF inv(1)] age_retries_quiet [of "lsend l"] by (auto simp: t age_retries_def)
  have aged: "session_inv W M (l\<lparr>lsend := t, air := air l \<union> {}\<rparr>)"
    using inv' inv(5) by (intro link_inv_quiet [OF assms(1)]) (auto simp: silent_def)
  show ?thesis
  proof (rule link_inv_quiet [OF assms(1) inv'(2,1)])
    fix sn p
    assume "Data sn p \<in> set ws"
    then have "(sn, p) \<in> set (retry_packets t)" by (auto simp: ws)
    then obtain w lim c f where "slot_state t sn = Unacked p w lim c f"
      by (auto simp: set_retry_packets [OF inv'(1)])
    then show "unat sn < length (hist l) \<and> hist l ! unat sn = p"
      using slot_position [OF aged, of sn] by (auto simp: slot_ok_def)
  next
    fix sn
    assume "Cancel sn \<in> set ws"
    then have "sn \<in> set (retry_cancels t)" by (auto simp: ws)
    then show "unat sn < length (hist l)"
      using slot_position(1) [OF aged, of sn] by (auto simp: set_retry_cancels [OF inv'(1)])
  next
    fix sn p w lim c f
    assume "Cancel sn \<in> set ws"
    then have "sn \<in> set (retry_cancels t)" by (auto simp: ws)
    then show "slot_state t sn \<noteq> Unacked p w lim c f" by (auto simp: set_retry_cancels [OF inv'(1)])
  qed (use inv' inv(5) in \<open>auto simp: ws silent_def\<close>)
next
  case False
  then show ?thesis using assms by (auto simp: retry_tick_def)
qed

text \<open>An acknowledgement settles a packet that the receiving end has answered accordingly.\<close>

lemma slot_ok_settles:
  assumes "moves ev st st'" "slot_ok l i st" "ev = CANCEL_ACK \<longrightarrow> i \<in> answered_canceled (air l)"
    "ev = ACK \<or> ev = CANCEL_ACK" "i \<in> answered (air l)"
  shows "slot_ok l i st'"
  using assms by (auto simp: slot_ok_def elim!: moves_AckE moves_CancelAckE)

lemma front_ok_settles:
  assumes "front_ok M l" "settles ev sn (lsend l) t" "sender_inv t \<and> stats t = (\<lambda>_. 0)"
    "window_size t = window_size (lsend l)" "length (hist l) < 2 ^ 62"
    "ev = CANCEL_ACK \<longrightarrow> unat sn \<in> answered_canceled (air l)" "ev = ACK \<or> ev = CANCEL_ACK"
    "unat sn \<in> answered (air l)"
  shows "front_ok M (l\<lparr>lsend := t\<rparr>)"
proof -
  obtain st where st: "moves ev (slot_state (lsend l) sn) st"
    "slot_state t = (slot_state (lsend l))(sn := st)"
    using assms(2) by (auto simp: settles_def)
  have slot: "slot_ok l i (slot_state (lsend l) (of_nat i))" if "i < length (hist l)" for i
    using assms(1) that by (simp add: front_ok_def sender_side_def)
  have "slot_ok l i (slot_state t (of_nat i))" if "i < length (hist l)" for i
  proof (cases "of_nat i = sn")
    case True
    then have "unat sn = i" using that assms(5) unat_of_nat_u64 [of i] by auto
    then show ?thesis
      using slot_ok_settles [OF st(1)] slot [OF that] assms(6-8) True by (simp add: st(2))
  qed (use slot [OF that] in \<open>simp add: st(2)\<close>)
  then show ?thesis
    using assms(1-4) by (auto simp: front_ok_def sender_side_def settles_def slot_ok_def air_ok_def)
qed

lemma silent_unblock:
  assumes "unblock_loop s = Some (ws, wk, t)"
  shows "silent (set ws)"
  using assms by (induction rule: unblock_loop_rule) (auto simp: silent_def)

lemma link_inv_acks:
  assumes "session_inv W M l" "fits t" "length (hist l @ datas ws) < 2 ^ 62 - 1"
    "handle_acknowledgement_canceled_common sn c (lsend l) = Some (ws, wk, notify, t)"
    "if c then CanceledMsg sn \<in> air l else Acknowledgement sn \<in> air l"
  shows "session_inv W M (l\<lparr>lsend := t, air := air l \<union> set ws, hist := hist l @ datas ws\<rparr>)"
proof -
  note inv = link_invD [OF assms(1)]
  obtain s1 wk1 wk2 where s1: "(if c then process_canceled sn (lsend l)
      else map_option snd (process_ack sn (lsend l))) = Some (wk1, s1)"
    and loop: "unblock_loop (s1\<lparr>stats := (\<lambda>_. 0)\<rparr>) = Some (ws, wk2, t)"
    using assms(4)
    by (auto simp: handle_acknowledgement_canceled_common_def count_zdpr_sender_stats_eq Let_def
        elim!: bind_SomeE)
  let ?ev = "if c then CANCEL_ACK else ACK"
  have step: "settles ?ev sn (lsend l) s1" "sender_inv s1" "window_size s1 = window_size (lsend l)"
    using s1 inv(1) process_ack_settles process_canceled_settles process_ack_inv
      process_canceled_inv window_size_settled by (auto split: if_splits)
  have "front_ok M (l\<lparr>lsend := s1\<lparr>stats := (\<lambda>_. 0)\<rparr>\<rparr>)"
  proof (rule front_ok_settles [of M l ?ev sn])
    show "settles ?ev sn (lsend l) (s1\<lparr>stats := (\<lambda>_. 0)\<rparr>)"
      using step(1) by (simp add: settles_def)
    show "unat sn \<in> answered (air l)" "?ev = CANCEL_ACK \<longrightarrow> unat sn \<in> answered_canceled (air l)"
      using assms(5) by (auto simp: answered_def answered_canceled_def split: if_splits)
  qed (use step inv in \<open>simp_all add: front_ok_def\<close>)
  then have "front_ok M (l\<lparr>lsend := t, air := air l \<union> set ws, hist := hist l @ datas ws\<rparr>)"
    using unblock_loop_front_ok [OF loop] assms(2,3) by simp
  then show ?thesis
    by (intro link_inv_front [OF assms(1) silent_unblock [OF loop] assms(3)])
qed

section \<open>The receiving end keeps the invariant\<close>

lemma answered_respond:
  "answered (A \<union> set (respond d sn)) = (if should_ack d then insert (unat sn) (answered A) else answered A)"
  "answered_canceled (A \<union> set (respond d sn)) =
     (if ack_is_canceled d then insert (unat sn) (answered_canceled A) else answered_canceled A)"
  by (cases d; auto simp: answered_def answered_canceled_def respond_def)+

text \<open>The answer to a message, and the sets it leads to, are those of the specification.\<close>

lemma process_answer:
  assumes "session_inv W M l" "unat sn < length (hist l)"
  obtains d r' where "process_packet_or_cancel sn c (lrecv l) = Some (d, r')"
    "d = fst (spec_process W (unat sn) c (answered (air l), answered_canceled (air l)))"
    "receiver_side W (l\<lparr>lrecv := r'\<lparr>rstats := (\<lambda>_. 0)\<rparr>, air := air l \<union> set (respond d sn)\<rparr>)"
proof -
  note inv = link_invD [OF assms(1)]
  let ?A = "(answered (air l), answered_canceled (air l))"
  have rec: "rwindow_size (lrecv l) = W" "receiver_counters_ok (lrecv l)" "refines (lrecv l) ?A"
    using inv(11) by (auto simp: receiver_side_def receiver_counters_ok_def)
  obtain d A where spec: "spec_process W (unat sn) c ?A = (d, A)"
    by (cases "spec_process W (unat sn) c ?A")
  then obtain r' where r': "process_packet_or_cancel sn c (lrecv l) = Some (d, r')" "refines r' A"
      "rwindow_size r' = W"
    using process_packet_or_cancel_refines [OF rec(3,2), of "unat sn" c d A] rec(1) inv(7,8) assms(2)
    by auto
  have "A = (answered (air l \<union> set (respond d sn)), answered_canceled (air l \<union> set (respond d sn)))"
    using spec unfolding answered_respond
    by (auto simp: spec_process_def insert_absorb split: if_splits)
  then have "receiver_side W (l\<lparr>lrecv := r'\<lparr>rstats := (\<lambda>_. 0)\<rparr>, air := air l \<union> set (respond d sn)\<rparr>)"
    using r' by (simp add: receiver_side_def)
  then show thesis using that r'(1) spec by simp
qed

text \<open>What a disposition says about the packet, given the sets before it.\<close>

lemma spec_process_cases:
  assumes "d = fst (spec_process W i c (R, C))"
  shows "d = AckAndProcess \<Longrightarrow> i \<notin> R \<and> \<not> c"
    "d = AckDoNotProcess \<Longrightarrow> i \<in> R - C"
    "d = AckCancelDoNotProcess \<Longrightarrow> i \<in> C \<or> (i \<notin> R \<and> c)"
  using assms by (auto simp: spec_process_def split: if_splits)

lemma air_ok_respond:
  assumes "air_ok l" "d = fst (spec_process W (unat sn) c (answered (air l), answered_canceled (air l)))"
    "unat sn < length (hist l)" "c \<Longrightarrow> Cancel sn \<in> air l"
  shows "air_ok (l\<lparr>lrecv := r, inq := q, air := air l \<union> set (respond d sn), dlvd := ds\<rparr>)"
proof -
  note d = spec_process_cases [OF assms(2)]
  have ack: "d = AckAndProcess \<or> d = AckDoNotProcess \<Longrightarrow> CanceledMsg sn \<notin> air l"
    using d by (auto simp: answered_def answered_canceled_def)
  have can: "d = AckCancelDoNotProcess \<Longrightarrow> Acknowledgement sn \<notin> air l"
    using d(3) assms(1)
    by (auto simp: answered_def answered_canceled_def air_ok_def word_unat_eq_iff [symmetric])
  have req: "d = AckCancelDoNotProcess \<Longrightarrow> Cancel sn \<in> air l"
    using d(3) assms(1,4)
    by (auto simp: answered_def answered_canceled_def air_ok_def word_unat_eq_iff [symmetric])
  show ?thesis
    using assms(1,3) ack can req unfolding air_ok_def
    by (cases d) (auto simp: respond_def answered_def)
qed

lemma no_Cancel_respond: "Cancel sn' \<notin> set (respond d sn)"
  by (simp add: respond_def)

lemma sender_side_respond:
  assumes "sender_side M l" "\<And>sn. Cancel sn \<notin> X"
  shows "sender_side M (l\<lparr>lrecv := r, inq := q, air := air l \<union> X, dlvd := ds\<rparr>)"
  using assms slot_ok_grows [of l _ _ "l\<lparr>lrecv := r, inq := q, air := air l \<union> X, dlvd := ds\<rparr>"]
  by (auto simp: sender_side_def grows_def)

lemma answered_canceled_subset: "answered_canceled A \<subseteq> answered A"
  by (auto simp: answered_def answered_canceled_def)

lemma link_inv_recv_data:
  assumes "session_inv W M l" "Data sn p \<in> air l"
    "dispatch_reliable sn p (lrecv l) (inq l) = Some (ws, r, q)"
  shows "session_inv W M (l\<lparr>lrecv := r, inq := q, air := air l \<union> set ws,
      dlvd := dlvd l @ (if q = inq l then [] else [(unat sn, p)])\<rparr>)"
proof -
  note inv = link_invD [OF assms(1)]
  have pos: "unat sn < length (hist l)" "hist l ! unat sn = p"
    using inv(10) assms(2) by (auto simp: air_ok_def)
  obtain d r' where d: "process_packet_or_cancel sn False (lrecv l) = Some (d, r')"
    "d = fst (spec_process W (unat sn) False (answered (air l), answered_canceled (air l)))"
    and rec: "receiver_side W (l\<lparr>lrecv := r'\<lparr>rstats := (\<lambda>_. 0)\<rparr>, air := air l \<union> set (respond d sn)\<rparr>)"
    using process_answer [OF assms(1) pos(1)] by metis
  note should = should_process_packet_eq [of sn "lrecv l" d r', unfolded process_packet_def, OF d(1)]
  show ?thesis
  proof (cases "should_process d \<and> length (inq l) \<ge> mgmt_processor_queue_size")
    case True
    then show ?thesis
      using assms(1,3) should by (auto simp: dispatch_reliable_def)
  next
    case False
    then have res: "ws = respond d sn" "r = r'\<lparr>rstats := (\<lambda>_. 0)\<rparr>"
      "q = (if should_process d then inq l @ [p] else inq l)"
      using assms(3) d(1) should
      by (auto simp: dispatch_reliable_def process_packet_def count_zdpr_receiver_stats_eq)
    let ?l = "l\<lparr>lrecv := r, inq := q, air := air l \<union> set ws,
      dlvd := dlvd l @ (if q = inq l then [] else [(unat sn, p)])\<rparr>"
    have "log_ok ?l"
      using inv(12) pos(2) spec_process_cases [OF d(2)] answered_canceled_subset [of "air l"]
      by (cases d) (auto simp: log_ok_def res answered_respond)
    moreover have "receiver_side W ?l" using rec by (simp add: receiver_side_def res)
    moreover have "air_ok ?l" using air_ok_respond [OF inv(10) d(2) pos(1)] by (simp add: res)
    moreover have "sender_side M ?l"
      using sender_side_respond [OF inv(13), of "set ws"] by (simp add: res no_Cancel_respond)
    ultimately show ?thesis using inv by (simp add: session_inv_def)
  qed
qed

lemma link_inv_recv_cancel:
  assumes "session_inv W M l" "Cancel sn \<in> air l" "handle_cancel sn (lrecv l) = Some (ws, r)"
  shows "session_inv W M (l\<lparr>lrecv := r, air := air l \<union> set ws\<rparr>)"
proof -
  note inv = link_invD [OF assms(1)]
  have pos: "unat sn < length (hist l)"
    using inv(10) assms(2) by (auto simp: air_ok_def)
  obtain d r' where d: "process_packet_or_cancel sn True (lrecv l) = Some (d, r')"
    "d = fst (spec_process W (unat sn) True (answered (air l), answered_canceled (air l)))"
    and rec: "receiver_side W (l\<lparr>lrecv := r'\<lparr>rstats := (\<lambda>_. 0)\<rparr>, air := air l \<union> set (respond d sn)\<rparr>)"
    using process_answer [OF assms(1) pos] by metis
  have res: "ws = respond d sn" "r = r'\<lparr>rstats := (\<lambda>_. 0)\<rparr>"
    using assms(3) d(1) by (auto simp: handle_cancel_def process_cancel_def count_zdpr_receiver_stats_eq)
  let ?l = "l\<lparr>lrecv := r, inq := inq l, air := air l \<union> set ws, dlvd := dlvd l\<rparr>"
  have "log_ok ?l"
    using inv(12) spec_process_cases [OF d(2)]
    by (cases d) (auto simp: log_ok_def res answered_respond)
  moreover have "receiver_side W ?l" using rec by (simp add: receiver_side_def res)
  moreover have "air_ok ?l"
    unfolding res by (rule air_ok_respond [OF inv(10) d(2) pos assms(2)])
  moreover have "sender_side M ?l"
    by (rule sender_side_respond [OF inv(13)]) (simp add: res no_Cancel_respond)
  ultimately have "session_inv W M ?l" using inv by (simp add: session_inv_def)
  then show ?thesis by simp
qed

lemma link_inv_init:
  assumes "session_init W l" "1 \<le> M" "M \<le> W" "W \<le> 63"
  shows "session_inv W M l"
proof -
  have new: "receiver_new W = Some (lrecv l)" using assms(1) by (simp add: session_init_def)
  then have "lrecv l = \<lparr>rwindow_size = W, highest_seen = - 1, recvd = - 1, canceled = - 1,
      rstats = (\<lambda>_. 0)\<rparr>"
    by (auto simp: receiver_new_def split: if_splits)
  then have "receiver_side W l"
    using refines_new [OF new] assms(1)
    by (simp add: receiver_side_def session_init_def answered_def answered_canceled_def)
  moreover have "sender_side M l"
    using assms(1,2) sender_inv_new by (simp add: sender_side_def session_init_def) (simp add: sender_new_def)
  ultimately show ?thesis
    using assms by (simp add: session_init_def session_inv_def air_ok_def log_ok_def
        answered_def answered_canceled_def)
qed

lemma link_inv_step:
  assumes "session_inv W M l" "session_step M l l'"
  shows "session_inv W M l'"
proof -
  note inv = link_invD [OF assms(1)]
  have op: "session_op M l l'" "fits (lsend l')" "length (hist l') < 2 ^ 62 - 1"
    using assms(2) by (simp_all add: session_step_def)
  from op(1) show ?thesis
  proof cases
    case (caller t)
    then show ?thesis
      using caller_op_quiet [OF caller(2) inv(1)] caller_op_window [OF caller(2) inv(1,5)] op(2)
        link_inv_quiet [OF assms(1), of t "{}"] by (simp add: silent_def)
  next
    case (process p q)
    then show ?thesis
      using inv by (simp add: session_inv_def sender_side_def air_ok_def receiver_side_def log_ok_def
          slot_ok_def)
  next
    case (cancel_sent sn pkt t)
    then show ?thesis using link_inv_cancel_sent [OF assms(1)] by simp
  next
    case (send p ws notify t)
    then show ?thesis using link_inv_send [OF assms(1) send(2)] op by simp
  next
    case (tick ws t)
    then show ?thesis using link_inv_tick [OF assms(1)] by simp
  next
    case (recv_ack sn ws wk notify t)
    then show ?thesis using link_inv_acks [OF assms(1) _ _ recv_ack(3)] op by simp
  next
    case (recv_canceled sn ws wk notify t)
    then show ?thesis using link_inv_acks [OF assms(1) _ _ recv_canceled(3)] op by simp
  next
    case (recv_data sn p ws r q)
    then show ?thesis using link_inv_recv_data [OF assms(1) recv_data(2,3)] by simp
  next
    case (recv_cancel sn ws r)
    then show ?thesis using link_inv_recv_cancel [OF assms(1) recv_cancel(2,3)] by simp
  qed
qed

interpretation zdpr_link: invariant_system
  "\<lambda>l. session_init W l \<and> 1 \<le> M \<and> M \<le> W \<and> W \<le> 63" "session_step M" "session_inv W M" for W M
  by unfold_locales (auto intro: link_inv_init link_inv_step)

section \<open>End-to-end guarantees\<close>

lemma grows_run:
  assumes "session_inv W M l" "(session_step M)\<^sup>*\<^sup>* l l'"
  shows "air l \<subseteq> air l'"
proof (rule zdpr_link.mono_steps [of "\<lambda>l l'. air l \<subseteq> air l'", OF _ _ assms])
  fix s t u :: "'a session"
  assume "air s \<subseteq> air t" "session_step M t u"
  then show "air s \<subseteq> air u" by (auto simp: session_step_def elim!: session_op.cases)
qed simp

lemma delivered_iff:
  assumes "session_inv W M l"
  shows "(i, p) \<in> set (dlvd l) \<longleftrightarrow>
    i \<in> answered (air l) - answered_canceled (air l) \<and> p = hist l ! i"
  using link_invD(12) [OF assms] by (force simp: log_ok_def)

lemma acknowledged_delivered:
  assumes "session_inv W M l" "Acknowledgement sn \<in> air l"
  shows "(unat sn, hist l ! unat sn) \<in> set (dlvd l)"
  using link_invD(10) [OF assms(1)] assms(2)
  by (auto simp: delivered_iff [OF assms(1)] air_ok_def answered_def answered_canceled_def
      word_unat_eq_iff [symmetric])

lemma process_ack_Some_packet:
  assumes "process_ack sn s = Some (Some p, ws, t)" "sender_inv s"
  shows "\<exists>w lim c f. slot_state s sn = Unacked p w lim c f"
  using assms
  by (cases rule: age_trichotomy [of "last_sent s" sn])
    (auto simp: process_ack_known process_ack_future process_ack_antipode Let_def
      split: unacked_state.splits)

lemma is_cancel_acked_slot:
  assumes "is_cancel_acked s sn = Some True" "sender_inv s"
  shows "slot_state s sn = CancelAcked"
  using assms locate_unacked_Slot(2) [OF _ sender_invD(4) [OF assms(2)]]
  by (auto simp: is_cancel_acked_def elim!: bind_SomeE split: slot.splits unacked_state.splits)

text \<open>Packets in the window are never refused by the receiver.\<close>

lemma spec_process_in_window:
  assumes "session_inv W M l" "slot_state (lsend l) sn \<noteq> Acked"
  shows "spec_process W (unat sn) c (answered (air l), answered_canceled (air l)) =
    (if unat sn \<in> answered (air l)
     then (if unat sn \<in> answered_canceled (air l) then AckCancelDoNotProcess else AckDoNotProcess,
       (answered (air l), answered_canceled (air l)))
     else if c then (AckCancelDoNotProcess,
       (insert (unat sn) (answered (air l)), insert (unat sn) (answered_canceled (air l))))
     else (AckAndProcess, (insert (unat sn) (answered (air l)), answered_canceled (air l))))"
proof -
  note inv = link_invD [OF assms(1)] and pos = slot_position [OF assms]
  have "age (last_sent (lsend l)) sn < length (unacked (lsend l))"
    using assms(2) by (auto simp: slot_state_def view_def split: if_splits)
  moreover have "age (last_sent (lsend l)) sn = length (hist l) - Suc (unat sn)"
    using age_of_nat [of "length (hist l)" "unat sn"] inv(2,8) pos(1) by simp
  ultimately have "\<not> unat sn + W < next_new (answered (air l))"
    using next_new_hist [OF assms(1)] inv(4,6) pos(1) by linarith
  moreover have "\<not> oldest_missing (answered (air l)) + W \<le> unat sn"
    using oldest_missing_window [OF assms(1)] inv(6) pos(1) by linarith
  ultimately show ?thesis by (simp add: spec_process_def)
qed

text \<open>Nothing on the network is too new for the receiver or for the sender.\<close>

lemma not_too_new:
  assumes "session_inv W M l" "unat sn < length (hist l)"
  shows "unat sn < oldest_missing (answered (air l)) + W"
  using oldest_missing_window [OF assms(1)] link_invD(6) [OF assms(1)] assms(2) by linarith

lemma known_age:
  assumes "session_inv W M l" "unat sn < length (hist l)"
  shows "age (last_sent (lsend l)) sn < 2 ^ 63"
proof -
  note inv = link_invD [OF assms(1)]
  have "age (last_sent (lsend l)) sn = length (hist l) - Suc (unat sn)"
    using age_of_nat [of "length (hist l)" "unat sn"] inv(2,8) assms(2) by simp
  then show ?thesis using inv(8) by simp
qed

lemma unblock_loop_returns:
  assumes "blocked s \<noteq> [] \<Longrightarrow> hd (blocked s) \<noteq> Canceled"
  shows "unblock_loop s \<noteq> None"
  using assms
proof (induction "length (blocked s)" arbitrary: s rule: less_induct)
  case less
  show ?case
  proof (cases "unblock_needed s")
    case True
    then obtain p w lim rest where bs: "blocked s = Blocked p w lim # rest" and free: "\<not> is_blocked s"
      using less(2) by (cases "blocked s"; cases "hd (blocked s)")
        (auto simp: unblock_needed_def has_blocked_packets_def)
    then obtain sn ws t where nxt: "enqueue_next_blocked_packet s = Some (sn, p, ws, t)"
      and t: "blocked t = dropWhile (\<lambda>b. b = Canceled) rest"
      by (auto simp: enqueue_next_blocked_packet_def Let_def clean_blocked_queue_eq)
    have "unblock_loop t \<noteq> None"
      using less(1) [OF enqueue_next_blocked_shrinks [OF nxt]] hd_clean_blocked [of rest] t by simp
    then show ?thesis
      using nxt by (subst unblock_loop.simps) (auto split: option.splits)
  next
    case False
    then show ?thesis by (subst unblock_loop.simps) simp
  qed
qed

lemma handle_ack_returns:
  assumes "session_inv W M l" "unat sn < length (hist l)"
  shows "handle_acknowledgement_canceled_common sn c (lsend l) \<noteq> None"
proof -
  note inv = link_invD [OF assms(1)] and age = known_age [OF assms]
  have "\<exists>wk s1. (if c then process_canceled sn (lsend l)
      else map_option snd (process_ack sn (lsend l))) = Some (wk, s1) \<and> sender_inv s1"
    using process_ack_known [OF inv(1) age] process_canceled_known [OF inv(1) age] inv(1,15)
      process_ack_inv [OF _ inv(1), of sn] process_canceled_inv [OF _ inv(1), of sn]
    by (auto simp: count_sender_stat_def Let_def split: unacked_state.splits)
  then obtain wk s1 where s1: "(if c then process_canceled sn (lsend l)
      else map_option snd (process_ack sn (lsend l))) = Some (wk, s1)" "sender_inv s1" by blast
  have "unblock_loop (s1\<lparr>stats := (\<lambda>_. 0)\<rparr>) \<noteq> None"
    using sender_invD(9) [OF s1(2)] by (intro unblock_loop_returns) simp
  then show ?thesis
    using s1(1) by (auto simp: handle_acknowledgement_canceled_common_def count_zdpr_sender_stats_eq
        Let_def bind_None_iff)
qed

end
