(* ===== verification/Zdpr_Guarantees.thy ===== *)
theory Zdpr_Guarantees
  imports Zdpr_Link
begin

text \<open>
  The guarantees of a reliable management link as theorems over the runs of
  \<^const>\<open>session_step\<close>, with the concrete runs that show that their hypotheses can hold.
\<close>

section \<open>Two concrete runs\<close>

text \<open>A packet is sent, delivered and acknowledged.\<close>

definition demo_receiver :: receiver where
  "demo_receiver = \<lparr>rwindow_size = 32, highest_seen = - 1, recvd = - 1, canceled = - 1,
     rstats = (\<lambda>_. 0)\<rparr>"

definition demo_session :: "nat session" where
  "demo_session = \<lparr>lsend = sender_new, lrecv = demo_receiver, inq = [], air = {}, hist = [], dlvd = []\<rparr>"

definition demo_sender :: "nat sender" where
  "demo_sender = snd (enqueue_packet 7 sender_new)"

definition demo_sent :: "nat session" where
  "demo_sent = demo_session\<lparr>lsend := demo_sender, air := {Data 0 7}, hist := [7]\<rparr>"

definition demo_delivered :: "nat session" where
  "demo_delivered = demo_sent\<lparr>
     lrecv := demo_receiver\<lparr>highest_seen := 0, recvd := push_bit 1 (- 1) OR 1, canceled := push_bit 1 (- 1)\<rparr>,
     inq := [7], air := {Data 0 7, Acknowledgement 0}, dlvd := [(0, 7)]\<rparr>"

text \<open>A packet is sent and cancelled, and the cancellation overtakes the packet.\<close>

definition demo_cancel_sender :: "nat sender" where
  "demo_cancel_sender = demo_sender\<lparr>unacked := [CancelRequested Noop False]\<rparr>"

definition demo_cancelled :: "nat session" where
  "demo_cancelled = demo_sent\<lparr>lsend := demo_cancel_sender, air := {Data 0 7, Cancel 0}\<rparr>"

definition demo_refused :: "nat session" where
  "demo_refused = demo_cancelled\<lparr>
     lrecv := demo_receiver\<lparr>highest_seen := 0, recvd := push_bit 1 (- 1) OR 1,
       canceled := push_bit 1 (- 1) OR 1\<rparr>,
     air := {Data 0 7, Cancel 0, CanceledMsg 0}\<rparr>"

definition demo_cancel_acked :: "nat session" where
  "demo_cancel_acked = demo_refused\<lparr>lsend := demo_sender\<lparr>unacked := [CancelAcked]\<rparr>\<rparr>"

lemmas demo_defs = demo_receiver_def demo_session_def demo_sender_def demo_sent_def
  demo_delivered_def demo_cancel_sender_def demo_cancelled_def demo_refused_def
  demo_cancel_acked_def sender_new_def enqueue_packet_def is_blocked_def has_blocked_packets_def
  fits_def

lemma demo_init: "session_init 32 demo_session"
  by (simp add: session_init_def demo_defs receiver_new_def)

lemma leading_ones_full: "leading_ones (- 1) = 64"
proof -
  have "n \<le> 64 \<Longrightarrow> ones_from n (- 1) = n" for n by (induction n) simp_all
  then show ?thesis by (simp add: leading_ones_def)
qed

lemma demo_step_send: "session_step 1 demo_session demo_sent"
proof -
  have "send_mgmt 7 (lsend demo_session) = ([Data 0 7], True, demo_sender)"
    by (simp add: send_mgmt_def retry_needed_def demo_defs)
  from session_op.send [OF this, of 1] show ?thesis
    by (simp add: session_step_def demo_defs)
qed

lemma demo_offset: "wrapping_offset 0 (- 1) = 1"
  by (simp add: wrapping_offset_def)

lemma demo_step_deliver: "session_step 1 demo_sent demo_delivered"
proof -
  have "dispatch_reliable 0 7 (lrecv demo_sent) (inq demo_sent) =
      Some ([Acknowledgement 0], lrecv demo_delivered, [7])"
    by (simp add: dispatch_reliable_def should_process_packet_def process_packet_def
        process_packet_or_cancel_def demo_defs demo_offset oldest_unrecvd_offset_def
        leading_ones_full shl64_def count_zdpr_receiver_stats_eq respond_def
        mgmt_processor_queue_size_def)
  from session_op.recv_data [OF _ this, of 1] show ?thesis
    by (simp add: session_step_def demo_defs insert_commute)
qed

lemma demo_run: "(session_step 1)\<^sup>*\<^sup>* demo_session demo_delivered"
  using demo_step_send demo_step_deliver by (meson converse_rtranclp_into_rtranclp rtranclp.rtrancl_refl)

lemma demo_locate: "locate 0 0 (Suc 0) = Some (Slot 0)"
  by (simp add: locate_def wrapping_offset_def i64_checked_def)

lemma demo_step_cancel: "session_step 1 demo_sent demo_cancelled"
proof -
  have "cancel_sent_packet 0 (lsend demo_sent) = Some (Some 7, demo_cancel_sender)"
    by (simp add: cancel_sent_packet_def demo_defs demo_locate)
  from session_op.cancel_sent [OF this, of 1] show ?thesis
    by (simp add: session_step_def demo_defs insert_commute)
qed

lemma demo_step_refuse: "session_step 1 demo_cancelled demo_refused"
proof -
  have "handle_cancel 0 (lrecv demo_cancelled) = Some ([CanceledMsg 0], lrecv demo_refused)"
    by (simp add: handle_cancel_def process_cancel_def process_packet_or_cancel_def demo_defs
        demo_offset oldest_unrecvd_offset_def leading_ones_full shl64_def
        count_zdpr_receiver_stats_eq respond_def)
  from session_op.recv_cancel [OF _ this, of 1] show ?thesis
    by (simp add: session_step_def demo_defs insert_commute)
qed

lemma demo_step_cancel_ack: "session_step 1 demo_refused demo_cancel_acked"
proof -
  have "handle_acknowledgement_canceled_common 0 True (lsend demo_refused) =
      Some ([], [Noop], False, lsend demo_cancel_acked)"
    by (subst handle_acknowledgement_canceled_common_def, subst unblock_loop.simps)
      (simp add: process_canceled_def lookup_ack_index_def settle_slot_def clean_unacked_queue_def
        clean_sent_queue_def demo_defs demo_locate count_zdpr_sender_stats_eq unblock_needed_def
        retry_needed_def)
  from session_op.recv_canceled [OF _ this, of 1] show ?thesis
    by (simp add: session_step_def demo_defs)
qed

lemma demo_cancel_run: "(session_step 1)\<^sup>*\<^sup>* demo_session demo_cancel_acked"
  using demo_step_send demo_step_cancel demo_step_refuse demo_step_cancel_ack
  by (meson converse_rtranclp_into_rtranclp rtranclp.rtrancl_refl)

section \<open>Delivery\<close>

text \<open>
  C1: Over a network that loses, duplicates, delays and reorders messages, every packet is
  handed to its processor at most once, and what is handed over under a sequence number is the
  packet that was first sent with it.
\<close>

theorem zdpr_delivers_at_most_once:
  assumes "session_init W l\<^sub>0" "1 \<le> M" "M \<le> W" "W \<le> 63" "(session_step M)\<^sup>*\<^sup>* l\<^sub>0 l"
  shows "distinct (map fst (dlvd l)) \<and>
    (\<forall>(i, p) \<in> set (dlvd l). i < length (hist l) \<and> hist l ! i = p)"
proof -
  have inv: "session_inv W M l"
    using assms by (intro zdpr_link.inv_reachable) auto
  note side = link_invD(10,12) [OF inv]
  have "answered (air l) \<subseteq> {..< length (hist l)}" using side(1) by (simp add: air_ok_def)
  then show ?thesis
    using side(2) by (auto simp: log_ok_def delivered_iff [OF inv])
qed

theorem zdpr_delivers_at_most_once_witness:
  "dlvd demo_delivered = [(0, 7)] \<and> distinct (map fst (dlvd demo_delivered)) \<and>
   0 < length (hist demo_delivered) \<and> hist demo_delivered ! 0 = 7"
  using zdpr_delivers_at_most_once [OF demo_init _ _ _ demo_run]
  by (simp add: demo_delivered_def)

text \<open>
  C2: When the sender processes an acknowledgement that arrives on the link and releases the
  packet, that packet has been handed to its processor at the other end.
\<close>

theorem zdpr_acknowledged_was_delivered:
  assumes "session_init W l\<^sub>0" "1 \<le> M" "M \<le> W" "W \<le> 63" "(session_step M)\<^sup>*\<^sup>* l\<^sub>0 l"
    and "Acknowledgement sn \<in> air l" "process_ack sn (lsend l) = Some (Some p, ws, t)"
  shows "(unat sn, p) \<in> set (dlvd l)"
proof -
  have inv: "session_inv W M l"
    using assms by (intro zdpr_link.inv_reachable) auto
  obtain w lim c f where slot: "slot_state (lsend l) sn = Unacked p w lim c f"
    using process_ack_Some_packet [OF assms(7) link_invD(1) [OF inv]] by blast
  then have "hist l ! unat sn = p"
    using slot_position(2) [OF inv, of sn] by (simp add: slot_ok_def)
  then show ?thesis
    using acknowledged_delivered [OF inv assms(6)] by simp
qed

theorem zdpr_acknowledged_was_delivered_witness:
  "\<exists>t. process_ack 0 (lsend demo_delivered) = Some (Some 7, [Noop], t) \<and>
     (unat (0 :: u64), 7) \<in> set (dlvd demo_delivered)"
proof -
  have "process_ack 0 (lsend demo_delivered) = Some (Some 7, [Noop], demo_sender\<lparr>unacked := []\<rparr>)"
    by (simp add: process_ack_def lookup_ack_index_def settle_slot_def clean_unacked_queue_def
        clean_sent_queue_def demo_defs demo_locate)
  moreover have "Acknowledgement 0 \<in> air demo_delivered" by (simp add: demo_delivered_def)
  ultimately show ?thesis
    using zdpr_acknowledged_was_delivered [OF demo_init _ _ _ demo_run] by force
qed

text \<open>
  C3: Once the sender reports a packet as cancelled, the packet has not been handed to its
  processor, and it will not be in any continuation of the session, even though copies of it
  may still be on the network.
\<close>

theorem zdpr_canceled_is_never_delivered:
  assumes "session_init W l\<^sub>0" "1 \<le> M" "M \<le> W" "W \<le> 63" "(session_step M)\<^sup>*\<^sup>* l\<^sub>0 l"
    and "is_cancel_acked (lsend l) sn = Some True" "(session_step M)\<^sup>*\<^sup>* l l'"
  shows "unat sn \<notin> fst ` set (dlvd l')"
proof -
  have inv: "session_inv W M l"
    using assms by (intro zdpr_link.inv_reachable) auto
  have inv': "session_inv W M l'" by (rule zdpr_link.inv_steps [OF inv assms(7)])
  have "slot_state (lsend l) sn = CancelAcked"
    by (rule is_cancel_acked_slot [OF assms(6) link_invD(1) [OF inv]])
  then have "unat sn \<in> answered_canceled (air l)"
    using slot_position(2) [OF inv, of sn] by (simp add: slot_ok_def)
  then have "unat sn \<in> answered_canceled (air l')"
    using grows_run [OF inv assms(7)] by (auto simp: answered_canceled_def)
  then show ?thesis by (auto simp: delivered_iff [OF inv'])
qed

theorem zdpr_canceled_is_never_delivered_witness:
  "is_cancel_acked (lsend demo_cancel_acked) 0 = Some True \<and> Data 0 7 \<in> air demo_cancel_acked \<and>
   unat (0 :: u64) \<notin> fst ` set (dlvd demo_cancel_acked)"
proof -
  have "is_cancel_acked (lsend demo_cancel_acked) 0 = Some True"
    by (simp add: is_cancel_acked_def demo_defs demo_locate)
  moreover have "Data 0 7 \<in> air demo_cancel_acked"
    by (simp add: demo_cancel_acked_def demo_refused_def)
  ultimately show ?thesis
    using zdpr_canceled_is_never_delivered [where sn = 0, OF demo_init _ _ _ demo_cancel_run _ rtranclp.rtrancl_refl]
    by simp
qed



section \<open>No panic, no peer error\<close>

text \<open>
  C5: No message that two endpoints of this code exchange makes a handler panic: not a data
  packet, not a cancellation request, not an acknowledgement, whenever and however often it
  arrives.
\<close>

theorem zdpr_handlers_never_panic:
  assumes "session_init W l\<^sub>0" "1 \<le> M" "M \<le> W" "W \<le> 63" "(session_step M)\<^sup>*\<^sup>* l\<^sub>0 l" "msg \<in> air l"
  shows "case msg of
      Data sn p \<Rightarrow> dispatch_reliable sn p (lrecv l) (inq l) \<noteq> None
    | Cancel sn \<Rightarrow> (handle_cancel sn (lrecv l) :: ('p wire list \<times> receiver) option) \<noteq> None
    | Acknowledgement sn \<Rightarrow> handle_acknowledgement_canceled_common sn False (lsend l) \<noteq> None
    | CanceledMsg sn \<Rightarrow> handle_acknowledgement_canceled_common sn True (lsend l) \<noteq> None"
proof -
  have inv: "session_inv W M l"
    using assms by (intro zdpr_link.inv_reachable) auto
  note air = link_invD(10) [OF inv]
  have recv: "process_packet_or_cancel sn c (lrecv l) \<noteq> None" if "unat sn < length (hist l)" for sn c
    using process_answer [OF inv that] by (metis option.distinct(1))
  have lt: "unat sn < length (hist l)" if "msg = Data sn p \<or> msg = Cancel sn \<or>
      msg = Acknowledgement sn \<or> msg = CanceledMsg sn" for sn p
    using that air assms(6) by (auto simp: air_ok_def answered_def)
  show ?thesis
  proof (cases msg)
    case (Data sn p)
    then obtain d r where "process_packet sn (lrecv l) = Some (d, r)"
      using recv [of sn False] lt by (auto simp: process_packet_def)
    then show ?thesis
      using Data should_process_packet_eq [of sn "lrecv l" d r] by (simp add: dispatch_reliable_def)
  next
    case (Cancel sn)
    then show ?thesis
      using recv [of sn True] lt by (auto simp: handle_cancel_def process_cancel_def bind_None_iff)
  qed (use handle_ack_returns [OF inv] lt in auto)
qed

theorem zdpr_handlers_never_panic_witness:
  "Acknowledgement 0 \<in> air demo_delivered \<and>
   handle_acknowledgement_canceled_common 0 False (lsend demo_delivered) \<noteq> None"
proof -
  have "Acknowledgement 0 \<in> air demo_delivered" by (simp add: demo_delivered_def)
  then show ?thesis
    using zdpr_handlers_never_panic [OF demo_init _ _ _ demo_run, of "Acknowledgement 0"] by simp
qed

text \<open>
  C25: Neither endpoint ever counts a peer error for a message that is too new.  The receiver
  never sees a sequence number beyond its window and the sender never sees an acknowledgement
  of a packet it has not sent, provided the sender's window is at most the receiver's.
\<close>

theorem zdpr_never_too_new:
  assumes "session_init W l\<^sub>0" "1 \<le> M" "M \<le> W" "W \<le> 63" "(session_step M)\<^sup>*\<^sup>* l\<^sub>0 l"
  shows "(\<forall>sn p d r. Data sn p \<in> air l \<and> process_packet sn (lrecv l) = Some (d, r) \<longrightarrow>
      rstats r TooNew = 0) \<and>
    (\<forall>sn d r. Cancel sn \<in> air l \<and> process_cancel sn (lrecv l) = Some (d, r) \<longrightarrow>
      rstats r TooNew = 0) \<and>
    (\<forall>sn p ws t. Acknowledgement sn \<in> air l \<and> process_ack sn (lsend l) = Some (p, ws, t) \<longrightarrow>
      stats t TooNewAck = 0) \<and>
    (\<forall>sn ws t. CanceledMsg sn \<in> air l \<and> process_canceled sn (lsend l) = Some (ws, t) \<longrightarrow>
      stats t TooNewAck = 0)"
proof -
  have inv: "session_inv W M l"
    using assms by (intro zdpr_link.inv_reachable) auto
  note side = link_invD [OF inv]
  have lt: "\<And>sn p. Data sn p \<in> air l \<Longrightarrow> unat sn < length (hist l)"
    "\<And>sn. Cancel sn \<in> air l \<Longrightarrow> unat sn < length (hist l)"
    "\<And>sn. Acknowledgement sn \<in> air l \<Longrightarrow> unat sn < length (hist l)"
    "\<And>sn. CanceledMsg sn \<in> air l \<Longrightarrow> unat sn < length (hist l)"
    using side(10) by (auto simp: air_ok_def answered_def)
  have recv: "rstats r TooNew = 0"
    if "unat sn < length (hist l)" "process_packet_or_cancel sn c (lrecv l) = Some (d, r)" for sn c d r
    using too_new_not_counted [of "lrecv l" _ _ "unat sn" c d r] not_too_new [OF inv that(1)] that
      side(8,11) by (auto simp: receiver_side_def)
  have sends: "stats t TooNewAck = 0"
    if "unat sn < length (hist l)"
      "process_ack sn (lsend l) = Some (p, ws, t) \<or> process_canceled sn (lsend l) = Some (ws, t)"
    for sn p ws t
    using that(2) process_ack_known [OF side(1) known_age [OF inv that(1)]] side(15)
      process_canceled_known [OF side(1) known_age [OF inv that(1)]]
    by (auto simp: Let_def dest!: count_sender_stat_fields split: unacked_state.splits)
  show ?thesis
    unfolding process_packet_def process_cancel_def using lt recv sends by blast
qed

theorem zdpr_never_too_new_witness:
  "Data 0 7 \<in> air demo_delivered \<and>
   (\<exists>d r. process_packet 0 (lrecv demo_delivered) = Some (d, r) \<and> rstats r TooNew = 0)"
proof -
  have data: "Data 0 7 \<in> air demo_delivered" by (simp add: demo_delivered_def)
  have inv: "session_inv 32 1 demo_delivered"
    using demo_init demo_run by (intro zdpr_link.inv_reachable) auto
  have "unat (0 :: u64) < length (hist demo_delivered)" by (simp add: demo_defs)
  then obtain d r where "process_packet 0 (lrecv demo_delivered) = Some (d, r)"
    unfolding process_packet_def using process_answer [OF inv] by metis
  then show ?thesis
    using zdpr_never_too_new [OF demo_init _ _ _ demo_run] data by auto
qed

section \<open>Order with a window of one\<close>

text \<open>
  Until the peers have exchanged their window sizes, the sender's window is 1, and then
  delivery is in order: everything before the newest packet is answered.
\<close>

definition in_order :: "'p session \<Rightarrow> bool" where
  "in_order l \<longleftrightarrow> sorted_wrt (<) (map fst (dlvd l))"

lemma dlvd_unless_data:
  assumes "session_op M l l'"
  shows "dlvd l' = dlvd l \<or> (\<exists>sn p. Data sn p \<in> air l \<and> dlvd l' = dlvd l @ [(unat sn, p)])"
  using assms by cases auto

lemma in_order_step:
  assumes "session_inv W 1 l" "session_inv W 1 l'" "in_order l" "session_step 1 l l'"
  shows "in_order l'"
proof -
  have "session_op 1 l l'" using assms(4) by (simp add: session_step_def)
  then consider "dlvd l' = dlvd l"
    | sn p where "Data sn p \<in> air l" "dlvd l' = dlvd l @ [(unat sn, p)]"
    using dlvd_unless_data by blast
  then show ?thesis
  proof cases
    case 1
    then show ?thesis using assms(3) by (simp add: in_order_def)
  next
    case 2
    note inv = link_invD [OF assms(1)]
    have less: "i < unat sn" if "i \<in> set (map fst (dlvd l))" for i
    proof -
      have "i \<noteq> unat sn"
        using link_invD(12) [OF assms(2)] 2(2) that by (force simp: log_ok_def)
      moreover have "i < length (hist l)"
        using that inv(10,12) by (auto simp: log_ok_def air_ok_def)
      moreover have "\<not> unat sn + 1 < length (hist l)"
      proof
        assume "unat sn + 1 < length (hist l)"
        then have "unat sn \<in> answered (air l)"
          using inv(4) by (intro below_window_answered [OF assms(1)]) simp
        moreover have "unat sn \<notin> answered_canceled (air l)"
          using link_invD(12) [OF assms(2)] 2(2) assms(4) assms(1)
            grows_run [OF assms(1), of l'] by (auto simp: log_ok_def answered_canceled_def)
        ultimately have "unat sn \<in> set (map fst (dlvd l))" using inv(12) by (simp add: log_ok_def)
        then show False
          using link_invD(12) [OF assms(2)] 2(2) by (auto simp: log_ok_def)
      qed
      ultimately show ?thesis by simp
    qed
    then show ?thesis
      using assms(3) 2(2) by (auto simp: in_order_def sorted_wrt_append)
  qed
qed

interpretation zdpr_serial: invariant_system
  "\<lambda>l. session_init W l \<and> 1 \<le> W \<and> W \<le> 63" "session_step 1" "\<lambda>l. session_inv W 1 l \<and> in_order l" for W
proof
  fix s :: "'a session"
  assume "session_init W s \<and> 1 \<le> W \<and> W \<le> 63"
  then show "session_inv W 1 s \<and> in_order s"
    using link_inv_init [of W s 1] by (auto simp: in_order_def session_init_def)
next
  fix s t :: "'a session"
  assume "session_inv W 1 s \<and> in_order s" "session_step 1 s t"
  then show "session_inv W 1 t \<and> in_order t"
    using link_inv_step in_order_step by blast
qed

text \<open>
  C26: As long as the sender's window is 1, packets are handed to their processor in the order
  in which they were sent.
\<close>

theorem zdpr_window_one_is_in_order:
  assumes "session_init W l\<^sub>0" "1 \<le> W" "W \<le> 63" "(session_step 1)\<^sup>*\<^sup>* l\<^sub>0 l"
  shows "sorted_wrt (<) (map fst (dlvd l))"
  using zdpr_serial.inv_reachable [of W l\<^sub>0 l] assms by (simp add: in_order_def)

theorem zdpr_window_one_is_in_order_witness:
  "dlvd demo_delivered = [(0, 7)] \<and> sorted_wrt (<) (map fst (dlvd demo_delivered))"
  using zdpr_window_one_is_in_order [OF demo_init _ _ demo_run] by (simp add: demo_delivered_def)

end
