(* ===== verification/Byte_Codec.thy ===== *)
theory Byte_Codec
  imports Prelude
begin

text \<open>
  Byte strings as the code handles them: big- and little-endian integers, sub-slices and
  writes into a buffer, and the contract of a readable buffer (the \<open>Buf\<close> interface that
  packets implement and that the parsers read from).
\<close>

section \<open>Integers\<close>

primrec to_be :: "nat \<Rightarrow> nat \<Rightarrow> bytes" where
  "to_be 0 n = []"
| "to_be (Suc k) n = to_be k (n div 256) @ [of_nat n]"

definition of_be :: "bytes \<Rightarrow> nat" where
  "of_be bs = foldl (\<lambda>a b. a * 256 + unat b) 0 bs"

definition to_le :: "nat \<Rightarrow> nat \<Rightarrow> bytes" where
  "to_le k n = rev (to_be k n)"

definition of_le :: "bytes \<Rightarrow> nat" where
  "of_le bs = of_be (rev bs)"

lemma length_to_be [simp]: "length (to_be k n) = k"
  by (induction k arbitrary: n) simp_all

lemma length_to_le [simp]: "length (to_le k n) = k"
  by (simp add: to_le_def)

lemma of_be_Nil [simp]: "of_be [] = 0"
  by (simp add: of_be_def)

lemma of_be_snoc [simp]: "of_be (bs @ [b]) = of_be bs * 256 + unat b"
  by (simp add: of_be_def)

lemma unat_of_nat_u8: "unat (of_nat n :: u8) = n mod 256"
  by (simp add: unat_of_nat)

lemma of_be_to_be [codec_simps]: "of_be (to_be k n) = n mod 256 ^ k"
proof (induction k arbitrary: n)
  case (Suc k)
  then show ?case
    by (simp add: unat_of_nat_u8 mod_mult2_eq mult.commute)
qed simp

lemma to_be_of_be: "to_be (length bs) (of_be bs) = bs"
proof (induction bs rule: rev_induct)
  case (snoc b bs)
  have lt: "unat b < 256" by (rule unat_u8_less)
  then have "unat (of_nat (of_be bs * 256 + unat b) :: u8) = unat b"
    unfolding unat_of_nat_u8 by simp
  then have "of_nat (of_be bs * 256 + unat b) = b" by (simp only: word_unat_eq_iff)
  then show ?case using snoc lt by (simp del: of_nat_add of_nat_mult)
qed simp

lemma of_be_less: "of_be bs < 256 ^ length bs"
proof (induction bs rule: rev_induct)
  case (snoc b bs)
  have "unat b < 256" by (rule unat_u8_less)
  then show ?case using snoc by simp
qed simp

lemma of_le_to_le [codec_simps]: "of_le (to_le k n) = n mod 256 ^ k"
  by (simp add: of_le_def to_le_def of_be_to_be)

lemma to_le_of_le: "to_le (length bs) (of_le bs) = bs"
  using to_be_of_be [of "rev bs"] by (simp add: of_le_def to_le_def)

lemma of_le_less: "of_le bs < 256 ^ length bs"
  using of_be_less [of "rev bs"] by (simp add: of_le_def)

text \<open>Fixed widths.\<close>

definition be16 :: "u16 \<Rightarrow> bytes" where "be16 w = to_be 2 (unat w)"
definition be32 :: "u32 \<Rightarrow> bytes" where "be32 w = to_be 4 (unat w)"
definition be64 :: "u64 \<Rightarrow> bytes" where "be64 w = to_be 8 (unat w)"

definition get16 :: "bytes \<Rightarrow> u16" where "get16 bs = of_nat (of_be (take 2 bs))"
definition get32 :: "bytes \<Rightarrow> u32" where "get32 bs = of_nat (of_be (take 4 bs))"
definition get64 :: "bytes \<Rightarrow> u64" where "get64 bs = of_nat (of_be (take 8 bs))"

lemma length_be [simp]: "length (be16 w) = 2" "length (be32 x) = 4" "length (be64 y) = 8"
  by (simp_all add: be16_def be32_def be64_def)

lemma unat_u16_less: "unat (w :: u16) < 65536"
  using uint_lt2p [of w] by (simp add: uint_nat del: of_nat_unat)

lemma unat_u32_less: "unat (w :: u32) < 4294967296"
  using uint_lt2p [of w] by (simp add: uint_nat del: of_nat_unat)

lemma get_be [codec_simps]:
  "get16 (be16 w @ bs) = w" "get32 (be32 x @ bs) = x" "get64 (be64 y @ bs) = y"
  using unat_u16_less [of w] unat_u32_less [of x] unat_u64_less [of y]
  by (simp_all add: get16_def get32_def get64_def be16_def be32_def be64_def of_be_to_be)

lemma get_be_self [codec_simps]: "get16 (be16 w) = w" "get32 (be32 x) = x" "get64 (be64 y) = y"
  using get_be(1) [of w "[]"] get_be(2) [of x "[]"] get_be(3) [of y "[]"] by simp_all

lemma be16_get16: "length bs \<ge> 2 \<Longrightarrow> be16 (get16 bs) = take 2 bs"
proof -
  assume "length bs \<ge> 2"
  then have len: "length (take 2 bs) = 2" by simp
  then have "of_be (take 2 bs) < 65536"
    using of_be_less [of "take 2 bs"] by simp
  then show ?thesis
    using to_be_of_be [of "take 2 bs"] len by (simp add: be16_def get16_def unat_of_nat)
qed

text \<open>The bytes of a 16-bit number, for evaluation.\<close>

lemma be16_bytes: "be16 w = [of_nat (unat w div 256), of_nat (unat w)]"
  by (simp add: be16_def numeral_2_eq_2)

section \<open>Slices\<close>

text \<open>\<open>&xs[a..b]\<close>, which panics unless \<open>a \<le> b \<le> xs.len()\<close>.\<close>

definition slice :: "nat \<Rightarrow> nat \<Rightarrow> 'a list \<Rightarrow> 'a list option" where
  "slice a b xs = (if a \<le> b \<and> b \<le> length xs then Some (take (b - a) (drop a xs)) else None)"

lemma split_at:
  assumes "n \<le> length xs"
  obtains a b where "xs = a @ b" "length a = n"
  using assms append_take_drop_id [of n xs, symmetric] by (metis length_take min.absorb2)

text \<open>Overwrite the elements from position \<open>off\<close> on.\<close>

definition put_at :: "nat \<Rightarrow> 'a list \<Rightarrow> 'a list \<Rightarrow> 'a list" where
  "put_at off ys xs = take off xs @ ys @ drop (off + length ys) xs"

lemma length_put_at [simp]: "off + length ys \<le> length xs \<Longrightarrow> length (put_at off ys xs) = length xs"
  by (simp add: put_at_def)

lemma take_put_at: "n \<le> off \<Longrightarrow> off \<le> length xs \<Longrightarrow> take n (put_at off ys xs) = take n xs"
  by (simp add: put_at_def min_def)

lemma drop_put_at: "off + length ys \<le> n \<Longrightarrow> off + length ys \<le> length xs \<Longrightarrow>
    drop n (put_at off ys xs) = drop n xs"
  by (simp add: put_at_def min_def)

lemma get_put_at: "off + length ys \<le> length xs \<Longrightarrow>
    take (length ys) (drop off (put_at off ys xs)) = ys"
  by (simp add: put_at_def min_def)

lemma get_put_at_disjoint:
  assumes "off + length ys \<le> length xs" "a + n \<le> off \<or> off + length ys \<le> a"
  shows "take n (drop a (put_at off ys xs)) = take n (drop a xs)"
proof (cases "a + n \<le> off")
  case True
  then have "take n (drop a (put_at off ys xs)) = drop a (take (a + n) (put_at off ys xs))"
    by (simp add: take_drop add.commute)
  also have "\<dots> = drop a (take (a + n) xs)" using True assms(1) by (simp add: take_put_at)
  finally show ?thesis by (simp add: take_drop add.commute)
next
  case False
  then show ?thesis using assms by (simp add: drop_put_at)
qed

section \<open>Readable buffers\<close>

text \<open>
  The contract of \<open>Buf\<close>: what is left to read is a string of bytes, \<open>remaining\<close> is
  its length, \<open>chunk\<close> shows a prefix of it that is empty only at the end, and
  \<open>advance\<close> consumes a prefix and panics beyond the end.
\<close>

locale readable =
  fixes contents :: "'s \<Rightarrow> bytes"
    and valid :: "'s \<Rightarrow> bool"
    and remaining :: "'s \<Rightarrow> nat"
    and chunk :: "'s \<Rightarrow> bytes"
    and advance :: "nat \<Rightarrow> 's \<Rightarrow> 's option"
  assumes remaining_contents: "valid s \<Longrightarrow> remaining s = length (contents s)"
    and chunk_prefix: "valid s \<Longrightarrow> \<exists>rest. contents s = chunk s @ rest"
    and chunk_progress: "valid s \<Longrightarrow> contents s \<noteq> [] \<Longrightarrow> chunk s \<noteq> []"
    and advance_contents: "valid s \<Longrightarrow> n \<le> remaining s \<Longrightarrow>
      \<exists>t. advance n s = Some t \<and> valid t \<and> contents t = drop n (contents s)"
    and advance_panics: "valid s \<Longrightarrow> remaining s < n \<Longrightarrow> advance n s = None"
begin

lemma chunk_take: "valid s \<Longrightarrow> n \<le> length (chunk s) \<Longrightarrow> take n (chunk s) = take n (contents s)"
  using chunk_prefix [of s] by auto

lemma advance_SomeD:
  assumes "advance n s = Some t" "valid s"
  shows "valid t \<and> contents t = drop n (contents s) \<and> n \<le> length (contents s)"
  using assms advance_contents [OF assms(2), of n] advance_panics [OF assms(2), of n]
    remaining_contents [OF assms(2)] by (cases "n \<le> remaining s") auto

text \<open>Two reads in a row consume what one read of both lengths consumes.\<close>

lemma advance_advance:
  assumes "advance m s = Some t" "advance n t = Some u" "valid s"
  shows "\<exists>v. advance (m + n) s = Some v \<and> contents v = contents u"
proof -
  note t = advance_SomeD [OF assms(1,3)]
  then have u: "contents u = drop n (contents t)" "n \<le> length (contents t)"
    using advance_SomeD [OF assms(2)] by auto
  then have "m + n \<le> remaining s" using t remaining_contents [OF assms(3)] by auto
  then show ?thesis
    using advance_contents [OF assms(3), of "m + n"] t u by (auto simp: add.commute)
qed

end

text \<open>A plain byte string is such a buffer, as \<open>&[u8]\<close> is.\<close>

definition advance_bytes :: "nat \<Rightarrow> bytes \<Rightarrow> bytes option" where
  "advance_bytes n bs = (if n \<le> length bs then Some (drop n bs) else None)"

interpretation byte_string: readable "\<lambda>bs. bs" "\<lambda>_. True" length "\<lambda>bs. bs" advance_bytes
  by unfold_locales (simp_all add: advance_bytes_def)

end
