(* ===== verification/Packet.thy ===== *)
theory Packet
  imports Byte_Codec
begin

text \<open>
  Packet buffers (\<open>adapter/ph/src/packet.rs\<close> and the 5-tuple of \<open>defs.rs\<close>): one
  allocation that holds 80 bytes of metadata, headroom, the packet body and tailroom.  The
  metadata is the record it is in the source, with its byte layout on a 64-bit
  little-endian machine; \<open>space\<close> is the rest of the buffer.
\<close>

section \<open>Metadata\<close>

record five_tuple =
  src_address :: bytes
  dst_address :: bytes
  l3_type :: u8
  l4_protocol :: u8
  src_port :: u16
  dst_port :: u16

definition five_tuple_reverse :: "five_tuple \<Rightarrow> five_tuple" where
  "five_tuple_reverse t = \<lparr>src_address = dst_address t, dst_address = src_address t,
     l3_type = l3_type t, l4_protocol = l4_protocol t,
     src_port = dst_port t, dst_port = src_port t\<rparr>"

record metadata =
  moffset :: nat
  mlen :: nat
  mtuple :: five_tuple
  ingress_lane_id :: u8
  pkt_flags :: u8
  mpadding :: bytes
  ingress_link_id :: u32
  egress_link_id :: u32
  ingress_stream_id :: u32
  seq_num :: u64

definition le_at :: "nat \<Rightarrow> nat \<Rightarrow> bytes \<Rightarrow> nat" where
  "le_at off n b = of_le (take n (drop off b))"

definition tuple_bytes :: "five_tuple \<Rightarrow> bytes" where
  "tuple_bytes t = src_address t @ dst_address t @ [l3_type t, l4_protocol t] @
     to_le 2 (unat (src_port t)) @ to_le 2 (unat (dst_port t))"

definition metadata_bytes :: "metadata \<Rightarrow> bytes" where
  "metadata_bytes m = to_le 8 (moffset m) @ to_le 8 (mlen m) @ tuple_bytes (mtuple m) @
     [ingress_lane_id m, pkt_flags m] @ mpadding m @ to_le 4 (unat (ingress_link_id m)) @
     to_le 4 (unat (egress_link_id m)) @ to_le 4 (unat (ingress_stream_id m)) @
     to_le 8 (unat (seq_num m))"

definition tuple_of_bytes :: "bytes \<Rightarrow> five_tuple" where
  "tuple_of_bytes b = \<lparr>src_address = take 16 b, dst_address = take 16 (drop 16 b),
     l3_type = b ! 32, l4_protocol = b ! 33,
     src_port = of_nat (le_at 34 2 b), dst_port = of_nat (le_at 36 2 b)\<rparr>"

definition metadata_of_bytes :: "bytes \<Rightarrow> metadata" where
  "metadata_of_bytes b = \<lparr>moffset = le_at 0 8 b, mlen = le_at 8 8 b,
     mtuple = tuple_of_bytes (drop 16 b), ingress_lane_id = b ! 54, pkt_flags = b ! 55,
     mpadding = take 4 (drop 56 b), ingress_link_id = of_nat (le_at 60 4 b),
     egress_link_id = of_nat (le_at 64 4 b), ingress_stream_id = of_nat (le_at 68 4 b),
     seq_num = of_nat (le_at 72 8 b)\<rparr>"

text \<open>Field sizes: an address has 16 bytes and \<open>usize\<close> has 8.\<close>

definition wf_metadata :: "metadata \<Rightarrow> bool" where
  "wf_metadata m \<longleftrightarrow> length (src_address (mtuple m)) = 16 \<and> length (dst_address (mtuple m)) = 16 \<and>
     length (mpadding m) = 4 \<and> moffset m < 2 ^ 64 \<and> mlen m < 2 ^ 64"

section \<open>Packets\<close>

record packet =
  md :: metadata
  space :: bytes

definition min_body_offset :: nat where
  "min_body_offset = 80"

definition buffer :: "packet \<Rightarrow> bytes" where
  "buffer p = metadata_bytes (md p) @ space p"

definition buf_len :: "packet \<Rightarrow> nat" where
  "buf_len p = min_body_offset + length (space p)"

definition set_extent :: "nat \<Rightarrow> nat \<Rightarrow> packet \<Rightarrow> packet" where
  "set_extent off len p = p\<lparr>md := (md p)\<lparr>moffset := off, mlen := len\<rparr>\<rparr>"

definition max_body_size_for :: "nat \<Rightarrow> nat option" where
  "max_body_size_for n = (if n \<ge> min_body_offset then Some (n - min_body_offset) else None)"

text \<open>A buffer read as a packet; slicing off the metadata panics on a shorter buffer.\<close>

definition packet_of_buffer :: "bytes \<Rightarrow> packet option" where
  "packet_of_buffer b = (if length b \<ge> min_body_offset
     then Some \<lparr>md = metadata_of_bytes (take min_body_offset b), space = drop min_body_offset b\<rparr>
     else None)"

definition new_with_existing_data :: "bytes \<Rightarrow> nat \<Rightarrow> nat \<Rightarrow> packet option" where
  "new_with_existing_data b offset len = do {
     ensure (offset \<ge> min_body_offset);
     ensure (len \<le> length b);
     ensure (offset \<le> length b - len);
     p \<leftarrow> packet_of_buffer b;
     Some (p\<lparr>md := (md p)\<lparr>moffset := offset, mlen := len, ingress_link_id := 0,
       ingress_stream_id := 0\<rparr>\<rparr>)
   }"

definition packet_new :: "bytes \<Rightarrow> nat \<Rightarrow> packet option" where
  "packet_new b headroom = do {
     ensure (length b \<ge> min_body_offset);
     new_with_existing_data b (min_body_offset + headroom) 0
   }"

definition metadata_is_valid :: "packet \<Rightarrow> bool" where
  "metadata_is_valid p \<longleftrightarrow> moffset (md p) \<ge> min_body_offset \<and> mlen (md p) \<le> buf_len p \<and>
     moffset (md p) \<le> buf_len p - mlen (md p)"

text \<open>\<open>None\<close> is the panic on a buffer without room for metadata.\<close>

definition try_new_with_existing_metadata :: "bytes \<Rightarrow> (bytes + packet) option" where
  "try_new_with_existing_metadata b = do {
     p \<leftarrow> packet_of_buffer b;
     Some (if metadata_is_valid p then Inr p else Inl (buffer p))
   }"

definition new_with_existing_metadata :: "bytes \<Rightarrow> packet option" where
  "new_with_existing_metadata b = do {
     r \<leftarrow> try_new_with_existing_metadata b;
     case r of Inr p \<Rightarrow> Some p | Inl _ \<Rightarrow> None
   }"

definition body :: "packet \<Rightarrow> bytes option" where
  "body p = slice (moffset (md p)) (moffset (md p) + mlen (md p)) (buffer p)"

definition headroom_available :: "packet \<Rightarrow> nat option" where
  "headroom_available p = (if moffset (md p) \<ge> min_body_offset
     then Some (moffset (md p) - min_body_offset) else None)"

definition tailroom_available :: "packet \<Rightarrow> nat option" where
  "tailroom_available p = (if moffset (md p) + mlen (md p) \<le> buf_len p
     then Some (buf_len p - (moffset (md p) + mlen (md p))) else None)"

text \<open>Write into the buffer; every write of the code lies behind the metadata.\<close>

definition write_space :: "nat \<Rightarrow> bytes \<Rightarrow> packet \<Rightarrow> packet option" where
  "write_space off bs p = (if min_body_offset \<le> off \<and> off + length bs \<le> buf_len p
     then Some (p\<lparr>space := put_at (off - min_body_offset) bs (space p)\<rparr>) else None)"

definition serialize :: "nat \<Rightarrow> packet \<Rightarrow> (unit + bytes) option" where
  "serialize room p = (if min_body_offset + mlen (md p) > room then Some (Inl ())
     else do { b \<leftarrow> body p; Some (Inr (metadata_bytes (md p) @ b)) })"

datatype deserialize_error = InvalidSerialization bytes | BufferTooSmall bytes

definition deserialize_into :: "bytes \<Rightarrow> bytes \<Rightarrow> (deserialize_error + packet) option" where
  "deserialize_into src b =
     (if length src < min_body_offset then Some (Inl (InvalidSerialization b))
      else if length b < min_body_offset then Some (Inl (BufferTooSmall b))
      else do {
        r \<leftarrow> try_new_with_existing_metadata (put_at 0 (take min_body_offset src) b);
        case r of
          Inl b1 \<Rightarrow> Some (Inl (BufferTooSmall b1))
        | Inr p \<Rightarrow>
            if length src - min_body_offset < mlen (md p)
            then Some (Inl (InvalidSerialization (buffer p)))
            else do {
              q \<leftarrow> write_space (moffset (md p)) (take (mlen (md p)) (drop min_body_offset src)) p;
              Some (Inr q)
            }
      })"

definition clone_prefix_into_with_headroom :: "bytes \<Rightarrow> nat \<Rightarrow> nat \<Rightarrow> packet \<Rightarrow> packet option" where
  "clone_prefix_into_with_headroom b headroom len p = do {
     bd \<leftarrow> body p;
     ensure (len \<le> length bd);
     ensure (len + min_body_offset \<le> length b);
     ensure (headroom \<le> length b - len - min_body_offset);
     let offset = min_body_offset + headroom;
     ensure (len = length bd);
     q \<leftarrow> packet_of_buffer (put_at offset bd (put_at 0 (metadata_bytes (md p)) b));
     Some (set_extent offset len q)
   }"

definition clone_into :: "bytes \<Rightarrow> packet \<Rightarrow> packet option" where
  "clone_into b p = do {
     h \<leftarrow> headroom_available p;
     bd \<leftarrow> body p;
     clone_prefix_into_with_headroom b h (length bd) p
   }"

definition clone_prefix_into :: "bytes \<Rightarrow> nat \<Rightarrow> packet \<Rightarrow> packet option" where
  "clone_prefix_into b len p = do {
     h \<leftarrow> headroom_available p;
     clone_prefix_into_with_headroom b h len p
   }"

definition clone_into_with_headroom :: "bytes \<Rightarrow> nat \<Rightarrow> packet \<Rightarrow> packet option" where
  "clone_into_with_headroom b headroom p = do {
     bd \<leftarrow> body p;
     clone_prefix_into_with_headroom b headroom (length bd) p
   }"

section \<open>Growing and shrinking the body\<close>

definition body_and_tailroom :: "packet \<Rightarrow> (bytes \<times> bytes) option" where
  "body_and_tailroom p = do {
     ensure (moffset (md p) + mlen (md p) \<le> buf_len p);
     bd \<leftarrow> body p;
     Some (bd, drop (moffset (md p) + mlen (md p)) (buffer p))
   }"

definition set_body_extent :: "nat \<Rightarrow> nat \<Rightarrow> packet \<Rightarrow> packet option" where
  "set_body_extent offset len p = do {
     ensure (offset \<ge> min_body_offset);
     ensure (len \<le> buf_len p);
     ensure (offset \<le> buf_len p - len);
     Some (set_extent offset len p)
   }"

definition adopt_tailroom_with_header :: "nat \<Rightarrow> nat \<Rightarrow> packet \<Rightarrow> packet option" where
  "adopt_tailroom_with_header header_len written p = do {
     ensure (header_len \<le> mlen (md p));
     tail \<leftarrow> tailroom_available p;
     ensure (written \<le> tail);
     let output_offset = moffset (md p) + mlen (md p);
     let new_offset = output_offset - header_len;
     hdr \<leftarrow> slice (moffset (md p)) (moffset (md p) + header_len) (buffer p);
     q \<leftarrow> write_space new_offset hdr p;
     set_body_extent new_offset (header_len + written) q
   }"

definition push_header :: "bytes \<Rightarrow> packet \<Rightarrow> packet option" where
  "push_header hdr p = do {
     h \<leftarrow> headroom_available p;
     ensure (length hdr \<le> h);
     let q = set_extent (moffset (md p) - length hdr) (mlen (md p) + length hdr) p;
     write_space (moffset (md q)) hdr q
   }"

definition alloc_zeroed_headroom :: "nat \<Rightarrow> packet \<Rightarrow> packet option" where
  "alloc_zeroed_headroom cnt p = do {
     h \<leftarrow> headroom_available p;
     ensure (cnt \<le> h);
     let q = set_extent (moffset (md p) - cnt) (mlen (md p) + cnt) p;
     write_space (moffset (md q)) (replicate cnt 0) q
   }"

definition push_u8 :: "u8 \<Rightarrow> packet \<Rightarrow> packet option" where "push_u8 d = push_header [d]"
definition push_u16 :: "u16 \<Rightarrow> packet \<Rightarrow> packet option" where "push_u16 d = push_header (be16 d)"
definition push_u32 :: "u32 \<Rightarrow> packet \<Rightarrow> packet option" where "push_u32 d = push_header (be32 d)"
definition push_u64 :: "u64 \<Rightarrow> packet \<Rightarrow> packet option" where "push_u64 d = push_header (be64 d)"

definition shrink_by :: "nat \<Rightarrow> packet \<Rightarrow> packet option" where
  "shrink_by cnt p = do {
     ensure (cnt \<le> mlen (md p));
     Some (set_extent (moffset (md p)) (mlen (md p) - cnt) p)
   }"

text \<open>The \<open>Buf\<close> and \<open>BufMut\<close> implementations.\<close>

definition remaining :: "packet \<Rightarrow> nat" where
  "remaining p = mlen (md p)"

definition advance :: "nat \<Rightarrow> packet \<Rightarrow> packet option" where
  "advance cnt p = do {
     ensure (cnt \<le> remaining p);
     Some (set_extent (moffset (md p) + cnt) (mlen (md p) - cnt) p)
   }"

definition remaining_mut :: "packet \<Rightarrow> nat option" where
  "remaining_mut p = tailroom_available p"

definition advance_mut :: "nat \<Rightarrow> packet \<Rightarrow> packet option" where
  "advance_mut cnt p = do {
     room \<leftarrow> remaining_mut p;
     ensure (cnt \<le> room);
     Some (set_extent (moffset (md p)) (mlen (md p) + cnt) p)
   }"

text \<open>Writing at \<open>chunk_mut\<close> and then advancing, which is how bytes are appended.\<close>

definition append_bytes :: "bytes \<Rightarrow> packet \<Rightarrow> packet option" where
  "append_bytes bs p = do {
     q \<leftarrow> write_space (moffset (md p) + mlen (md p)) bs p;
     advance_mut (length bs) q
   }"

definition metadata_eq :: "metadata \<Rightarrow> metadata \<Rightarrow> bool" where
  "metadata_eq a b \<longleftrightarrow> moffset a = moffset b \<and> mlen a = mlen b \<and> mtuple a = mtuple b \<and>
     ingress_lane_id a = ingress_lane_id b \<and> pkt_flags a = pkt_flags b \<and>
     ingress_link_id a = ingress_link_id b \<and> egress_link_id a = egress_link_id b \<and>
     ingress_stream_id a = ingress_stream_id b"

definition packet_eq :: "packet \<Rightarrow> packet \<Rightarrow> bool" where
  "packet_eq p q \<longleftrightarrow> metadata_eq (md p) (md q) \<and> buf_len p = buf_len q \<and> body p = body q"

definition flowhash :: "packet \<Rightarrow> u32" where
  "flowhash p = ingress_stream_id (md p)"

section \<open>Layout\<close>

definition packet_inv :: "packet \<Rightarrow> bool" where
  "packet_inv p \<longleftrightarrow> wf_metadata (md p) \<and> min_body_offset \<le> moffset (md p) \<and>
     moffset (md p) + mlen (md p) \<le> buf_len p \<and> buf_len p < 2 ^ 63"

text \<open>The packet with headroom \<open>h\<close>, body \<open>b\<close> and tailroom \<open>t\<close>.\<close>

definition laid_out :: "packet \<Rightarrow> bytes \<Rightarrow> bytes \<Rightarrow> bytes \<Rightarrow> bool" where
  "laid_out p h b t \<longleftrightarrow> wf_metadata (md p) \<and> space p = h @ b @ t \<and> buf_len p < 2 ^ 63 \<and>
     moffset (md p) = min_body_offset + length h \<and> mlen (md p) = length b"

named_theorems layout_simps

lemma length_metadata_bytes: "wf_metadata m \<Longrightarrow> length (metadata_bytes m) = min_body_offset"
  by (simp add: metadata_bytes_def tuple_bytes_def wf_metadata_def min_body_offset_def)

lemma packet_inv_layout: "packet_inv p \<longleftrightarrow> (\<exists>h b t. laid_out p h b t)"
proof
  assume inv: "packet_inv p"
  let ?h = "moffset (md p) - min_body_offset"
  have "space p = take ?h (space p) @ take (mlen (md p)) (drop ?h (space p)) @
      drop (mlen (md p)) (drop ?h (space p))"
    by (metis append_take_drop_id)
  then have "laid_out p (take ?h (space p)) (take (mlen (md p)) (drop ?h (space p)))
      (drop (mlen (md p)) (drop ?h (space p)))"
    using inv by (auto simp: laid_out_def packet_inv_def buf_len_def)
  then show "\<exists>h b t. laid_out p h b t" by blast
qed (auto simp: laid_out_def packet_inv_def buf_len_def)

lemma laid_out_queries [layout_simps]:
  assumes "laid_out p h b t"
  shows "body p = Some b" "headroom_available p = Some (length h)"
    "tailroom_available p = Some (length t)" "remaining p = length b"
    "buf_len p = min_body_offset + length h + length b + length t" "metadata_is_valid p"
  using assms length_metadata_bytes [of "md p"]
  by (auto simp: laid_out_def body_def slice_def buffer_def buf_len_def headroom_available_def
      tailroom_available_def remaining_def metadata_is_valid_def)

lemma laid_out_unique: "laid_out p h b t \<Longrightarrow> laid_out p h' b' t' \<Longrightarrow> h = h' \<and> b = b' \<and> t = t'"
  by (auto simp: laid_out_def)

text \<open>Moving the boundaries without touching a byte.\<close>

lemma laid_out_set_extent:
  assumes "laid_out p h b t" "h @ b @ t = h' @ b' @ t'"
    "off = min_body_offset + length h'" "len = length b'"
  shows "laid_out (set_extent off len p) h' b' t'"
proof -
  have "length (h @ b @ t) = length (h' @ b' @ t')" using assms(2) by (rule arg_cong)
  then show ?thesis
    using assms by (auto simp: laid_out_def set_extent_def wf_metadata_def buf_len_def)
qed

text \<open>Overwriting a part of the buffer.\<close>

lemma write_space_layout:
  assumes "wf_metadata (md p)" "space p = xs @ old @ ys" "length old = length new"
    "off = min_body_offset + length xs"
  shows "write_space off new p = Some (p\<lparr>space := xs @ new @ ys\<rparr>)"
  using assms by (simp add: write_space_def put_at_def buf_len_def)

lemma laid_outD:
  assumes "laid_out p h b t"
  shows "wf_metadata (md p)" "space p = h @ b @ t" "buf_len p < 2 ^ 63"
    "moffset (md p) = min_body_offset + length h" "mlen (md p) = length b"
  using assms by (simp_all add: laid_out_def)

text \<open>Replacing the buffer contents by contents of the same length.\<close>

lemma laid_out_space:
  assumes "laid_out p h b t" "length (h' @ b' @ t') = length (h @ b @ t)" "length h' = length h"
    "length b' = length b"
  shows "laid_out (p\<lparr>space := h' @ b' @ t'\<rparr>) h' b' t'"
  using assms by (auto simp: laid_out_def buf_len_def)

lemma advance_layout:
  assumes "laid_out p h (x @ b) t" "n = length x"
  shows "\<exists>q. advance n p = Some q \<and> laid_out q (h @ x) b t"
proof -
  note p = laid_outD [OF assms(1)]
  have "advance n p = Some (set_extent (moffset (md p) + n) (mlen (md p) - n) p)"
    using p(5) assms(2) by (simp add: advance_def remaining_def)
  moreover have "laid_out (set_extent (moffset (md p) + n) (mlen (md p) - n) p) (h @ x) b t"
    by (rule laid_out_set_extent [OF assms(1)]) (simp_all add: p assms(2))
  ultimately show ?thesis by blast
qed

lemma push_header_layout:
  assumes "laid_out p (h @ x) b t" "length x = length hdr"
  shows "\<exists>q. push_header hdr p = Some q \<and> laid_out q h (hdr @ b) t"
proof -
  note p = laid_outD [OF assms(1)]
  let ?q = "set_extent (moffset (md p) - length hdr) (mlen (md p) + length hdr) p"
  have q: "laid_out ?q h (x @ b) t"
    by (rule laid_out_set_extent [OF assms(1)]) (simp_all add: p assms(2) [symmetric])
  have "write_space (moffset (md ?q)) hdr ?q = Some (?q\<lparr>space := h @ hdr @ (b @ t)\<rparr>)"
    by (rule write_space_layout [of _ _ x]) (simp_all add: laid_outD [OF q] assms(2))
  moreover have "laid_out (?q\<lparr>space := h @ (hdr @ b) @ t\<rparr>) h (hdr @ b) t"
    by (rule laid_out_space [OF q]) (simp_all add: assms(2))
  ultimately show ?thesis
    using assms(2) by (simp add: push_header_def laid_out_queries [OF assms(1)] Let_def)
qed

lemma alloc_zeroed_headroom_layout:
  assumes "laid_out p (h @ x) b t" "length x = n"
  shows "\<exists>q. alloc_zeroed_headroom n p = Some q \<and> laid_out q h (replicate n 0 @ b) t"
  using push_header_layout [OF assms(1), of "replicate n 0"] assms(2)
  by (simp add: alloc_zeroed_headroom_def push_header_def)

lemma shrink_by_layout:
  assumes "laid_out p h (b @ x) t" "n = length x"
  shows "\<exists>q. shrink_by n p = Some q \<and> laid_out q h b (x @ t)"
proof -
  note p = laid_outD [OF assms(1)]
  have "shrink_by n p = Some (set_extent (moffset (md p)) (mlen (md p) - n) p)"
    using p(5) assms(2) by (simp add: shrink_by_def)
  moreover have "laid_out (set_extent (moffset (md p)) (mlen (md p) - n) p) h b (x @ t)"
    by (rule laid_out_set_extent [OF assms(1)]) (simp_all add: p assms(2))
  ultimately show ?thesis by blast
qed

lemma append_bytes_layout:
  assumes "laid_out p h b (x @ t)" "length x = length bs"
  shows "\<exists>q. append_bytes bs p = Some q \<and> laid_out q h (b @ bs) t"
proof -
  note p = laid_outD [OF assms(1)]
  let ?q = "p\<lparr>space := h @ b @ (bs @ t)\<rparr>"
  have w: "write_space (moffset (md p) + mlen (md p)) bs p = Some (p\<lparr>space := (h @ b) @ bs @ t\<rparr>)"
    by (rule write_space_layout [of _ _ x]) (simp_all add: p assms(2))
  have q: "laid_out ?q h b (bs @ t)"
    by (rule laid_out_space [OF assms(1)]) (simp_all add: assms(2))
  have "laid_out (set_extent (moffset (md p)) (mlen (md p) + length bs) ?q) h (b @ bs) t"
    by (rule laid_out_set_extent [OF q]) (simp_all add: p)
  then show ?thesis
    using w by (simp add: append_bytes_def advance_mut_def remaining_mut_def laid_out_queries [OF q])
qed

lemma adopt_tailroom_layout:
  assumes "laid_out p h (hdr @ b) (out @ t)" "n = length hdr" "m = length out"
  shows "\<exists>q x. adopt_tailroom_with_header n m p = Some q \<and> length x = length b \<and>
    laid_out q (h @ x) (hdr @ out) t"
proof -
  note p = laid_outD [OF assms(1)]
  define x where "x = take (length b) (hdr @ b)"
  define y where "y = drop (length b) (hdr @ b)"
  have xy: "hdr @ b = x @ y" "length x = length b" "length y = length hdr"
    unfolding x_def y_def by (metis append_take_drop_id) simp_all
  let ?new = "moffset (md p) + mlen (md p) - n" and ?q = "p\<lparr>space := h @ (x @ hdr) @ (out @ t)\<rparr>"
  have hdr: "slice (moffset (md p)) (moffset (md p) + n) (buffer p) = Some hdr"
    using length_metadata_bytes [OF p(1)] by (simp add: p slice_def buffer_def assms(2))
  have "space p = (h @ x) @ y @ (out @ t)"
    unfolding p(2) append_assoc [of h] using xy(1) by (simp flip: append_assoc)
  then have w: "write_space ?new hdr p = Some (p\<lparr>space := (h @ x) @ hdr @ (out @ t)\<rparr>)"
    by (rule write_space_layout [OF p(1)]) (simp_all add: p xy assms(2))
  have q: "laid_out ?q h (x @ hdr) (out @ t)"
    by (rule laid_out_space [OF assms(1)]) (simp_all add: xy)
  have ext: "laid_out (set_extent ?new (n + m) ?q) (h @ x) (hdr @ out) t"
    by (rule laid_out_set_extent [OF q]) (simp_all add: p xy assms(2,3))
  have "set_body_extent ?new (n + m) ?q = Some (set_extent ?new (n + m) ?q)"
    using laid_out_queries(5) [OF q] by (simp add: set_body_extent_def p xy assms(2,3))
  then show ?thesis
    using w hdr ext xy(2) p(5) assms(2,3)
    by (auto simp: adopt_tailroom_with_header_def Let_def laid_out_queries [OF assms(1)])
qed

section \<open>Metadata in memory\<close>

lemma unat_mod_width [codec_simps]:
  "unat (a :: u16) mod 65536 = unat a" "unat (b :: u32) mod 4294967296 = unat b"
  "unat (c :: u64) mod 18446744073709551616 = unat c"
  using unat_u16_less [of a] unat_u32_less [of b] unat_u64_less [of c] by simp_all

lemma metadata_roundtrip:
  assumes "wf_metadata m"
  shows "metadata_of_bytes (metadata_bytes m) = m"
proof -
  have len: "length (src_address (mtuple m)) = 16" "length (dst_address (mtuple m)) = 16"
    "length (mpadding m) = 4" "moffset m < 256 ^ 8" "mlen m < 256 ^ 8"
    using assms by (simp_all add: wf_metadata_def)
  have nth: "(xs @ ys) ! n = ys ! (n - length xs)" if "length xs \<le> n" for xs ys :: bytes and n
    using that by (simp add: nth_append)
  have "tuple_of_bytes (drop 16 (metadata_bytes m)) = mtuple m"
    using len by (simp add: tuple_of_bytes_def metadata_bytes_def tuple_bytes_def le_at_def nth
        codec_simps)
  then show ?thesis
    using len by (simp add: metadata_of_bytes_def metadata_bytes_def tuple_bytes_def le_at_def nth
        codec_simps)
qed

lemma wf_metadata_of_bytes: "length b = min_body_offset \<Longrightarrow> wf_metadata (metadata_of_bytes b)"
  using of_le_less [of "take 8 b"] of_le_less [of "take 8 (drop 8 b)"]
  by (simp add: wf_metadata_def metadata_of_bytes_def tuple_of_bytes_def min_body_offset_def le_at_def)

lemma packet_of_buffer_layout:
  assumes "packet_of_buffer b = Some p" "length b < 2 ^ 63" "metadata_is_valid p"
  shows "packet_inv p"
  using assms wf_metadata_of_bytes [of "take min_body_offset b"]
  by (auto simp: packet_of_buffer_def packet_inv_def metadata_is_valid_def buf_len_def split: if_splits)

section \<open>Serialisation\<close>

lemma serialize_layout:
  assumes "laid_out p h b t" "min_body_offset + length b \<le> room"
  shows "serialize room p = Some (Inr (metadata_bytes (md p) @ b))"
  using assms by (simp add: serialize_def laid_out_queries laid_outD)

lemma deserialize_layout:
  assumes "laid_out p h b t" "length c = buf_len p"
  shows "\<exists>h' t'. length h' = length h \<and> length t' = length t \<and>
    deserialize_into (metadata_bytes (md p) @ b) c =
      Some (Inr \<lparr>md = md p, space = h' @ b @ t'\<rparr>)"
proof -
  note p = laid_outD [OF assms(1)] and len = length_metadata_bytes [OF laid_outD(1) [OF assms(1)]]
  define sp where "sp = drop min_body_offset c"
  have splen: "length sp = length h + length b + length t"
    using assms(2) laid_out_queries(5) [OF assms(1)] by (simp add: sp_def)
  define h' where "h' = take (length h) sp"
  define x where "x = take (length b) (drop (length h) sp)"
  define t' where "t' = drop (length h + length b) sp"
  have lens: "length h' = length h" "length x = length b" "length t' = length t"
    using splen by (simp_all add: h'_def x_def t'_def)
  have sp: "sp = h' @ x @ t'"
    unfolding h'_def x_def t'_def by (metis append_take_drop_id drop_drop add.commute)
  let ?q = "\<lparr>md = md p, space = sp\<rparr>"
  have q: "laid_out ?q h' x t'"
    using p lens sp splen laid_out_queries(5) [OF assms(1)]
    by (auto simp: laid_out_def buf_len_def)
  have "put_at 0 (metadata_bytes (md p)) c = metadata_bytes (md p) @ sp"
    by (simp add: put_at_def len sp_def)
  then have new: "try_new_with_existing_metadata (put_at 0 (metadata_bytes (md p)) c) = Some (Inr ?q)"
    using laid_out_queries(6) [OF q] len metadata_roundtrip [OF p(1)]
    by (simp add: try_new_with_existing_metadata_def packet_of_buffer_def)
  have "write_space (moffset (md ?q)) b ?q = Some (?q\<lparr>space := h' @ b @ t'\<rparr>)"
    by (rule write_space_layout [of _ _ x]) (simp_all add: p lens sp)
  then show ?thesis
    using new lens len assms(2) p(5)
    by (auto simp: deserialize_into_def buf_len_def)
qed

lemma clone_layout:
  assumes "laid_out p h b t" "min_body_offset + hr + length b \<le> length c" "length c < 2 ^ 63"
  shows "\<exists>q h' t'. clone_prefix_into_with_headroom c hr (length b) p = Some q \<and>
    laid_out q h' b t' \<and> length h' = hr \<and> length t' = length c - (min_body_offset + hr + length b) \<and>
    md q = (md p)\<lparr>moffset := min_body_offset + hr\<rparr>"
proof -
  note p = laid_outD [OF assms(1)] and len = length_metadata_bytes [OF laid_outD(1) [OF assms(1)]]
  define h' where "h' = take hr (drop min_body_offset c)"
  define t' where "t' = drop (min_body_offset + hr + length b) c"
  let ?q = "\<lparr>md = md p, space = h' @ b @ t'\<rparr>"
  have hlen: "length h' = hr" using assms(2) by (simp add: h'_def)
  have "put_at (min_body_offset + hr) b (put_at 0 (metadata_bytes (md p)) c) =
      metadata_bytes (md p) @ h' @ b @ t'"
    using assms(2) len by (simp add: put_at_def h'_def t'_def ac_simps)
  then have "packet_of_buffer (put_at (min_body_offset + hr) b (put_at 0 (metadata_bytes (md p)) c)) =
      Some ?q"
    using len metadata_roundtrip [OF p(1)] by (simp add: packet_of_buffer_def)
  then have "clone_prefix_into_with_headroom c hr (length b) p =
      Some (set_extent (min_body_offset + hr) (length b) ?q)"
    using assms(2) by (simp add: clone_prefix_into_with_headroom_def laid_out_queries [OF assms(1)] Let_def)
  moreover have "laid_out (set_extent (min_body_offset + hr) (length b) ?q) h' b t'"
    using p(1) hlen assms(2,3)
    by (auto simp: laid_out_def set_extent_def wf_metadata_def buf_len_def t'_def)
  moreover have "md (set_extent (min_body_offset + hr) (length b) ?q) = (md p)\<lparr>moffset := min_body_offset + hr\<rparr>"
    using p(5) by (cases "md p") (simp add: set_extent_def)
  moreover have "length t' = length c - (min_body_offset + hr + length b)" by (simp add: t'_def)
  ultimately show ?thesis using hlen by blast
qed

interpretation packet_source: readable "\<lambda>p. the (body p)" packet_inv remaining "\<lambda>p. the (body p)" advance
proof
  fix p n
  assume "packet_inv p"
  then obtain h b t where l: "laid_out p h b t" by (auto simp: packet_inv_layout)
  show "remaining p = length (the (body p))" by (simp add: laid_out_queries [OF l])
  show "\<exists>q. advance n p = Some q \<and> packet_inv q \<and> the (body q) = drop n (the (body p))"
    if "n \<le> remaining p"
  proof -
    have n: "n \<le> length b" using that by (simp add: laid_out_queries [OF l])
    then have "laid_out p h (take n b @ drop n b) t" using l by simp
    then obtain q where q: "advance n p = Some q" "laid_out q (h @ take n b) (drop n b) t"
      using advance_layout [of p h "take n b" "drop n b" t n] n by auto
    then have "packet_inv q" by (auto simp: packet_inv_layout)
    then show ?thesis
      using q(1) laid_out_queries(1) [OF q(2)] laid_out_queries(1) [OF l] by simp
  qed
  show "advance n p = None" if "remaining p < n"
    using that by (simp add: advance_def)
qed auto

section \<open>The invariant of packet buffers\<close>

inductive packet_op :: "packet \<Rightarrow> packet \<Rightarrow> bool" where
  "advance n p = Some q \<Longrightarrow> packet_op p q"
| "push_header hdr p = Some q \<Longrightarrow> packet_op p q"
| "alloc_zeroed_headroom n p = Some q \<Longrightarrow> packet_op p q"
| "shrink_by n p = Some q \<Longrightarrow> packet_op p q"
| "advance_mut n p = Some q \<Longrightarrow> packet_op p q"
| "append_bytes bs p = Some q \<Longrightarrow> packet_op p q"
| "set_body_extent off len p = Some q \<Longrightarrow> packet_op p q"
| "adopt_tailroom_with_header n m p = Some q \<Longrightarrow> packet_op p q"

lemma write_space_inv:
  "write_space off bs p = Some q \<Longrightarrow>
     md q = md p \<and> buf_len q = buf_len p \<and> packet_inv q = packet_inv p"
  by (auto simp: write_space_def buf_len_def packet_inv_def split: if_splits)

lemma packet_inv_set_extent:
  assumes "packet_inv p" "min_body_offset \<le> off" "off + len \<le> buf_len p"
  shows "packet_inv (set_extent off len p)" "buf_len (set_extent off len p) = buf_len p"
  using assms by (auto simp: packet_inv_def set_extent_def wf_metadata_def buf_len_def)

lemma packet_op_inv:
  assumes "packet_op p q" "packet_inv p"
  shows "packet_inv q \<and> buf_len q = buf_len p"
proof -
  note e = packet_inv_set_extent [OF assms(2)]
  have p: "min_body_offset \<le> moffset (md p)" "moffset (md p) + mlen (md p) \<le> buf_len p"
    using assms(2) by (simp_all add: packet_inv_def)
  have grow: "packet_inv (set_extent (moffset (md p) - k) (mlen (md p) + k) p) \<and>
      buf_len (set_extent (moffset (md p) - k) (mlen (md p) + k) p) = buf_len p"
    if "k \<le> moffset (md p) - min_body_offset" for k
    using e [of "moffset (md p) - k" "mlen (md p) + k"] p that by simp
  from assms(1) show ?thesis
  proof cases
    case (2 hdr)
    then have w: "length hdr \<le> moffset (md p) - min_body_offset" "write_space (moffset (md p) - length hdr) hdr
        (set_extent (moffset (md p) - length hdr) (mlen (md p) + length hdr) p) = Some q"
      by (auto simp: push_header_def headroom_available_def Let_def set_extent_def split: if_splits)
    then show ?thesis
      using grow [OF w(1)] write_space_inv [OF w(2)] by auto
  next
    case (3 n)
    then have w: "n \<le> moffset (md p) - min_body_offset" "write_space (moffset (md p) - n) (replicate n 0)
        (set_extent (moffset (md p) - n) (mlen (md p) + n) p) = Some q"
      by (auto simp: alloc_zeroed_headroom_def headroom_available_def Let_def set_extent_def split: if_splits)
    then show ?thesis
      using grow [OF w(1)] write_space_inv [OF w(2)] by auto
  next
    case (6 bs)
    then obtain r where r: "write_space (moffset (md p) + mlen (md p)) bs p = Some r"
      "advance_mut (length bs) r = Some q"
      by (auto simp: append_bytes_def elim!: bind_SomeE)
    then have "packet_inv r" "buf_len r = buf_len p" "md r = md p"
      using write_space_inv [OF r(1)] assms(2) by auto
    then show ?thesis
      using r(2) packet_inv_set_extent [of r "moffset (md p)" "mlen (md p) + length bs"] p
      by (auto simp: advance_mut_def remaining_mut_def tailroom_available_def split: if_splits)
  next
    case (8 n m)
    then obtain r hdr where r: "write_space (moffset (md p) + mlen (md p) - n) hdr p = Some r"
      "set_body_extent (moffset (md p) + mlen (md p) - n) (n + m) r = Some q"
      by (auto simp: adopt_tailroom_with_header_def Let_def elim!: bind_SomeE split: if_splits)
    then have "packet_inv r" "buf_len r = buf_len p"
      using write_space_inv [OF r(1)] assms(2) by auto
    then show ?thesis
      using r(2) packet_inv_set_extent [of r "moffset (md p) + mlen (md p) - n" "n + m"]
      by (auto simp: set_body_extent_def split: if_splits)
  next
    case (1 n)
    then show ?thesis
      using e [of "moffset (md p) + n" "mlen (md p) - n"] p
      by (auto simp: advance_def remaining_def split: if_splits)
  next
    case (4 n)
    then show ?thesis
      using e [of "moffset (md p)" "mlen (md p) - n"] p by (auto simp: shrink_by_def split: if_splits)
  next
    case (5 n)
    then show ?thesis
      using e [of "moffset (md p)" "mlen (md p) + n"] p
      by (auto simp: advance_mut_def remaining_mut_def tailroom_available_def split: if_splits)
  next
    case (7 off len)
    then show ?thesis
      using e [of off len] by (auto simp: set_body_extent_def split: if_splits)
  qed
qed

lemma packet_new_inv:
  assumes "packet_new b h = Some p" "length b < 2 ^ 63"
  shows "packet_inv p \<and> buf_len p = length b"
proof -
  have "wf_metadata (metadata_of_bytes (take min_body_offset b))" if "min_body_offset \<le> length b"
    using that by (intro wf_metadata_of_bytes) simp
  then show ?thesis
    using assms
    by (auto simp: packet_new_def new_with_existing_data_def packet_of_buffer_def packet_inv_def
        buf_len_def wf_metadata_def split: if_splits)
qed

lemma packet_new_layout:
  assumes "min_body_offset + h \<le> length b" "length b < 2 ^ 63"
  shows "\<exists>p. packet_new b h = Some p \<and>
    laid_out p (take h (drop min_body_offset b)) [] (drop (min_body_offset + h) b)"
proof -
  have "wf_metadata (metadata_of_bytes (take min_body_offset b))"
    using assms(1) by (intro wf_metadata_of_bytes) simp
  moreover have "take h (drop min_body_offset b) @ drop (min_body_offset + h) b = drop min_body_offset b"
    by (metis append_take_drop_id drop_drop add.commute)
  ultimately show ?thesis
    using assms
    by (simp add: packet_new_def new_with_existing_data_def packet_of_buffer_def laid_out_def
        wf_metadata_def buf_len_def)
qed

interpretation packet_buffer: invariant_system
  "\<lambda>p. \<exists>b h. packet_new b h = Some p \<and> length b < 2 ^ 63" packet_op packet_inv
  by unfold_locales (auto dest: packet_new_inv packet_op_inv)

section \<open>Properties\<close>



text \<open>
  Reading undoes writing at the front, and appending extends the end: after a header is
  pushed, the body is the header followed by the old body, and consuming the header gives back
  the old body with the same headroom and tailroom; bytes appended to the tailroom end up
  behind the body.
\<close>

theorem packet_push_advance_append:
  assumes "laid_out p (h @ x) b (y @ t)" "length x = length hdr" "length y = length bs"
  shows "\<exists>q r s. push_header hdr p = Some q \<and> laid_out q h (hdr @ b) (y @ t) \<and>
    append_bytes bs q = Some r \<and> laid_out r h (hdr @ b @ bs) t \<and>
    advance (length hdr) r = Some s \<and> laid_out s (h @ hdr) (b @ bs) t"
proof -
  obtain q where q: "push_header hdr p = Some q" "laid_out q h (hdr @ b) (y @ t)"
    using push_header_layout [OF assms(1,2)] by auto
  obtain r where r: "append_bytes bs q = Some r" "laid_out r h ((hdr @ b) @ bs) t"
    using append_bytes_layout [OF q(2) assms(3)] by auto
  then have "laid_out r h (hdr @ b @ bs) t" by simp
  then obtain s where "advance (length hdr) r = Some s" "laid_out s (h @ hdr) (b @ bs) t"
    using advance_layout [of r h hdr "b @ bs" t "length hdr"] by auto
  then show ?thesis using q r by auto
qed

text \<open>A concrete packet: 4 bytes of headroom, a body of 2 and 4 bytes of tailroom.\<close>

definition demo_packet :: packet where
  "demo_packet = \<lparr>md = \<lparr>moffset = 84, mlen = 2,
     mtuple = \<lparr>src_address = replicate 16 0, dst_address = replicate 16 0, l3_type = 0,
       l4_protocol = 0, src_port = 0, dst_port = 0\<rparr>,
     ingress_lane_id = 0, pkt_flags = 0, mpadding = replicate 4 0, ingress_link_id = 0,
     egress_link_id = 0, ingress_stream_id = 5, seq_num = 9\<rparr>,
     space = [0, 0, 0, 0, 7, 8, 0, 0, 0, 0]\<rparr>"

lemma demo_packet_layout: "laid_out demo_packet [0, 0, 0, 0] [7, 8] [0, 0, 0, 0]"
  by (simp add: laid_out_def demo_packet_def wf_metadata_def min_body_offset_def buf_len_def)

theorem packet_push_advance_append_witness:
  "\<exists>q r. push_header [1, 2] demo_packet = Some q \<and> append_bytes [3] q = Some r \<and>
     body r = Some [1, 2, 7, 8, 3]"
proof -
  have "laid_out demo_packet ([0, 0] @ [0, 0]) [7, 8] ([0] @ [0, 0, 0])"
    using demo_packet_layout by simp
  from packet_push_advance_append [OF this, of "[1, 2]" "[3]"] show ?thesis
    by (auto dest: laid_out_queries(1))
qed

text \<open>
  C30: A packet survives serialisation.  Reading back what was written, into a buffer of the
  same size, gives a packet that compares equal to the original, with the same headroom and
  tailroom and with the sequence number and every other metadata field unchanged.
\<close>

theorem packet_serialize_roundtrip:
  assumes "packet_inv p" "min_body_offset + mlen (md p) \<le> room" "length c = buf_len p"
  shows "\<exists>bs q. serialize room p = Some (Inr bs) \<and> deserialize_into bs c = Some (Inr q) \<and>
    packet_eq p q \<and> md q = md p \<and> headroom_available q = headroom_available p \<and>
    tailroom_available q = tailroom_available p"
proof -
  obtain h b t where l: "laid_out p h b t" using assms(1) by (auto simp: packet_inv_layout)
  obtain h' t' where d: "length h' = length h" "length t' = length t"
    "deserialize_into (metadata_bytes (md p) @ b) c = Some (Inr \<lparr>md = md p, space = h' @ b @ t'\<rparr>)"
    using deserialize_layout [OF l assms(3)] by auto
  let ?q = "\<lparr>md = md p, space = h' @ b @ t'\<rparr>"
  have q: "laid_out ?q h' b t'"
    using laid_outD [OF l] d(1,2) by (auto simp: laid_out_def buf_len_def)
  have "serialize room p = Some (Inr (metadata_bytes (md p) @ b))"
    using serialize_layout [OF l] assms(2) laid_outD(5) [OF l] by simp
  then show ?thesis
    using d laid_out_queries [OF l] laid_out_queries [OF q]
    by (auto simp: packet_eq_def metadata_eq_def)
qed

theorem packet_serialize_roundtrip_witness:
  "\<exists>bs q. serialize 200 demo_packet = Some (Inr bs) \<and> deserialize_into bs (replicate 90 0) = Some (Inr q) \<and>
     body q = Some [7, 8] \<and> seq_num (md q) = 9"
proof -
  have inv: "packet_inv demo_packet" using demo_packet_layout packet_inv_layout by blast
  have "min_body_offset + mlen (md demo_packet) \<le> 200" "length (replicate 90 (0 :: u8)) = buf_len demo_packet"
    by (simp_all add: min_body_offset_def demo_packet_def buf_len_def)
  from packet_serialize_roundtrip [OF inv this] show ?thesis
    using laid_out_queries(1) [OF demo_packet_layout]
    by (auto simp: packet_eq_def) (auto simp: demo_packet_def)
qed

text \<open>
  Encrypting in place.  After a transform has written its output into the tailroom,
  adopting it keeps the header in front of the output: the new body is the old header followed
  by the output, also when the header and its new place overlap in the buffer.
\<close>

theorem packet_adopt_tailroom:
  assumes "laid_out p h (hdr @ b) (out @ t)"
  shows "\<exists>q. adopt_tailroom_with_header (length hdr) (length out) p = Some q \<and>
    body q = Some (hdr @ out) \<and> tailroom_available q = Some (length t) \<and> buf_len q = buf_len p"
proof -
  obtain q x where "adopt_tailroom_with_header (length hdr) (length out) p = Some q"
    "length x = length b" "laid_out q (h @ x) (hdr @ out) t"
    using adopt_tailroom_layout [OF assms refl refl] by auto
  then show ?thesis
    using laid_out_queries [OF assms] by (auto simp: laid_out_queries)
qed

theorem packet_adopt_tailroom_witness:
  "\<exists>q. adopt_tailroom_with_header 1 2 (demo_packet\<lparr>space := [0, 0, 0, 0, 7, 8, 5, 6, 0, 0]\<rparr>) = Some q \<and>
     body q = Some [7, 5, 6]"
proof -
  let ?p = "demo_packet\<lparr>space := [0, 0, 0, 0, 7, 8, 5, 6, 0, 0]\<rparr>"
  have "laid_out ?p [0, 0, 0, 0] ([7] @ [8]) ([5, 6] @ [0, 0])"
    by (simp add: laid_out_def demo_packet_def wf_metadata_def min_body_offset_def buf_len_def)
  from packet_adopt_tailroom [OF this] show ?thesis by (auto simp: numeral_2_eq_2)
qed

text \<open>
  C37: Cloning a proper prefix never works.  Copying fewer bytes than the packet has panics
  whatever the target buffer, because the whole body is copied into the shorter target slice;
  only the full-length clone succeeds.
\<close>

theorem clone_proper_prefix_panics:
  assumes "packet_inv p" "len \<noteq> mlen (md p)"
  shows "clone_prefix_into b len p = None"
proof -
  obtain h bd t where l: "laid_out p h bd t" using assms(1) by (auto simp: packet_inv_layout)
  then show ?thesis
    using assms(2) laid_outD(5) [OF l]
    by (simp add: clone_prefix_into_def clone_prefix_into_with_headroom_def laid_out_queries [OF l] Let_def)
qed

theorem clone_proper_prefix_panics_witness:
  "clone_prefix_into (replicate 200 0) 1 demo_packet = None"
proof -
  have "packet_inv demo_packet" using demo_packet_layout packet_inv_layout by blast
  then show ?thesis
    using clone_proper_prefix_panics [of demo_packet 1] by (simp add: demo_packet_def)
qed

end
