(* ===== verification/Packet_View.thy ===== *)
theory Packet_View
  imports Packet
begin

text \<open>
  Packets in canonical form.  \<open>lay m h b t\<close> is the packet with headroom \<open>h\<close>, body
  \<open>b\<close> and tailroom \<open>t\<close>; every operation of \<open>packet.rs\<close> is an equation on it,
  so that code working on packets evaluates to code on byte strings.  The typed reads and
  writes that \<open>compress.rs\<close> makes through \<open>Buf\<close> and \<open>body_mut\<close> are defined
  here on top of the packet operations.
\<close>

section \<open>Reads and writes of the body\<close>

definition get_array :: "nat \<Rightarrow> packet \<Rightarrow> (bytes \<times> packet) option" where
  "get_array n p = do { b \<leftarrow> body p; q \<leftarrow> advance n p; Some (take n b, q) }"

definition get_u8 :: "packet \<Rightarrow> (u8 \<times> packet) option" where
  "get_u8 p = do { (b, q) \<leftarrow> get_array 1 p; Some (b ! 0, q) }"

definition get_u16 :: "packet \<Rightarrow> (u16 \<times> packet) option" where
  "get_u16 p = do { (b, q) \<leftarrow> get_array 2 p; Some (get16 b, q) }"

text \<open>Overwriting bytes of the body, which panics beyond its end.\<close>

definition write_body :: "nat \<Rightarrow> bytes \<Rightarrow> packet \<Rightarrow> packet option" where
  "write_body off bs p = do {
     b \<leftarrow> body p;
     ensure (off + length bs \<le> length b);
     write_space (moffset (md p) + off) bs p
   }"

text \<open>\<open>body_mut().copy_within(a..e, dest)\<close>.\<close>

definition copy_within :: "nat \<Rightarrow> nat \<Rightarrow> nat \<Rightarrow> packet \<Rightarrow> packet option" where
  "copy_within a e dest p = do {
     b \<leftarrow> body p;
     src \<leftarrow> slice a e b;
     write_body dest src p
   }"

section \<open>The canonical form\<close>

definition lay :: "metadata \<Rightarrow> bytes \<Rightarrow> bytes \<Rightarrow> bytes \<Rightarrow> packet" where
  "lay m h b t = \<lparr>md = m\<lparr>moffset := min_body_offset + length h, mlen := length b\<rparr>, space = h @ b @ t\<rparr>"

definition wf_fields :: "metadata \<Rightarrow> bool" where
  "wf_fields m \<longleftrightarrow> length (src_address (mtuple m)) = 16 \<and> length (dst_address (mtuple m)) = 16 \<and>
     length (mpadding m) = 4"

lemma laid_out_lay: "laid_out p h b t \<Longrightarrow> p = lay (md p) h b t \<and> wf_fields (md p)"
  by (simp add: laid_out_def lay_def wf_fields_def wf_metadata_def)

lemma lay_eq_iff [simp]: "lay m h b t = lay m h' b t \<longleftrightarrow> h = h'"
  by (auto simp: lay_def)

lemma length_metadata_lay:
  "wf_fields m \<Longrightarrow> length (metadata_bytes (m\<lparr>moffset := a, mlen := c\<rparr>)) = min_body_offset"
  by (simp add: wf_fields_def metadata_bytes_def tuple_bytes_def min_body_offset_def)

named_theorems lay_simps

lemma body_lay [lay_simps]: "wf_fields m \<Longrightarrow> body (lay m h b t) = Some b"
  by (simp add: body_def lay_def slice_def buffer_def length_metadata_lay)

lemma queries_lay [lay_simps]:
  "headroom_available (lay m h b t) = Some (length h)" "remaining (lay m h b t) = length b"
  "md (lay m h b t) = m\<lparr>moffset := min_body_offset + length h, mlen := length b\<rparr>"
  by (simp_all add: lay_def headroom_available_def remaining_def)

lemma advance_lay [lay_simps]:
  "advance n (lay m h b t) =
     (if n \<le> length b then Some (lay m (h @ take n b) (drop n b) t) else None)"
  by (auto simp: advance_def lay_def remaining_def set_extent_def)

lemma write_space_lay:
  "off + length bs \<le> length b \<Longrightarrow>
     write_space (min_body_offset + length h + off) bs (lay m h b t) = Some (lay m h (put_at off bs b) t)"
  by (simp add: write_space_def lay_def buf_len_def put_at_def)

lemma write_body_lay [lay_simps]:
  "wf_fields m \<Longrightarrow> write_body off bs (lay m h b t) =
     (if off + length bs \<le> length b then Some (lay m h (put_at off bs b) t) else None)"
  using write_space_lay [of off bs b h m t] by (simp add: write_body_def lay_simps)

lemma lay_shift: "h = h1 @ x \<Longrightarrow> set_extent (min_body_offset + length h1) (length x + length b) (lay m h b t) = lay m h1 (x @ b) t"
  by (simp add: lay_def set_extent_def)

lemma push_header_lay [lay_simps]:
  "push_header hdr (lay m h b t) =
     (if length hdr \<le> length h then Some (lay m (take (length h - length hdr) h) (hdr @ b) t) else None)"
proof (cases "length hdr \<le> length h")
  case True
  define h1 x where "h1 = take (length h - length hdr) h" and "x = drop (length h - length hdr) h"
  have h: "h = h1 @ x" "length x = length hdr" "length h - length hdr = length h1"
    using True by (auto simp: h1_def x_def)
  have "set_extent (min_body_offset + length h - length hdr) (length b + length hdr) (lay m h b t) =
      lay m h1 (x @ b) t"
    using lay_shift [OF h(1), of b m t] h by (simp add: add.commute)
  then have "push_header hdr (lay m h b t) =
      write_space (min_body_offset + length h1 + 0) hdr (lay m h1 (x @ b) t)"
    using True by (simp add: push_header_def lay_simps Let_def)
  also have "\<dots> = Some (lay m h1 (hdr @ b) t)"
    using write_space_lay [of 0 hdr "x @ b" h1 m t] h(2) by (simp add: put_at_def)
  finally show ?thesis using True by (simp add: h1_def)
qed (simp add: push_header_def lay_simps)

lemma alloc_zeroed_headroom_lay [lay_simps]:
  "alloc_zeroed_headroom n (lay m h b t) =
     (if n \<le> length h then Some (lay m (take (length h - n) h) (replicate n 0 @ b) t) else None)"
  using push_header_lay [of "replicate n 0" m h b t]
  by (simp add: alloc_zeroed_headroom_def push_header_def)

lemma push_u16_lay [lay_simps]:
  "push_u16 w (lay m h b t) =
     (if 2 \<le> length h then Some (lay m (take (length h - 2) h) (be16 w @ b) t) else None)"
  by (simp add: push_u16_def lay_simps)

lemma get_lay [lay_simps]:
  assumes "wf_fields m"
  shows "get_array n (lay m h b t) =
      (if n \<le> length b then Some (take n b, lay m (h @ take n b) (drop n b) t) else None)"
    "get_u8 (lay m h b t) =
      (if 1 \<le> length b then Some (b ! 0, lay m (h @ take 1 b) (drop 1 b) t) else None)"
    "get_u16 (lay m h b t) =
      (if 2 \<le> length b then Some (get16 b, lay m (h @ take 2 b) (drop 2 b) t) else None)"
  using assms by (auto simp: get_array_def get_u8_def get_u16_def lay_simps get16_def)

lemma copy_within_lay [lay_simps]:
  assumes "wf_fields m"
  shows "copy_within a e dest (lay m h b t) =
      (if a \<le> e \<and> e \<le> length b \<and> dest + (e - a) \<le> length b
       then Some (lay m h (put_at dest (take (e - a) (drop a b)) b) t) else None)"
  using assms by (auto simp: copy_within_def slice_def lay_simps)

end
