(* ===== verification/Classifier.thy ===== *)
theory Classifier
  imports Packet
begin

text \<open>
  The packet classifier (\<open>adapter/ph/src/classifier.rs\<close>): it reads the network and
  transport headers of a packet body, walks over IPv6 extension headers, and fills in the
  5-tuple.  A classifier run returns the updated 5-tuple together with its
  \<open>Result\<close>; \<open>None\<close> is a panic.  What the classifier takes from the networking
  libraries (checksums, the embedding of IPv4 addresses, the numeric values of the layer-3
  types and of the compression mode bits) is the record \<open>net_lib\<close>.
\<close>

section \<open>Headers and library functions\<close>

record net_lib =
  ip4sum :: "bytes \<Rightarrow> u16"
  inet_l4_checksum :: "u8 \<Rightarrow> bytes \<Rightarrow> bytes \<Rightarrow> u8 \<Rightarrow> bytes \<Rightarrow> bytes"
  validate_inet_l4_checksum :: "u8 \<Rightarrow> bytes \<Rightarrow> bytes \<Rightarrow> u8 \<Rightarrow> bytes \<Rightarrow> bool"
  new_from_v4 :: "bytes \<Rightarrow> bytes"
  read_as_v4 :: "bytes \<Rightarrow> bytes"
  is_v4 :: "bytes \<Rightarrow> bool"
  from_octets4 :: "bytes \<Rightarrow> bytes"
  from_octets16 :: "bytes \<Rightarrow> bytes"
  L3_Ipv4 :: u8
  L3_Ipv6 :: u8
  SOURCE_PORT_PRESENT :: u8
  DESTINATION_PORT_PRESENT :: u8

text \<open>
  The documented behaviour the code relies on: an IPv4 address can be read back from its
  16-byte form, the conversions from octet arrays give that form, and the constants are distinct, respectively separate bits.
\<close>

definition net_lib_ok :: "net_lib \<Rightarrow> bool" where
  "net_lib_ok N \<longleftrightarrow>
     (\<forall>a. length a = 4 \<longrightarrow> length (new_from_v4 N a) = 16 \<and> read_as_v4 N (new_from_v4 N a) = a) \<and>
     (\<forall>a. length a = 16 \<longrightarrow> length (read_as_v4 N a) = 4) \<and>
     (\<forall>a. length a = 4 \<longrightarrow> from_octets4 N a = new_from_v4 N a) \<and>
     (\<forall>a. length a = 16 \<longrightarrow> from_octets16 N a = a) \<and>
     L3_Ipv4 N \<noteq> L3_Ipv6 N \<and>
     SOURCE_PORT_PRESENT N \<noteq> 0 \<and> DESTINATION_PORT_PRESENT N \<noteq> 0 \<and>
     SOURCE_PORT_PRESENT N AND DESTINATION_PORT_PRESENT N = 0"

text \<open>Protocol numbers, as assigned by IANA.\<close>

abbreviation (input) HOPOPT :: u8 where "HOPOPT \<equiv> 0"
abbreviation (input) ICMP :: u8 where "ICMP \<equiv> 1"
abbreviation (input) IPINIP :: u8 where "IPINIP \<equiv> 4"
abbreviation (input) TCP :: u8 where "TCP \<equiv> 6"
abbreviation (input) UDP :: u8 where "UDP \<equiv> 17"
abbreviation (input) IPV6_ROUTE :: u8 where "IPV6_ROUTE \<equiv> 43"
abbreviation (input) IPV6_FRAG :: u8 where "IPV6_FRAG \<equiv> 44"
abbreviation (input) AH :: u8 where "AH \<equiv> 51"
abbreviation (input) IPV6_ICMP :: u8 where "IPV6_ICMP \<equiv> 58"
abbreviation (input) NO_NEXT_HEADER :: u8 where "NO_NEXT_HEADER \<equiv> 59"
abbreviation (input) IPV6_OPTS :: u8 where "IPV6_OPTS \<equiv> 60"

record ipv4_header =
  v4_vhl :: u8
  v4_dscp :: u8
  v4_total_length :: u16
  v4_frag_id :: bytes
  v4_frag_offset :: u16
  v4_ttl :: u8
  v4_proto :: u8
  v4_header_checksum :: bytes
  v4_src_address :: bytes
  v4_dst_address :: bytes

record ipv6_header =
  v6_version_and_tc_upper :: u8
  v6_tc_lower_and_fl_upper :: u8
  v6_fl_lower :: bytes
  v6_payload_length :: u16
  v6_next_header :: u8
  v6_hop_limit :: u8
  v6_src_address :: bytes
  v6_dst_address :: bytes

record tcp_header =
  tcp_src_port :: u16
  tcp_dst_port :: u16
  tcp_sequence_number :: bytes
  tcp_acknowledgement_number :: bytes
  tcp_data_offset_and_reserved :: u8
  tcp_flags :: u8
  tcp_window_size :: bytes
  tcp_checksum :: bytes
  tcp_urgent_pointer :: bytes

record udp_header =
  udp_src_port :: u16
  udp_dst_port :: u16
  udp_length :: u16
  udp_checksum :: bytes

record icmp_header =
  icmp_type :: u8
  icmp_code :: u8
  icmp_checksum :: bytes

text \<open>Reading a header from the front of a byte string, and its bytes.\<close>

definition ipv4_header_of :: "bytes \<Rightarrow> ipv4_header" where
  "ipv4_header_of b = \<lparr>v4_vhl = b ! 0, v4_dscp = b ! 1, v4_total_length = get16 (drop 2 b),
     v4_frag_id = take 2 (drop 4 b), v4_frag_offset = get16 (drop 6 b), v4_ttl = b ! 8,
     v4_proto = b ! 9, v4_header_checksum = take 2 (drop 10 b),
     v4_src_address = take 4 (drop 12 b), v4_dst_address = take 4 (drop 16 b)\<rparr>"

definition ipv4_header_bytes :: "ipv4_header \<Rightarrow> bytes" where
  "ipv4_header_bytes h = [v4_vhl h, v4_dscp h] @ be16 (v4_total_length h) @ v4_frag_id h @
     be16 (v4_frag_offset h) @ [v4_ttl h, v4_proto h] @ v4_header_checksum h @
     v4_src_address h @ v4_dst_address h"

definition ipv6_header_of :: "bytes \<Rightarrow> ipv6_header" where
  "ipv6_header_of b = \<lparr>v6_version_and_tc_upper = b ! 0, v6_tc_lower_and_fl_upper = b ! 1,
     v6_fl_lower = take 2 (drop 2 b), v6_payload_length = get16 (drop 4 b),
     v6_next_header = b ! 6, v6_hop_limit = b ! 7,
     v6_src_address = take 16 (drop 8 b), v6_dst_address = take 16 (drop 24 b)\<rparr>"

definition ipv6_header_bytes :: "ipv6_header \<Rightarrow> bytes" where
  "ipv6_header_bytes h = [v6_version_and_tc_upper h, v6_tc_lower_and_fl_upper h] @ v6_fl_lower h @
     be16 (v6_payload_length h) @ [v6_next_header h, v6_hop_limit h] @
     v6_src_address h @ v6_dst_address h"

definition tcp_header_of :: "bytes \<Rightarrow> tcp_header" where
  "tcp_header_of b = \<lparr>tcp_src_port = get16 b, tcp_dst_port = get16 (drop 2 b),
     tcp_sequence_number = take 4 (drop 4 b), tcp_acknowledgement_number = take 4 (drop 8 b),
     tcp_data_offset_and_reserved = b ! 12, tcp_flags = b ! 13, tcp_window_size = take 2 (drop 14 b),
     tcp_checksum = take 2 (drop 16 b), tcp_urgent_pointer = take 2 (drop 18 b)\<rparr>"

definition udp_header_of :: "bytes \<Rightarrow> udp_header" where
  "udp_header_of b = \<lparr>udp_src_port = get16 b, udp_dst_port = get16 (drop 2 b),
     udp_length = get16 (drop 4 b), udp_checksum = take 2 (drop 6 b)\<rparr>"

definition icmp_header_of :: "bytes \<Rightarrow> icmp_header" where
  "icmp_header_of b = \<lparr>icmp_type = b ! 0, icmp_code = b ! 1, icmp_checksum = take 2 (drop 2 b)\<rparr>"

section \<open>The transport layer\<close>

datatype classifier_result = COk | NonIP | UnclassifiedL4 | FirstFragment | SubsequentFragment

datatype classifier_error = PacketLengthError | BadL3Checksum | BadL4Checksum
  | Ipv4MappedNotAllowed | JumbogramNotSupported

type_synonym classified = "(five_tuple \<times> (classifier_error + classifier_result)) option"

record classifier_options =
  ignore_truncated_packets :: bool
  ignore_bad_checksums :: bool

definition default_options :: classifier_options where
  "default_options = \<lparr>ignore_truncated_packets = False, ignore_bad_checksums = False\<rparr>"

definition get_ip_version :: "bytes \<Rightarrow> u8 option" where
  "get_ip_version b = (if b = [] then None else Some (drop_bit 4 (b ! 0 AND 0xF0)))"

definition checks_checksums :: "classifier_options \<Rightarrow> bool" where
  "checks_checksums opts \<longleftrightarrow> \<not> ignore_bad_checksums opts \<and> \<not> ignore_truncated_packets opts"

definition validate_inet_l4_checksum_with_5t :: "net_lib \<Rightarrow> five_tuple \<Rightarrow> bytes \<Rightarrow> bool" where
  "validate_inet_l4_checksum_with_5t N ft b = validate_inet_l4_checksum N (l3_type ft)
     (src_address ft) (dst_address ft) (l4_protocol ft) b"

definition classify_unclassified :: "five_tuple \<Rightarrow> classified" where
  "classify_unclassified ft = Some (ft\<lparr>src_port := 0, dst_port := 0\<rparr>, Inr UnclassifiedL4)"

definition classify_icmp :: "net_lib \<Rightarrow> five_tuple \<Rightarrow> bytes \<Rightarrow> classifier_options \<Rightarrow> classified" where
  "classify_icmp N ft b opts = do {
     hb \<leftarrow> slice 0 4 b;
     let h = icmp_header_of hb;
     let ft = ft\<lparr>src_port := ucast (icmp_type h), dst_port := ucast (icmp_code h)\<rparr>;
     Some (ft, if checks_checksums opts \<and> ip4sum N b \<noteq> 0 then Inl BadL4Checksum else Inr COk)
   }"

definition classify_icmpv6 :: "net_lib \<Rightarrow> five_tuple \<Rightarrow> bytes \<Rightarrow> classifier_options \<Rightarrow> classified" where
  "classify_icmpv6 N ft b opts = do {
     hb \<leftarrow> slice 0 4 b;
     let h = icmp_header_of hb;
     let ft = ft\<lparr>src_port := ucast (icmp_type h), dst_port := ucast (icmp_code h)\<rparr>;
     Some (ft, if checks_checksums opts \<and> \<not> validate_inet_l4_checksum_with_5t N ft b
       then Inl BadL4Checksum else Inr COk)
   }"

definition classify_tcp :: "net_lib \<Rightarrow> five_tuple \<Rightarrow> bytes \<Rightarrow> classifier_options \<Rightarrow> classified" where
  "classify_tcp N ft b opts =
     (if 20 > length b then Some (ft, Inl PacketLengthError)
      else if checks_checksums opts \<and> \<not> validate_inet_l4_checksum_with_5t N ft b
        then Some (ft, Inl BadL4Checksum)
      else let h = tcp_header_of (take 20 b);
               ft = ft\<lparr>src_port := tcp_src_port h, dst_port := tcp_dst_port h\<rparr>;
               data_offset = drop_bit 4 (tcp_data_offset_and_reserved h) * 4
           in if data_offset < 20 \<or> unat data_offset > length b
              then Some (ft, Inl PacketLengthError) else Some (ft, Inr COk))"

definition classify_udp :: "net_lib \<Rightarrow> five_tuple \<Rightarrow> bytes \<Rightarrow> classifier_options \<Rightarrow> classified" where
  "classify_udp N ft b opts =
     (if 8 > length b then Some (ft, Inl PacketLengthError)
      else let h = udp_header_of (take 8 b) in
        if checks_checksums opts \<and> udp_checksum h \<noteq> [0, 0] \<and>
           \<not> validate_inet_l4_checksum_with_5t N ft b
        then Some (ft, Inl BadL4Checksum)
        else let ft = ft\<lparr>src_port := udp_src_port h, dst_port := udp_dst_port h\<rparr>;
                 len = unat (udp_length h)
             in if (\<not> ignore_truncated_packets opts \<and> length b < len) \<or> length b > len
                then Some (ft, Inl PacketLengthError) else Some (ft, Inr COk))"

definition is_option_length_error :: "nat \<Rightarrow> u8 \<Rightarrow> nat \<Rightarrow> bool" where
  "is_option_length_error remaining_len next_header option_length \<longleftrightarrow>
     option_length > remaining_len \<or>
     (next_header \<noteq> NO_NEXT_HEADER \<and> option_length + 8 > remaining_len)"

section \<open>Extension headers\<close>

function classify_next_header :: "net_lib \<Rightarrow> five_tuple \<Rightarrow> bytes \<Rightarrow> u8 \<Rightarrow> classifier_options \<Rightarrow> classified"
  and skip_v6_option :: "net_lib \<Rightarrow> five_tuple \<Rightarrow> bytes \<Rightarrow> classifier_options \<Rightarrow> classified"
  and skip_auth_header :: "net_lib \<Rightarrow> five_tuple \<Rightarrow> bytes \<Rightarrow> classifier_options \<Rightarrow> classified"
  and classify_frag :: "net_lib \<Rightarrow> five_tuple \<Rightarrow> bytes \<Rightarrow> classifier_options \<Rightarrow> classified"
where
  "classify_next_header N ft b protocol opts =
     (let ft = ft\<lparr>l4_protocol := protocol\<rparr> in
      if protocol = HOPOPT then skip_v6_option N ft b opts
      else if protocol = ICMP then classify_icmp N ft b opts
      else if protocol = IPINIP then classify_unclassified ft
      else if protocol = TCP then classify_tcp N ft b opts
      else if protocol = UDP then classify_udp N ft b opts
      else if protocol = IPV6_ROUTE then skip_v6_option N ft b opts
      else if protocol = IPV6_FRAG then classify_frag N ft b opts
      else if protocol = AH then skip_auth_header N ft b opts
      else if protocol = IPV6_ICMP then classify_icmpv6 N ft b opts
      else if protocol = IPV6_OPTS then skip_v6_option N ft b opts
      else classify_unclassified ft)"
| "skip_v6_option N ft b opts =
     (if length b < 2 then None
      else let next_header = b ! 0; option_length = (unat (b ! 1) + 1) * 8 in
        if is_option_length_error (length b) next_header option_length
        then Some (ft, Inl PacketLengthError)
        else classify_next_header N ft (drop option_length b) next_header opts)"
| "skip_auth_header N ft b opts =
     (if length b < 2 then None
      else let next_header = b ! 0; option_length = (unat (b ! 1) + 2) * 4 in
        if is_option_length_error (length b) next_header option_length
        then Some (ft, Inl PacketLengthError)
        else classify_next_header N ft (drop option_length b) next_header opts)"
| "classify_frag N ft b opts =
     (if b = [] then None
      else let next_header = b ! 0; option_length = 8 in
        if is_option_length_error (length b) next_header option_length
        then Some (ft, Inl PacketLengthError)
        else if get16 (drop 2 b) AND 0xFFF8 \<noteq> 0 then Some (ft, Inr SubsequentFragment)
        else do {
          r \<leftarrow> classify_next_header N ft (drop option_length b) next_header opts;
          Some (fst r, Inr FirstFragment)
        })"
  by pat_completeness auto

text \<open>Every extension header that is stepped over has at least 8 bytes.\<close>

termination
  by (relation "measure (\<lambda>x. case x of Inl (Inl (N, ft, b, p, opts)) \<Rightarrow> 2 * length b + 1
      | Inl (Inr (N, ft, b, opts)) \<Rightarrow> 2 * length b
      | Inr (Inl (N, ft, b, opts)) \<Rightarrow> 2 * length b
      | Inr (Inr (N, ft, b, opts)) \<Rightarrow> 2 * length b)")
    (auto simp: is_option_length_error_def)

declare classify_next_header.simps [simp del] skip_v6_option.simps [simp del]
  skip_auth_header.simps [simp del] classify_frag.simps [simp del]

section \<open>The network layer\<close>

definition classify_ipv4 :: "net_lib \<Rightarrow> five_tuple \<Rightarrow> bytes \<Rightarrow> classifier_options \<Rightarrow> classified" where
  "classify_ipv4 N ft b opts =
     (let ft = ft\<lparr>l3_type := L3_Ipv4 N\<rparr> in
      if 20 > length b then Some (ft, Inl PacketLengthError)
      else let h = ipv4_header_of (take 20 b);
               header_length = unat (v4_vhl h AND 0x0F) * 4;
               total_length = unat (v4_total_length h) in
        if header_length < 20 then Some (ft, Inl PacketLengthError)
        else if checks_checksums opts \<and> header_length > length b
          then Some (ft, Inl PacketLengthError)
        else if checks_checksums opts \<and> ip4sum N (take header_length b) \<noteq> 0
          then Some (ft, Inl BadL3Checksum)
        else let ft = ft\<lparr>src_address := new_from_v4 N (v4_src_address h),
                         dst_address := new_from_v4 N (v4_dst_address h)\<rparr> in
          if v4_frag_offset h AND 0x1FFF \<noteq> 0
            then Some (ft\<lparr>l4_protocol := v4_proto h\<rparr>, Inr SubsequentFragment)
          else if (\<not> ignore_truncated_packets opts \<and> length b < total_length) \<or>
              length b > total_length \<or> header_length > length b
            then Some (ft, Inl PacketLengthError)
          else do {
            r \<leftarrow> classify_next_header N ft (drop header_length b) (v4_proto h) opts;
            Some (if v4_frag_offset h AND 0x2000 \<noteq> 0 then (fst r, Inr FirstFragment) else r)
          })"

definition classify_ipv6 :: "net_lib \<Rightarrow> five_tuple \<Rightarrow> bytes \<Rightarrow> classifier_options \<Rightarrow> classified" where
  "classify_ipv6 N ft b opts =
     (let ft = ft\<lparr>l3_type := L3_Ipv6 N\<rparr> in
      if 40 > length b then Some (ft, Inl PacketLengthError)
      else let h = ipv6_header_of (take 40 b) in
        if is_v4 N (v6_src_address h) \<or> is_v4 N (v6_dst_address h)
          then Some (ft, Inl Ipv4MappedNotAllowed)
        else let ft = ft\<lparr>src_address := v6_src_address h, dst_address := v6_dst_address h\<rparr>;
                 payload_length = unat (v6_payload_length h) in
          if payload_length = 0 \<and> v6_next_header h = 0
            then Some (ft, Inl JumbogramNotSupported)
          else if (\<not> ignore_truncated_packets opts \<and> length b - 40 < payload_length) \<or>
              length b - 40 > payload_length
            then Some (ft, Inl PacketLengthError)
          else classify_next_header N ft (drop 40 b) (v6_next_header h) opts)"

definition classify_l3 :: "net_lib \<Rightarrow> five_tuple \<Rightarrow> bytes \<Rightarrow> classifier_options \<Rightarrow> classified" where
  "classify_l3 N ft b opts =
     (if b = [] then Some (ft, Inl PacketLengthError)
      else do {
        v \<leftarrow> get_ip_version b;
        if v = 4 then classify_ipv4 N ft b opts
        else if v = 6 then classify_ipv6 N ft b opts
        else Some (ft, Inr NonIP)
      })"

definition classify_zdp :: "net_lib \<Rightarrow> five_tuple \<Rightarrow> bytes \<Rightarrow> classifier_options \<Rightarrow> classified" where
  "classify_zdp N ft b opts = classify_l3 N ft b opts"

definition classify_with_options :: "net_lib \<Rightarrow> five_tuple \<Rightarrow> bytes \<Rightarrow> classifier_options \<Rightarrow> classified" where
  "classify_with_options N ft b opts = classify_zdp N ft b opts"

definition classify :: "net_lib \<Rightarrow> five_tuple \<Rightarrow> bytes \<Rightarrow> classified" where
  "classify N ft b = classify_with_options N ft b default_options"

section \<open>When the classifier panics\<close>

text \<open>The bytes a protocol's handler reads before it checks any length.\<close>

definition l4_min :: "u8 \<Rightarrow> nat" where
  "l4_min p = (if p = HOPOPT \<or> p = IPV6_ROUTE \<or> p = IPV6_OPTS \<or> p = AH then 2
     else if p = IPV6_FRAG then 1 else if p = ICMP \<or> p = IPV6_ICMP then 4 else 0)"

lemma l4_min_le: "l4_min p \<le> 4"
  by (simp add: l4_min_def)

lemma leaf_panics:
  "classify_icmp N ft b opts = None \<longleftrightarrow> length b < 4"
  "classify_icmpv6 N ft b opts = None \<longleftrightarrow> length b < 4"
  "classify_tcp N ft b opts \<noteq> None" "classify_udp N ft b opts \<noteq> None"
  "classify_unclassified ft \<noteq> None"
  by (auto simp: classify_icmp_def classify_icmpv6_def classify_tcp_def classify_udp_def
      classify_unclassified_def slice_def Let_def)

lemma no_next_header: "classify_next_header N ft b NO_NEXT_HEADER opts \<noteq> None"
  by (simp add: classify_next_header.simps leaf_panics)

text \<open>
  An extension header is followed by at least 8 more bytes, or by none that are read: once
  the walk has started it never runs out of bytes.
\<close>

lemma next_header_after_option:
  assumes "\<not> is_option_length_error (length b) nh n"
    and "\<And>c p ft. length c < length b \<Longrightarrow> 8 \<le> length c \<Longrightarrow> classify_next_header N ft c p opts \<noteq> None"
    and "0 < n"
  shows "classify_next_header N ft (drop n b) nh opts \<noteq> None"
proof (cases "nh = NO_NEXT_HEADER")
  case True
  then show ?thesis by (simp add: no_next_header)
next
  case False
  then have "8 \<le> length (drop n b)" "length (drop n b) < length b"
    using assms(1,3) by (auto simp: is_option_length_error_def)
  then show ?thesis by (rule assms(2) [rotated])
qed

lemma next_header_total: "8 \<le> length b \<Longrightarrow> classify_next_header N ft b p opts \<noteq> None"
proof (induction b arbitrary: ft p rule: measure_induct_rule [where f = length])
  case (less b)
  note IH = next_header_after_option [OF _ less.IH, of b]
  have "skip_v6_option N ft b opts \<noteq> None" for ft
    using less.prems IH by (auto simp: skip_v6_option.simps Let_def)
  moreover have "skip_auth_header N ft b opts \<noteq> None" for ft
    using less.prems IH by (auto simp: skip_auth_header.simps Let_def)
  moreover have "classify_frag N ft b opts \<noteq> None" for ft
    using less.prems IH by (auto simp: classify_frag.simps Let_def)
  ultimately show ?case
    using less.prems by (auto simp: classify_next_header.simps leaf_panics Let_def simp del: not_None_eq)
qed

lemma skip_panics:
  "skip_v6_option N ft b opts = None \<longleftrightarrow> length b < 2"
  "skip_auth_header N ft b opts = None \<longleftrightarrow> length b < 2"
  "classify_frag N ft b opts = None \<longleftrightarrow> length b < 1"
  using next_header_after_option [OF _ next_header_total]
  by (auto simp: skip_v6_option.simps skip_auth_header.simps classify_frag.simps Let_def Suc_le_eq
      simp flip: not_less)

text \<open>
  C39: The transport classifier panics exactly when the payload behind the IP header is too
  short for the first bytes its protocol's handler reads: fewer than 4 bytes of ICMP or ICMPv6,
  fewer than 2 of an IPv6 option, routing or authentication header, none of a fragment
  header.  No later header of a chain of extension headers can make it panic.
\<close>

theorem classifier_panics_exactly_on_short_payload:
  "classify_next_header N ft b p opts = None \<longleftrightarrow> length b < l4_min p"
  unfolding classify_next_header.simps [of N ft b p opts] l4_min_def
  by (auto simp: leaf_panics skip_panics Let_def simp del: not_None_eq)

section \<open>What a classification says about the packet\<close>

text \<open>
  The specification: stepping over extension headers leads from one protocol and payload to
  another, and a 5-tuple describes a transport payload.
\<close>

inductive walks :: "u8 \<Rightarrow> bytes \<Rightarrow> u8 \<Rightarrow> bytes \<Rightarrow> bool" where
  walks_here: "walks p b p b"
| walks_option: "p \<in> {HOPOPT, IPV6_ROUTE, IPV6_OPTS} \<Longrightarrow> (unat (b ! 1) + 1) * 8 \<le> length b \<Longrightarrow>
    walks (b ! 0) (drop ((unat (b ! 1) + 1) * 8) b) q c \<Longrightarrow> walks p b q c"
| walks_auth: "(unat (b ! 1) + 2) * 4 \<le> length b \<Longrightarrow>
    walks (b ! 0) (drop ((unat (b ! 1) + 2) * 4) b) q c \<Longrightarrow> walks AH b q c"

definition extension :: "u8 \<Rightarrow> bool" where
  "extension p \<longleftrightarrow> p \<in> {HOPOPT, IPV6_ROUTE, IPV6_FRAG, AH, IPV6_OPTS}"

lemma walks_plain: "walks p b q c \<Longrightarrow> \<not> extension p \<Longrightarrow> q = p \<and> c = b"
  by (cases rule: walks.cases) (auto simp: extension_def)

definition describes :: "net_lib \<Rightarrow> classifier_options \<Rightarrow> five_tuple \<Rightarrow> u8 \<Rightarrow> bytes \<Rightarrow> classifier_result \<Rightarrow> bool" where
  "describes N opts ft p c r \<longleftrightarrow> l4_protocol ft = p \<and> \<not> extension p \<and>
     (if p = TCP then r = COk \<and> 20 \<le> length c \<and> src_port ft = get16 c \<and> dst_port ft = get16 (drop 2 c) \<and>
        (checks_checksums opts \<longrightarrow>
          validate_inet_l4_checksum N (l3_type ft) (src_address ft) (dst_address ft) TCP c)
      else if p = UDP then r = COk \<and> 8 \<le> length c \<and> src_port ft = get16 c \<and> dst_port ft = get16 (drop 2 c) \<and>
        length c \<le> unat (get16 (drop 4 c)) \<and>
        (\<not> ignore_truncated_packets opts \<longrightarrow> unat (get16 (drop 4 c)) = length c) \<and>
        (checks_checksums opts \<and> take 2 (drop 6 c) \<noteq> [0, 0] \<longrightarrow>
          validate_inet_l4_checksum N (l3_type ft) (src_address ft) (dst_address ft) UDP c)
      else if p = ICMP \<or> p = IPV6_ICMP then r = COk \<and> 4 \<le> length c \<and>
        src_port ft = ucast (c ! 0) \<and> dst_port ft = ucast (c ! 1)
      else r = UnclassifiedL4 \<and> src_port ft = 0 \<and> dst_port ft = 0)"

definition plain_result :: "classifier_result \<Rightarrow> bool" where
  "plain_result r \<longleftrightarrow> r = COk \<or> r = UnclassifiedL4"

lemma get16_take: "2 \<le> n \<Longrightarrow> get16 (take n b) = get16 b"
  by (simp add: get16_def min_def)

lemma get16_drop_take: "m + 2 \<le> n \<Longrightarrow> get16 (drop m (take n b)) = get16 (drop m b)"
  by (simp add: get16_def drop_take min_def)

text \<open>The handlers of the transport protocols.\<close>

lemma tcp_describes:
  assumes "classify_tcp N ft b opts = Some (ft', Inr r)" "l4_protocol ft = TCP"
  shows "describes N opts ft' TCP b r" "\<exists>sp dp. ft' = ft\<lparr>src_port := sp, dst_port := dp\<rparr>"
  using assms by (auto simp: classify_tcp_def describes_def extension_def tcp_header_of_def
      validate_inet_l4_checksum_with_5t_def Let_def get16_take get16_drop_take split: if_splits)

lemma udp_describes:
  assumes "classify_udp N ft b opts = Some (ft', Inr r)" "l4_protocol ft = UDP"
  shows "describes N opts ft' UDP b r" "\<exists>sp dp. ft' = ft\<lparr>src_port := sp, dst_port := dp\<rparr>"
  using assms by (auto simp: classify_udp_def describes_def extension_def udp_header_of_def
      validate_inet_l4_checksum_with_5t_def Let_def get16_take get16_drop_take drop_take min_def split: if_splits)

lemma icmp_describes:
  assumes "classify_icmp N ft b opts = Some (ft', Inr r)" "l4_protocol ft = ICMP"
  shows "describes N opts ft' ICMP b r" "\<exists>sp dp. ft' = ft\<lparr>src_port := sp, dst_port := dp\<rparr>"
  using assms by (auto simp: classify_icmp_def describes_def extension_def icmp_header_of_def
      slice_def Let_def split: if_splits)

lemma icmpv6_describes:
  assumes "classify_icmpv6 N ft b opts = Some (ft', Inr r)" "l4_protocol ft = IPV6_ICMP"
  shows "describes N opts ft' IPV6_ICMP b r" "\<exists>sp dp. ft' = ft\<lparr>src_port := sp, dst_port := dp\<rparr>"
  using assms by (auto simp: classify_icmpv6_def describes_def extension_def icmp_header_of_def
      slice_def Let_def split: if_splits)

lemma unclassified_describes:
  assumes "classify_unclassified ft = Some (ft', Inr r)" "l4_protocol ft = p" "\<not> extension p"
    "p \<notin> {TCP, UDP, ICMP, IPV6_ICMP}"
  shows "describes N opts ft' p b r" "\<exists>sp dp. ft' = ft\<lparr>src_port := sp, dst_port := dp\<rparr>"
  using assms by (auto simp: classify_unclassified_def describes_def)

text \<open>The walk over the extension headers.\<close>

definition found :: "net_lib \<Rightarrow> classifier_options \<Rightarrow> five_tuple \<Rightarrow> five_tuple \<Rightarrow> u8 \<Rightarrow> bytes \<Rightarrow> classifier_result \<Rightarrow> bool" where
  "found N opts ft ft' p b r \<longleftrightarrow> (\<exists>q c. walks p b q c \<and> describes N opts ft' q c r \<and>
     l3_type ft' = l3_type ft \<and> src_address ft' = src_address ft \<and> dst_address ft' = dst_address ft)"

lemma found_leaf:
  assumes "describes N opts ft' p b r" "\<exists>sp dp. ft' = (ft\<lparr>l4_protocol := p\<rparr>)\<lparr>src_port := sp, dst_port := dp\<rparr>"
  shows "found N opts ft ft' p b r"
  unfolding found_def using assms by (intro exI [of _ p] exI [of _ b]) (auto intro: walks_here)

lemma found_option:
  assumes "p \<in> {HOPOPT, IPV6_ROUTE, IPV6_OPTS}"
    "skip_v6_option N (ft\<lparr>l4_protocol := p\<rparr>) b opts = Some (ft', Inr r)"
    "\<And>c q ft. length c < length b \<Longrightarrow> classify_next_header N ft c q opts = Some (ft', Inr r) \<Longrightarrow>
      found N opts ft ft' q c r"
  shows "found N opts ft ft' p b r"
proof -
  let ?n = "(unat (b ! 1) + 1) * 8"
  have r: "classify_next_header N (ft\<lparr>l4_protocol := p\<rparr>) (drop ?n b) (b ! 0) opts = Some (ft', Inr r)"
    and n: "?n \<le> length b" "length (drop ?n b) < length b"
    using assms(2) by (auto simp: skip_v6_option.simps Let_def is_option_length_error_def split: if_splits)
  then have "found N opts (ft\<lparr>l4_protocol := p\<rparr>) ft' (b ! 0) (drop ?n b) r" using assms(3) by blast
  then show ?thesis using walks_option [OF assms(1) n(1)] by (auto simp: found_def)
qed

lemma found_auth:
  assumes "skip_auth_header N (ft\<lparr>l4_protocol := AH\<rparr>) b opts = Some (ft', Inr r)"
    "\<And>c q ft. length c < length b \<Longrightarrow> classify_next_header N ft c q opts = Some (ft', Inr r) \<Longrightarrow>
      found N opts ft ft' q c r"
  shows "found N opts ft ft' AH b r"
proof -
  let ?n = "(unat (b ! 1) + 2) * 4"
  have r: "classify_next_header N (ft\<lparr>l4_protocol := AH\<rparr>) (drop ?n b) (b ! 0) opts = Some (ft', Inr r)"
    and n: "?n \<le> length b" "length (drop ?n b) < length b"
    using assms(1) by (auto simp: skip_auth_header.simps Let_def is_option_length_error_def split: if_splits)
  then have "found N opts (ft\<lparr>l4_protocol := AH\<rparr>) ft' (b ! 0) (drop ?n b) r" using assms(2) by blast
  then show ?thesis using walks_auth [OF n(1)] by (auto simp: found_def)
qed

lemma frag_not_plain:
  "classify_frag N ft b opts = Some (ft', Inr r) \<Longrightarrow> \<not> plain_result r"
  by (auto simp: classify_frag.simps plain_result_def Let_def elim!: bind_SomeE split: if_splits)

lemma next_header_sound:
  assumes "classify_next_header N ft b p opts = Some (ft', Inr r)" "plain_result r"
  shows "found N opts ft ft' p b r"
  using assms(1)
proof (induction b arbitrary: ft p rule: measure_induct_rule [where f = length])
  case (less b)
  let ?ft = "ft\<lparr>l4_protocol := p\<rparr>"
  have L: "l4_protocol ?ft = p" by simp
  consider (opt) "p \<in> {HOPOPT, IPV6_ROUTE, IPV6_OPTS}" | (ah) "p = AH" | (frag) "p = IPV6_FRAG"
    | (tcp) "p = TCP" | (udp) "p = UDP" | (icmp) "p = ICMP" | (icmp6) "p = IPV6_ICMP"
    | (other) "\<not> extension p" "p \<notin> {TCP, UDP, ICMP, IPV6_ICMP}"
    unfolding extension_def by blast
  then show ?case
  proof cases
    case opt
    then have "skip_v6_option N ?ft b opts = Some (ft', Inr r)"
      using less.prems by (auto simp: classify_next_header.simps Let_def)
    then show ?thesis using found_option [OF opt] less.IH by blast
  next
    case ah
    then show ?thesis
      using less.prems found_auth [OF _ less.IH] by (auto simp: classify_next_header.simps Let_def)
  next
    case frag
    then show ?thesis
      using less.prems assms(2) by (auto simp: classify_next_header.simps Let_def dest: frag_not_plain)
  next
    case tcp
    then have "classify_tcp N ?ft b opts = Some (ft', Inr r)"
      using less.prems by (simp add: classify_next_header.simps Let_def)
    then show ?thesis using tcp_describes tcp by (intro found_leaf) auto
  next
    case udp
    then have "classify_udp N ?ft b opts = Some (ft', Inr r)"
      using less.prems by (simp add: classify_next_header.simps Let_def)
    then show ?thesis using udp_describes udp by (intro found_leaf) auto
  next
    case icmp
    then have "classify_icmp N ?ft b opts = Some (ft', Inr r)"
      using less.prems by (simp add: classify_next_header.simps Let_def)
    then show ?thesis using icmp_describes icmp by (intro found_leaf) auto
  next
    case icmp6
    then have "classify_icmpv6 N ?ft b opts = Some (ft', Inr r)"
      using less.prems by (simp add: classify_next_header.simps Let_def)
    then show ?thesis using icmpv6_describes icmp6 by (intro found_leaf) auto
  next
    case other
    then have "classify_unclassified ?ft = Some (ft', Inr r)"
      using less.prems by (auto simp: classify_next_header.simps Let_def extension_def split: if_splits)
    then show ?thesis using unclassified_describes [OF _ L other] by (intro found_leaf) auto
  qed
qed

text \<open>The network headers.\<close>

definition ip_header :: "net_lib \<Rightarrow> five_tuple \<Rightarrow> bytes \<Rightarrow> nat \<Rightarrow> u8 \<Rightarrow> bool" where
  "ip_header N ft b off p \<longleftrightarrow> off \<le> length b \<and>
     (if l3_type ft = L3_Ipv4 N then
        get_ip_version b = Some 4 \<and> 20 \<le> off \<and> off = unat (b ! 0 AND 0x0F) * 4 \<and>
        unat (get16 (drop 2 b)) = length b \<and> get16 (drop 6 b) AND 0x1FFF = 0 \<and>
        get16 (drop 6 b) AND 0x2000 = 0 \<and> ip4sum N (take off b) = 0 \<and> p = b ! 9 \<and>
        src_address ft = new_from_v4 N (take 4 (drop 12 b)) \<and>
        dst_address ft = new_from_v4 N (take 4 (drop 16 b))
      else
        l3_type ft = L3_Ipv6 N \<and> get_ip_version b = Some 6 \<and> off = 40 \<and>
        40 + unat (get16 (drop 4 b)) = length b \<and> p = b ! 6 \<and>
        src_address ft = take 16 (drop 8 b) \<and> dst_address ft = take 16 (drop 24 b) \<and>
        \<not> is_v4 N (src_address ft) \<and> \<not> is_v4 N (dst_address ft))"

lemma header_of_take:
  "ipv4_header_of (take 20 b) = ipv4_header_of b" "ipv6_header_of (take 40 b) = ipv6_header_of b"
  by (simp_all add: ipv4_header_of_def ipv6_header_of_def drop_take get16_take min_def)

lemmas default_opts_simps = default_options_def checks_checksums_def

text \<open>A classification of a plain packet has passed every check on the network header.\<close>

lemma classify_ipv4_plain:
  assumes "classify_ipv4 N ft0 b default_options = Some (ft, Inr r)" "plain_result r"
    and h: "h = ipv4_header_of b" "off = unat (v4_vhl h AND 0x0F) * 4"
  shows "classify_next_header N (ft0\<lparr>l3_type := L3_Ipv4 N, src_address := new_from_v4 N (v4_src_address h),
      dst_address := new_from_v4 N (v4_dst_address h)\<rparr>) (drop off b) (v4_proto h) default_options = Some (ft, Inr r)"
    "20 \<le> off" "off \<le> length b" "unat (v4_total_length h) = length b" "v4_frag_offset h AND 0x1FFF = 0"
    "v4_frag_offset h AND 0x2000 = 0" "ip4sum N (take off b) = 0"
  using assms(1) [unfolded classify_ipv4_def header_of_take, folded h] assms(2)
  by (auto simp: Let_def default_opts_simps plain_result_def h(2) not_less elim!: bind_SomeE split: if_splits)

lemma ipv4_sound:
  assumes "classify_ipv4 N ft0 b default_options = Some (ft, Inr r)" "plain_result r"
    "get_ip_version b = Some 4"
  shows "\<exists>off p q c. ip_header N ft b off p \<and> walks p (drop off b) q c \<and> describes N default_options ft q c r"
proof -
  note h = classify_ipv4_plain [OF assms(1,2) refl refl]
  from next_header_sound [OF h(1) assms(2)] obtain q c
    where *: "walks (b ! 9) (drop (unat (b ! 0 AND 0x0F) * 4) b) q c" "describes N default_options ft q c r"
    "l3_type ft = L3_Ipv4 N" "src_address ft = new_from_v4 N (take 4 (drop 12 b))"
    "dst_address ft = new_from_v4 N (take 4 (drop 16 b))"
    by (auto simp: found_def ipv4_header_of_def)
  then have "ip_header N ft b (unat (b ! 0 AND 0x0F) * 4) (b ! 9)"
    using h(2-) assms(3) unfolding ip_header_def ipv4_header_of_def by simp
  with * show ?thesis by blast
qed

lemma classify_ipv6_plain:
  assumes "classify_ipv6 N ft0 b default_options = Some (ft, Inr r)" and h: "h = ipv6_header_of b"
  shows "classify_next_header N (ft0\<lparr>l3_type := L3_Ipv6 N, src_address := v6_src_address h,
      dst_address := v6_dst_address h\<rparr>) (drop 40 b) (v6_next_header h) default_options = Some (ft, Inr r)"
    "40 \<le> length b" "40 + unat (v6_payload_length h) = length b"
    "\<not> is_v4 N (v6_src_address h)" "\<not> is_v4 N (v6_dst_address h)"
  using assms(1) [unfolded classify_ipv6_def header_of_take, folded h]
  by (auto simp: Let_def default_opts_simps not_less split: if_splits)

lemma ipv6_sound:
  assumes "classify_ipv6 N ft0 b default_options = Some (ft, Inr r)" "plain_result r"
    "get_ip_version b = Some 6" "L3_Ipv4 N \<noteq> L3_Ipv6 N"
  shows "\<exists>off p q c. ip_header N ft b off p \<and> walks p (drop off b) q c \<and> describes N default_options ft q c r"
proof -
  note h = classify_ipv6_plain [OF assms(1) refl]
  from next_header_sound [OF h(1) assms(2)] obtain q c
    where *: "walks (b ! 6) (drop 40 b) q c" "describes N default_options ft q c r"
    "l3_type ft = L3_Ipv6 N" "src_address ft = take 16 (drop 8 b)" "dst_address ft = take 16 (drop 24 b)"
    by (auto simp: found_def ipv6_header_of_def)
  then have "ip_header N ft b 40 (b ! 6)"
    using h(2-) assms(3,4) unfolding ip_header_def ipv6_header_of_def by simp
  with * show ?thesis by blast
qed

lemma classify_sound:
  assumes "classify N ft0 b = Some (ft, Inr r)" "plain_result r" "L3_Ipv4 N \<noteq> L3_Ipv6 N"
  shows "\<exists>off p q c. ip_header N ft b off p \<and> walks p (drop off b) q c \<and> describes N default_options ft q c r"
proof -
  from assms(1,2) obtain v where v: "get_ip_version b = Some v"
    "v = 4 \<and> classify_ipv4 N ft0 b default_options = Some (ft, Inr r) \<or>
     v = 6 \<and> classify_ipv6 N ft0 b default_options = Some (ft, Inr r)"
    by (auto simp: classify_def classify_with_options_def classify_zdp_def classify_l3_def
        plain_result_def elim!: bind_SomeE split: if_splits)
  then show ?thesis using ipv4_sound ipv6_sound assms(2,3) by blast
qed

section \<open>A concrete library\<close>

text \<open>The Internet checksum and IPv4-mapped addresses, for the examples.\<close>

fun words16 :: "bytes \<Rightarrow> nat" where
  "words16 (a # b # bs) = unat a * 256 + unat b + words16 bs"
| "words16 [a] = unat a * 256"
| "words16 [] = 0"

definition carry :: "nat \<Rightarrow> nat" where
  "carry n = n mod 65536 + n div 65536"

definition demo_sum :: "bytes \<Rightarrow> u16" where
  "demo_sum bs = NOT (of_nat (carry (carry (words16 bs))))"

definition demo_pseudo :: "bytes \<Rightarrow> bytes \<Rightarrow> u8 \<Rightarrow> bytes \<Rightarrow> bytes" where
  "demo_pseudo s d p c = s @ d @ [0, p] @ be16 (of_nat (length c)) @ c"

definition demo_net :: net_lib where
  "demo_net = \<lparr>ip4sum = demo_sum,
     inet_l4_checksum = (\<lambda>l3 s d p c. be16 (demo_sum (demo_pseudo s d p c))),
     validate_inet_l4_checksum = (\<lambda>l3 s d p c. demo_sum (demo_pseudo s d p c) = 0),
     new_from_v4 = (\<lambda>a. [0, 0, 0, 0, 0, 0, 0, 0, 0, 0, 255, 255] @ a), read_as_v4 = drop 12,
     is_v4 = (\<lambda>a. take 12 a = [0, 0, 0, 0, 0, 0, 0, 0, 0, 0, 255, 255]),
     from_octets4 = (\<lambda>a. [0, 0, 0, 0, 0, 0, 0, 0, 0, 0, 255, 255] @ a), from_octets16 = (\<lambda>a. a),
     L3_Ipv4 = 4, L3_Ipv6 = 6, SOURCE_PORT_PRESENT = 1, DESTINATION_PORT_PRESENT = 2\<rparr>"

lemma demo_net_ok: "net_lib_ok demo_net"
  by (simp add: net_lib_ok_def demo_net_def)

definition demo_tuple :: five_tuple where
  "demo_tuple = \<lparr>src_address = replicate 16 0, dst_address = replicate 16 0, l3_type = 0,
     l4_protocol = 0, src_port = 0, dst_port = 0\<rparr>"

text \<open>A TCP packet from port 20 to port 80.\<close>

definition demo_tcp :: bytes where
  "demo_tcp =
    [0x45, 0x00, 0x00, 0x28, 0x00, 0x01, 0x00, 0x00,
     0x40, 0x06, 0x70, 0xC6, 0x01, 0x02, 0x03, 0x04,
     0x04, 0x03, 0x02, 0x01, 0x00, 0x14, 0x00, 0x50,
     0x00, 0x00, 0x00, 0x00, 0x00, 0x00, 0x00, 0x00,
     0x50, 0x02, 0x20, 0x00, 0x85, 0x75, 0x00, 0x00]"

definition demo_tcp_tuple :: five_tuple where
  "demo_tcp_tuple = \<lparr>src_address = [0, 0, 0, 0, 0, 0, 0, 0, 0, 0, 255, 255, 1, 2, 3, 4],
     dst_address = [0, 0, 0, 0, 0, 0, 0, 0, 0, 0, 255, 255, 4, 3, 2, 1], l3_type = 4, l4_protocol = 6,
     src_port = 20, dst_port = 80\<rparr>"

lemma demo_tcp_classified: "classify demo_net demo_tuple demo_tcp = Some (demo_tcp_tuple, Inr COk)"
  by (simp add: classify_def classify_with_options_def classify_zdp_def classify_l3_def
      get_ip_version_def demo_tcp_def,
      simp add: classify_ipv4_def default_options_def checks_checksums_def ipv4_header_of_def
      Let_def demo_net_def demo_sum_def carry_def get16_def of_be_def,
      simp add: classify_next_header.simps Let_def,
      simp add: classify_tcp_def checks_checksums_def tcp_header_of_def Let_def get16_def of_be_def
      validate_inet_l4_checksum_with_5t_def,
      simp add: demo_pseudo_def be16_bytes carry_def demo_tuple_def demo_tcp_tuple_def demo_sum_def)



end
