(* ===== verification/Tc.thy ===== *)
theory Tc
  imports Classifier
begin

text \<open>
  Traffic classifiers (\<open>adapter/ph/src/tc.rs\<close>): a 5-tuple whose zero ports are
  wildcards, its wire format, and matching.  \<open>serialize_tc\<close> is the byte string that is
  appended to the output buffer; \<open>deserialize_tc\<close> returns what is left of the input.
\<close>

section \<open>Classifiers\<close>

type_synonym ip5tuple_tc = five_tuple

definition compression_mode :: "net_lib \<Rightarrow> ip5tuple_tc \<Rightarrow> u8" where
  "compression_mode N tc =
     (0 OR (if src_port tc \<noteq> 0 then SOURCE_PORT_PRESENT N else 0)) OR
     (if dst_port tc \<noteq> 0 then DESTINATION_PORT_PRESENT N else 0)"

text \<open>The flags of the wire format (\<open>zdp.rs\<close>).\<close>

abbreviation (input) TC_DESTINATION_PORT_PRESENT :: u8 where "TC_DESTINATION_PORT_PRESENT \<equiv> 1"
abbreviation (input) TC_SOURCE_PORT_PRESENT :: u8 where "TC_SOURCE_PORT_PRESENT \<equiv> 2"
abbreviation (input) TC_IPV4 :: u8 where "TC_IPV4 \<equiv> 4"

definition tc_flags :: "net_lib \<Rightarrow> ip5tuple_tc \<Rightarrow> u8 option" where
  "tc_flags N tc = do {
     fl \<leftarrow> (if l3_type tc = L3_Ipv4 N then Some TC_IPV4
           else if l3_type tc = L3_Ipv6 N then Some 0 else None);
     let fl = (if src_port tc \<noteq> 0 then fl OR TC_SOURCE_PORT_PRESENT else fl);
     Some (if dst_port tc \<noteq> 0 then fl OR TC_DESTINATION_PORT_PRESENT else fl)
   }"

definition serialize_tc :: "net_lib \<Rightarrow> ip5tuple_tc \<Rightarrow> bytes option" where
  "serialize_tc N tc = do {
     fl \<leftarrow> tc_flags N tc;
     addrs \<leftarrow> (if l3_type tc = L3_Ipv4 N
                then Some (read_as_v4 N (src_address tc) @ read_as_v4 N (dst_address tc))
              else if l3_type tc = L3_Ipv6 N then Some (src_address tc @ dst_address tc)
              else None);
     Some ([fl, l4_protocol tc] @ addrs @
       (if src_port tc \<noteq> 0 then be16 (src_port tc) else []) @
       (if dst_port tc \<noteq> 0 then be16 (dst_port tc) else []))
   }"

definition buf_get_ipv4 :: "net_lib \<Rightarrow> bytes \<Rightarrow> bytes \<times> bytes" where
  "buf_get_ipv4 N bs = (from_octets4 N (take 4 bs), drop 4 bs)"

definition buf_get_ipv6 :: "net_lib \<Rightarrow> bytes \<Rightarrow> bytes \<times> bytes" where
  "buf_get_ipv6 N bs = (from_octets16 N (take 16 bs), drop 16 bs)"

definition try_get_port :: "bool \<Rightarrow> bytes \<Rightarrow> (u16 \<times> bytes) option" where
  "try_get_port present bs = (if \<not> present then Some (0, bs)
     else if length bs < 2 then None else Some (get16 bs, drop 2 bs))"

text \<open>\<open>None\<close> is the error \<open>Err(())\<close>.\<close>

definition deserialize_tc :: "net_lib \<Rightarrow> bytes \<Rightarrow> (ip5tuple_tc \<times> bytes) option" where
  "deserialize_tc N bs =
     (if length bs < 2 then None
      else let fl = bs ! 0; proto = bs ! 1; bs = drop 2 bs in do {
        (l3, src, dst, bs) \<leftarrow>
          (if fl AND TC_IPV4 \<noteq> 0 then
             if length bs < 2 * 4 then None
             else let (src, bs) = buf_get_ipv4 N bs; (dst, bs) = buf_get_ipv4 N bs
                  in Some (L3_Ipv4 N, src, dst, bs)
           else
             if length bs < 2 * 16 then None
             else let (src, bs) = buf_get_ipv6 N bs; (dst, bs) = buf_get_ipv6 N bs
                  in Some (L3_Ipv6 N, src, dst, bs));
        (sp, bs) \<leftarrow> try_get_port (fl AND TC_SOURCE_PORT_PRESENT \<noteq> 0) bs;
        (dp, bs) \<leftarrow> try_get_port (fl AND TC_DESTINATION_PORT_PRESENT \<noteq> 0) bs;
        Some (\<lparr>src_address = src, dst_address = dst, l3_type = l3, l4_protocol = proto,
          src_port = sp, dst_port = dp\<rparr>, bs)
      })"

definition classify_5t :: "ip5tuple_tc \<Rightarrow> five_tuple \<Rightarrow> bool" where
  "classify_5t tc ft =
     (if l3_type ft \<noteq> l3_type tc then False
      else if src_address ft \<noteq> src_address tc \<or> dst_address ft \<noteq> dst_address tc then False
      else if l4_protocol ft \<noteq> l4_protocol tc then False
      else if src_port tc \<noteq> 0 \<and> src_port ft \<noteq> src_port tc then False
      else if dst_port tc \<noteq> 0 \<and> dst_port ft \<noteq> dst_port tc then False
      else True)"

text \<open>\<open>ft0\<close> is the default 5-tuple the classifier starts from.\<close>

definition classify_packet :: "net_lib \<Rightarrow> five_tuple \<Rightarrow> ip5tuple_tc \<Rightarrow> u8 \<Rightarrow> bytes \<Rightarrow> bool option" where
  "classify_packet N ft0 tc l3 b = do {
     (ft, r) \<leftarrow> classify N ft0 b;
     Some (case r of Inl _ \<Rightarrow> False
       | Inr c \<Rightarrow> if \<not> (c = COk \<or> c = UnclassifiedL4) then False
                  else if l3_type ft \<noteq> l3 then False
                  else classify_5t tc ft)
   }"

section \<open>The wire format\<close>

text \<open>A classifier whose addresses have the form of its layer-3 type.\<close>

definition wf_tc :: "net_lib \<Rightarrow> ip5tuple_tc \<Rightarrow> bool" where
  "wf_tc N tc \<longleftrightarrow>
     (l3_type tc = L3_Ipv4 N \<and> (\<exists>a b. length a = 4 \<and> length b = 4 \<and>
        src_address tc = new_from_v4 N a \<and> dst_address tc = new_from_v4 N b)) \<or>
     (l3_type tc = L3_Ipv6 N \<and> length (src_address tc) = 16 \<and> length (dst_address tc) = 16)"

text \<open>The flags byte carries the three facts it is made of.\<close>

lemma tc_flags_v4:
  assumes "net_lib_ok N" "l3_type tc = L3_Ipv4 N"
  shows "\<exists>fl. tc_flags N tc = Some fl \<and> fl AND 4 \<noteq> 0 \<and> (fl AND 2 \<noteq> 0 \<longleftrightarrow> src_port tc \<noteq> 0) \<and>
    (fl AND 1 \<noteq> 0 \<longleftrightarrow> dst_port tc \<noteq> 0)"
  using assms by (auto simp: tc_flags_def net_lib_ok_def Let_def)

lemma tc_flags_v6:
  assumes "net_lib_ok N" "l3_type tc = L3_Ipv6 N"
  shows "\<exists>fl. tc_flags N tc = Some fl \<and> fl AND 4 = 0 \<and> (fl AND 2 \<noteq> 0 \<longleftrightarrow> src_port tc \<noteq> 0) \<and>
    (fl AND 1 \<noteq> 0 \<longleftrightarrow> dst_port tc \<noteq> 0)"
  using assms by (auto simp: tc_flags_def net_lib_ok_def Let_def)

definition port_bytes :: "u16 \<Rightarrow> bytes" where
  "port_bytes p = (if p \<noteq> 0 then be16 p else [])"

lemma try_get_port_bytes: "present \<longleftrightarrow> p \<noteq> 0 \<Longrightarrow> try_get_port present (port_bytes p @ rest) = Some (p, rest)"
  by (simp add: try_get_port_def port_bytes_def codec_simps)

lemma try_get_port_short:
  "present \<longleftrightarrow> p \<noteq> 0 \<Longrightarrow> k < length (port_bytes p) \<Longrightarrow> try_get_port present (take k (port_bytes p)) = None"
  by (auto simp: try_get_port_def port_bytes_def split: if_splits)

text \<open>The layout of a serialised classifier, for both address families.\<close>

lemma serialize_tc_v4:
  assumes "net_lib_ok N" "l3_type tc = L3_Ipv4 N" "length a = 4" "length b = 4"
    "src_address tc = new_from_v4 N a" "dst_address tc = new_from_v4 N b"
  shows "\<exists>fl. serialize_tc N tc = Some ([fl, l4_protocol tc] @ a @ b @ port_bytes (src_port tc) @ port_bytes (dst_port tc)) \<and>
    fl AND 4 \<noteq> 0 \<and> (fl AND 2 \<noteq> 0 \<longleftrightarrow> src_port tc \<noteq> 0) \<and> (fl AND 1 \<noteq> 0 \<longleftrightarrow> dst_port tc \<noteq> 0)"
  using tc_flags_v4 [OF assms(1,2)] assms
  by (auto simp: serialize_tc_def port_bytes_def net_lib_ok_def)

lemma serialize_tc_v6:
  assumes "net_lib_ok N" "l3_type tc = L3_Ipv6 N"
  shows "\<exists>fl. serialize_tc N tc = Some ([fl, l4_protocol tc] @ src_address tc @ dst_address tc @
      port_bytes (src_port tc) @ port_bytes (dst_port tc)) \<and>
    fl AND 4 = 0 \<and> (fl AND 2 \<noteq> 0 \<longleftrightarrow> src_port tc \<noteq> 0) \<and> (fl AND 1 \<noteq> 0 \<longleftrightarrow> dst_port tc \<noteq> 0)"
  using tc_flags_v6 [OF assms(1,2)] assms
  by (auto simp: serialize_tc_def port_bytes_def net_lib_ok_def)

text \<open>Reading such a layout: the addresses, then the ports, whatever follows them.\<close>

definition read_ports :: "u8 \<Rightarrow> bytes \<Rightarrow> (u16 \<times> u16 \<times> bytes) option" where
  "read_ports fl bs = do {
     (sp, bs) \<leftarrow> try_get_port (fl AND TC_SOURCE_PORT_PRESENT \<noteq> 0) bs;
     (dp, bs) \<leftarrow> try_get_port (fl AND TC_DESTINATION_PORT_PRESENT \<noteq> 0) bs;
     Some (sp, dp, bs)
   }"

lemma read_ports_bytes:
  assumes "fl AND 2 \<noteq> 0 \<longleftrightarrow> sp \<noteq> 0" "fl AND 1 \<noteq> 0 \<longleftrightarrow> dp \<noteq> 0"
  shows "read_ports fl (port_bytes sp @ port_bytes dp @ rest) = Some (sp, dp, rest)"
  using assms by (simp add: read_ports_def try_get_port_bytes)

lemma read_ports_short:
  assumes "fl AND 2 \<noteq> 0 \<longleftrightarrow> sp \<noteq> 0" "fl AND 1 \<noteq> 0 \<longleftrightarrow> dp \<noteq> 0" "k < length (port_bytes sp @ port_bytes dp)"
  shows "read_ports fl (take k (port_bytes sp @ port_bytes dp)) = None"
proof (cases "k < length (port_bytes sp)")
  case True
  then show ?thesis using try_get_port_short [OF assms(1) True] by (simp add: read_ports_def)
next
  case False
  then have "take k (port_bytes sp @ port_bytes dp) = port_bytes sp @ take (k - length (port_bytes sp)) (port_bytes dp)"
    and "k - length (port_bytes sp) < length (port_bytes dp)" using assms(3) by auto
  then show ?thesis
    using try_get_port_bytes [OF assms(1)] try_get_port_short [OF assms(2)] by (simp add: read_ports_def)
qed

lemma deserialize_tc_v4:
  assumes "fl AND 4 \<noteq> 0" "length a = 4" "length b = 4"
  shows "deserialize_tc N ([fl, proto] @ a @ b @ bs) = map_option (\<lambda>(sp, dp, rest).
    (\<lparr>src_address = from_octets4 N a, dst_address = from_octets4 N b, l3_type = L3_Ipv4 N,
      l4_protocol = proto, src_port = sp, dst_port = dp\<rparr>, rest)) (read_ports fl bs)"
  using assms by (auto simp: deserialize_tc_def buf_get_ipv4_def read_ports_def Let_def
      split: bind_splits)

lemma deserialize_tc_v6:
  assumes "fl AND 4 = 0" "length a = 16" "length b = 16"
  shows "deserialize_tc N ([fl, proto] @ a @ b @ bs) = map_option (\<lambda>(sp, dp, rest).
    (\<lparr>src_address = from_octets16 N a, dst_address = from_octets16 N b, l3_type = L3_Ipv6 N,
      l4_protocol = proto, src_port = sp, dst_port = dp\<rparr>, rest)) (read_ports fl bs)"
  using assms by (auto simp: deserialize_tc_def buf_get_ipv6_def read_ports_def Let_def
      split: bind_splits)

text \<open>A truncated classifier is refused, wherever it is cut.\<close>

lemma deserialize_tc_short:
  assumes "bs = [fl, proto] @ addrs" "length addrs < 2 * (if fl AND 4 \<noteq> 0 then 4 else 16)"
  shows "deserialize_tc N bs = None"
  using assms by (auto simp: deserialize_tc_def Let_def split: if_splits)

definition cut_refused :: "net_lib \<Rightarrow> bytes \<Rightarrow> bool" where
  "cut_refused N bs \<longleftrightarrow> (\<forall>k < length bs. deserialize_tc N (take k bs) = None)"

lemma cut_refusedI:
  assumes "length addrs = 2 * (if fl AND 4 \<noteq> 0 then 4 else 16)"
    and "\<And>bs. deserialize_tc N ([fl, proto] @ addrs @ bs) = None \<longleftrightarrow> read_ports fl bs = None"
    and "\<And>k. k < length ports \<Longrightarrow> read_ports fl (take k ports) = None"
  shows "cut_refused N ([fl, proto] @ addrs @ ports)"
  unfolding cut_refused_def
proof (intro allI impI)
  fix k assume k: "k < length ([fl, proto] @ addrs @ ports)"
  consider (hdr) "k < 2" | (addr) "2 \<le> k" "k < 2 + length addrs" | (port) "2 + length addrs \<le> k" by linarith
  then show "deserialize_tc N (take k ([fl, proto] @ addrs @ ports)) = None"
  proof cases
    case hdr
    then show ?thesis by (simp add: deserialize_tc_def)
  next
    case addr
    then have "take k ([fl, proto] @ addrs @ ports) = [fl, proto] @ take (k - 2) addrs"
      by (cases k; cases "k - 1") auto
    then show ?thesis using addr assms(1) by (intro deserialize_tc_short) auto
  next
    case port
    then have "take k ([fl, proto] @ addrs @ ports) = [fl, proto] @ addrs @ take (k - 2 - length addrs) ports"
      by (cases k; cases "k - 1") auto
    then show ?thesis using assms(2,3) k port by simp
  qed
qed

lemma tc_wire_layout:
  assumes fl: "fl AND 2 \<noteq> 0 \<longleftrightarrow> src_port tc \<noteq> 0" "fl AND 1 \<noteq> 0 \<longleftrightarrow> dst_port tc \<noteq> 0"
    and len: "length (a @ b) = 2 * (if fl AND 4 \<noteq> 0 then 4 else 16)"
    and read: "\<And>bs. deserialize_tc N ([fl, l4_protocol tc] @ a @ b @ bs) =
      map_option (\<lambda>(sp, dp, rest). (tc\<lparr>src_port := sp, dst_port := dp\<rparr>, rest)) (read_ports fl bs)"
    and bs: "bs = [fl, l4_protocol tc] @ a @ b @ port_bytes (src_port tc) @ port_bytes (dst_port tc)"
  shows "deserialize_tc N (bs @ rest) = Some (tc, rest)" "cut_refused N bs"
  using read read_ports_bytes [OF fl] read_ports_short [OF fl] bs
    cut_refusedI [OF len, of N "l4_protocol tc" "port_bytes (src_port tc) @ port_bytes (dst_port tc)"]
  by simp_all

text \<open>
  Traffic classifiers survive the wire.  Reading a serialised classifier gives it back and
  leaves exactly what followed it, and no truncation of a serialised classifier is accepted as
  a classifier.
\<close>

theorem tc_wire_roundtrip:
  assumes "net_lib_ok N" "wf_tc N tc"
  shows "\<exists>bs. serialize_tc N tc = Some bs \<and> (\<forall>rest. deserialize_tc N (bs @ rest) = Some (tc, rest)) \<and>
    (\<forall>k < length bs. deserialize_tc N (take k bs) = None)"
proof -
  from assms(2) show ?thesis unfolding wf_tc_def
  proof (elim disjE conjE exE)
    fix a b assume v4: "l3_type tc = L3_Ipv4 N" "length a = 4" "length b = 4"
      "src_address tc = new_from_v4 N a" "dst_address tc = new_from_v4 N b"
    obtain fl where fl: "serialize_tc N tc = Some ([fl, l4_protocol tc] @ a @ b @ port_bytes (src_port tc) @ port_bytes (dst_port tc))"
      "fl AND 4 \<noteq> 0" "fl AND 2 \<noteq> 0 \<longleftrightarrow> src_port tc \<noteq> 0" "fl AND 1 \<noteq> 0 \<longleftrightarrow> dst_port tc \<noteq> 0"
      using serialize_tc_v4 [OF assms(1) v4] by blast
    have oct: "from_octets4 N a = src_address tc" "from_octets4 N b = dst_address tc"
      using assms(1) v4 by (simp_all add: net_lib_ok_def)
    have read: "deserialize_tc N ([fl, l4_protocol tc] @ a @ b @ bs) =
        map_option (\<lambda>(sp, dp, rest). (tc\<lparr>src_port := sp, dst_port := dp\<rparr>, rest)) (read_ports fl bs)" for bs
      using deserialize_tc_v4 [OF fl(2) v4(2,3)] v4(1) oct by (cases tc) simp
    show ?thesis
      using tc_wire_layout [OF fl(3,4) _ read refl] fl(1,2) v4(2,3) by (simp add: cut_refused_def)
  next
    assume v6: "l3_type tc = L3_Ipv6 N" "length (src_address tc) = 16" "length (dst_address tc) = 16"
    obtain fl where fl: "serialize_tc N tc = Some ([fl, l4_protocol tc] @ src_address tc @ dst_address tc @
        port_bytes (src_port tc) @ port_bytes (dst_port tc))"
      "fl AND 4 = 0" "fl AND 2 \<noteq> 0 \<longleftrightarrow> src_port tc \<noteq> 0" "fl AND 1 \<noteq> 0 \<longleftrightarrow> dst_port tc \<noteq> 0"
      using serialize_tc_v6 [OF assms(1) v6(1)] by blast
    have oct: "from_octets16 N (src_address tc) = src_address tc" "from_octets16 N (dst_address tc) = dst_address tc"
      using assms(1) v6 by (simp_all add: net_lib_ok_def)
    have read: "deserialize_tc N ([fl, l4_protocol tc] @ src_address tc @ dst_address tc @ bs) =
        map_option (\<lambda>(sp, dp, rest). (tc\<lparr>src_port := sp, dst_port := dp\<rparr>, rest)) (read_ports fl bs)" for bs
      using deserialize_tc_v6 [OF fl(2) v6(2,3)] v6(1) oct by (cases tc) simp
    show ?thesis
      using tc_wire_layout [OF fl(3,4) _ read refl] fl(1,2) v6(2,3) by (simp add: cut_refused_def)
  qed
qed

theorem tc_wire_roundtrip_witness:
  "serialize_tc demo_net demo_tcp_tuple = Some [7, 6, 1, 2, 3, 4, 4, 3, 2, 1, 0, 20, 0, 80] \<and>
   deserialize_tc demo_net [7, 6, 1, 2, 3, 4, 4, 3, 2, 1, 0, 20, 0, 80, 9] = Some (demo_tcp_tuple, [9]) \<and>
   deserialize_tc demo_net [7, 6, 1, 2, 3, 4, 4, 3, 2, 1, 0, 20, 0] = None"
proof -
  have "wf_tc demo_net demo_tcp_tuple"
    unfolding wf_tc_def
    by (rule disjI1, intro conjI exI [of _ "[1, 2, 3, 4]"] exI [of _ "[4, 3, 2, 1]"])
      (simp_all add: demo_net_def demo_tcp_tuple_def)
  then obtain bs where bs: "serialize_tc demo_net demo_tcp_tuple = Some bs"
    "\<And>rest. deserialize_tc demo_net (bs @ rest) = Some (demo_tcp_tuple, rest)"
    "\<And>k. k < length bs \<Longrightarrow> deserialize_tc demo_net (take k bs) = None"
    using tc_wire_roundtrip [OF demo_net_ok] by blast
  have s: "serialize_tc demo_net demo_tcp_tuple = Some [7, 6, 1, 2, 3, 4, 4, 3, 2, 1, 0, 20, 0, 80]"
    by (simp add: serialize_tc_def tc_flags_def demo_net_def demo_tcp_tuple_def be16_bytes)
  with bs(1) have "bs = [7, 6, 1, 2, 3, 4, 4, 3, 2, 1, 0, 20, 0, 80]" by simp
  then show ?thesis using s bs(2) [of "[9]"] bs(3) [of 13] by simp
qed

end
