(* ===== verification/Compress.thy ===== *)
theory Compress
  imports Packet_View Tc
begin

text \<open>
  Header compression (\<open>adapter/ph/src/compress.rs\<close>): the fields that the receiver can
  recompute or knows from the traffic classifier are removed from the IP, TCP and UDP
  headers, and put back by \<open>expand\<close>.  The functions work on packets in place; the
  compression mode bits say which ports the classifier fixes, so that the packet need not
  carry them.
\<close>

section \<open>The transport headers\<close>

definition push_port_unless :: "bool \<Rightarrow> u16 \<Rightarrow> packet \<Rightarrow> packet option" where
  "push_port_unless known port p = (if known then Some p else push_u16 port p)"

definition port_or_read :: "bool \<Rightarrow> u16 \<Rightarrow> packet \<Rightarrow> (u16 \<times> packet) option" where
  "port_or_read known port p = (if known then Some (port, p) else get_u16 p)"

definition compress_tcp :: "net_lib \<Rightarrow> u8 \<Rightarrow> packet \<Rightarrow> packet option" where
  "compress_tcp N mode p = do {
     (src, p) \<leftarrow> get_u16 p;
     (dst, p) \<leftarrow> get_u16 p;
     p \<leftarrow> copy_within 0 (16 - 4) 2 p;
     p \<leftarrow> advance 2 p;
     p \<leftarrow> push_port_unless (mode AND DESTINATION_PORT_PRESENT N \<noteq> 0) dst p;
     push_port_unless (mode AND SOURCE_PORT_PRESENT N \<noteq> 0) src p
   }"

definition expand_tcp :: "net_lib \<Rightarrow> u8 \<Rightarrow> five_tuple \<Rightarrow> packet \<Rightarrow> packet option" where
  "expand_tcp N mode ft p = do {
     (src, p) \<leftarrow> port_or_read (mode AND SOURCE_PORT_PRESENT N \<noteq> 0) (src_port ft) p;
     (dst, p) \<leftarrow> port_or_read (mode AND DESTINATION_PORT_PRESENT N \<noteq> 0) (dst_port ft) p;
     p \<leftarrow> alloc_zeroed_headroom 2 p;
     p \<leftarrow> copy_within 2 (2 + 16 - 4) 0 p;
     p \<leftarrow> push_u16 dst p;
     p \<leftarrow> push_u16 src p;
     b \<leftarrow> body p;
     ensure (20 \<le> length b);
     p \<leftarrow> write_body 16 [0, 0] p;
     b \<leftarrow> body p;
     write_body 16 (inet_l4_checksum N (l3_type ft) (src_address ft) (dst_address ft) TCP b) p
   }"

definition compress_udp :: "net_lib \<Rightarrow> u8 \<Rightarrow> packet \<Rightarrow> packet option" where
  "compress_udp N mode p = do {
     (src, p) \<leftarrow> get_u16 p;
     (dst, p) \<leftarrow> get_u16 p;
     p \<leftarrow> advance 2 p;
     p \<leftarrow> push_port_unless (mode AND DESTINATION_PORT_PRESENT N \<noteq> 0) dst p;
     push_port_unless (mode AND SOURCE_PORT_PRESENT N \<noteq> 0) src p
   }"

definition expand_udp :: "net_lib \<Rightarrow> u8 \<Rightarrow> five_tuple \<Rightarrow> packet \<Rightarrow> packet option" where
  "expand_udp N mode ft p = do {
     (src, p) \<leftarrow> port_or_read (mode AND SOURCE_PORT_PRESENT N \<noteq> 0) (src_port ft) p;
     (dst, p) \<leftarrow> port_or_read (mode AND DESTINATION_PORT_PRESENT N \<noteq> 0) (dst_port ft) p;
     b \<leftarrow> body p;
     ensure (2 \<le> length b);
     let payload_len = length b - 2;
     p \<leftarrow> push_u16 (of_nat (payload_len + 8)) p;
     p \<leftarrow> push_u16 dst p;
     push_u16 src p
   }"

definition compress_l4 :: "net_lib \<Rightarrow> u8 \<Rightarrow> u8 \<Rightarrow> packet \<Rightarrow> packet option" where
  "compress_l4 N mode proto p =
     (if proto = TCP then compress_tcp N mode p
      else if proto = UDP then compress_udp N mode p else Some p)"

definition expand_l4 :: "net_lib \<Rightarrow> u8 \<Rightarrow> five_tuple \<Rightarrow> packet \<Rightarrow> packet option" where
  "expand_l4 N mode ft p =
     (if l4_protocol ft = TCP then expand_tcp N mode ft p
      else if l4_protocol ft = UDP then expand_udp N mode ft p else Some p)"

section \<open>The network headers\<close>

definition compress_ipv4 :: "net_lib \<Rightarrow> u8 \<Rightarrow> u8 \<Rightarrow> packet \<Rightarrow> packet option" where
  "compress_ipv4 N mode proto p = do {
     b \<leftarrow> body p;
     ensure (20 \<le> length b);
     let hdr = ipv4_header_of b;
     let hl = v4_vhl hdr AND 0x0F;
     let frag_flags = drop_bit 13 (v4_frag_offset hdr);
     let frag_offset = v4_frag_offset hdr AND 0x1FFF;
     p \<leftarrow> advance 20 p;
     p \<leftarrow> compress_l4 N mode proto p;
     p \<leftarrow> push_header [v4_ttl hdr] p;
     let frag_info_present = (frag_offset \<noteq> 0);
     p \<leftarrow> (if frag_info_present then push_header (be16 frag_offset) p else Some p);
     p \<leftarrow> push_header (v4_frag_id hdr) p;
     let hl_zdpflags = (push_bit 4 hl OR (if frag_info_present then 0x08 else 0)) OR ucast frag_flags;
     push_header [hl_zdpflags, v4_dscp hdr] p
   }"

definition expand_ipv4 :: "net_lib \<Rightarrow> u8 \<Rightarrow> five_tuple \<Rightarrow> packet \<Rightarrow> packet option" where
  "expand_ipv4 N mode ft p = do {
     (x, p) \<leftarrow> get_array 2 p;
     let hl_zdpflags = x ! 0;
     let tos = x ! 1;
     let hl = drop_bit 4 hl_zdpflags;
     let frag_info_present = (hl_zdpflags AND 0x08 \<noteq> 0);
     let frag_flags = hl_zdpflags AND 0x07;
     (frag_id, p) \<leftarrow> get_array 2 p;
     (frag_offset, p) \<leftarrow> (if frag_info_present then get_u16 p else Some (0, p));
     let frag_offset = frag_offset OR push_bit 13 (ucast frag_flags);
     (ttl, p) \<leftarrow> get_u8 p;
     p \<leftarrow> expand_l4 N mode ft p;
     b \<leftarrow> body p;
     let body_len = length b;
     p \<leftarrow> alloc_zeroed_headroom 20 p;
     p \<leftarrow> write_body 0 (ipv4_header_bytes \<lparr>v4_vhl = push_bit 4 4 OR hl, v4_dscp = tos,
       v4_total_length = of_nat (body_len + 20), v4_frag_id = frag_id,
       v4_frag_offset = frag_offset, v4_ttl = ttl, v4_proto = l4_protocol ft,
       v4_header_checksum = [0, 0], v4_src_address = read_as_v4 N (src_address ft),
       v4_dst_address = read_as_v4 N (dst_address ft)\<rparr>) p;
     let header_len = unat hl * 4;
     b \<leftarrow> body p;
     hb \<leftarrow> slice 0 header_len b;
     write_body 10 (be16 (ip4sum N hb)) p
   }"

definition compress_ipv6 :: "net_lib \<Rightarrow> u8 \<Rightarrow> u8 \<Rightarrow> packet \<Rightarrow> packet option" where
  "compress_ipv6 N mode proto p = do {
     b \<leftarrow> body p;
     ensure (40 \<le> length b);
     let hdr = ipv6_header_of b;
     p \<leftarrow> advance 40 p;
     p \<leftarrow> compress_l4 N mode proto p;
     p \<leftarrow> alloc_zeroed_headroom 5 p;
     write_body 0 ([v6_version_and_tc_upper hdr, v6_tc_lower_and_fl_upper hdr] @ v6_fl_lower hdr @
       [v6_hop_limit hdr]) p
   }"

definition expand_ipv6 :: "net_lib \<Rightarrow> u8 \<Rightarrow> five_tuple \<Rightarrow> packet \<Rightarrow> packet option" where
  "expand_ipv6 N mode ft p = do {
     c \<leftarrow> body p;
     ensure (5 \<le> length c);
     p \<leftarrow> advance 5 p;
     p \<leftarrow> expand_l4 N mode ft p;
     b \<leftarrow> body p;
     let body_len = length b;
     p \<leftarrow> alloc_zeroed_headroom 40 p;
     write_body 0 (ipv6_header_bytes \<lparr>v6_version_and_tc_upper = c ! 0,
       v6_tc_lower_and_fl_upper = c ! 1, v6_fl_lower = take 2 (drop 2 c),
       v6_payload_length = of_nat body_len, v6_next_header = l4_protocol ft,
       v6_hop_limit = c ! 4, v6_src_address = src_address ft,
       v6_dst_address = dst_address ft\<rparr>) p
   }"

definition compress :: "net_lib \<Rightarrow> u8 \<Rightarrow> u8 \<Rightarrow> u8 \<Rightarrow> packet \<Rightarrow> packet option" where
  "compress N mode l3 proto p =
     (if l3 = L3_Ipv4 N then compress_ipv4 N mode proto p
      else if l3 = L3_Ipv6 N then compress_ipv6 N mode proto p else Some p)"

definition expand :: "net_lib \<Rightarrow> u8 \<Rightarrow> five_tuple \<Rightarrow> packet \<Rightarrow> packet option" where
  "expand N mode ft p =
     (if l3_type ft = L3_Ipv4 N then expand_ipv4 N mode ft p
      else if l3_type ft = L3_Ipv6 N then expand_ipv6 N mode ft p else Some p)"

section \<open>The flags byte\<close>

lemma mask_numerals: "(15 :: u8) = mask 4" "(7 :: u8) = mask 3" "(0x1FFF :: u16) = mask 13"
  by (simp_all add: mask_eq_exp_minus_1)

lemma bit_8: "bit (8 :: int) n \<longleftrightarrow> n = 3"
proof -
  have "bit (2 ^ 3 :: int) n \<longleftrightarrow> n = 3" unfolding bit_exp_iff by auto
  then show ?thesis by simp
qed

text \<open>The byte that holds the header length, the fragmentation flags and whether an offset follows.\<close>

definition zflags :: "u8 \<Rightarrow> bool \<Rightarrow> u16 \<Rightarrow> u8" where
  "zflags v f w = (push_bit 4 (v AND 15) OR (if f then 8 else 0)) OR ucast (drop_bit 13 w)"

lemma bit_zflags: "bit (zflags v f w) n \<longleftrightarrow> (if n < 3 then bit w (n + 13) else if n = 3 then f else n < 8 \<and> bit v (n - 4))"
  unfolding zflags_def mask_numerals
  by (auto simp: bit_simps bit_8 add.commute dest: bit_imp_le_length)

lemma zflags_hl: "drop_bit 4 (zflags v f w) = v AND 15"
  unfolding mask_numerals
  by (rule bit_word_eqI) (auto simp: bit_simps bit_8 bit_zflags)

lemma zflags_f: "zflags v f w AND 8 \<noteq> 0 \<longleftrightarrow> f"
proof -
  have "zflags v f w AND 8 = (if f then 8 else 0)"
    unfolding mask_numerals by (rule bit_word_eqI) (auto simp: bit_simps bit_8 bit_zflags)
  then show ?thesis by simp
qed

lemma zflags_flags:
  assumes "f \<longleftrightarrow> w AND 0x1FFF \<noteq> 0"
  shows "(if f then w AND 0x1FFF else 0) OR push_bit 13 (ucast (zflags v f w AND 7)) = w"
proof -
  have "(w AND 0x1FFF) OR push_bit 13 (ucast (zflags v f w AND 7)) = w"
    unfolding mask_numerals
    by (rule bit_word_eqI) (auto simp: bit_simps bit_zflags, metis le_add_diff_inverse2 not_less)
  then show ?thesis using assms by (cases f) auto
qed

section \<open>Compressing and expanding on byte strings\<close>

lemma be16_get16_append: "length s = 2 \<Longrightarrow> be16 (get16 (s @ r)) = s"
  by (simp add: be16_get16)

lemma be16_get16_self: "length s = 2 \<Longrightarrow> be16 (get16 s) = s"
  by (simp add: be16_get16)

abbreviation unless :: "bool \<Rightarrow> bytes \<Rightarrow> bytes" where
  "unless c bs \<equiv> (if c then [] else bs)"

text \<open>The bits of the mode: does the classifier fix the port?\<close>

abbreviation sp_known :: "net_lib \<Rightarrow> u8 \<Rightarrow> bool" where
  "sp_known N mode \<equiv> mode AND SOURCE_PORT_PRESENT N \<noteq> 0"

abbreviation dp_known :: "net_lib \<Rightarrow> u8 \<Rightarrow> bool" where
  "dp_known N mode \<equiv> mode AND DESTINATION_PORT_PRESENT N \<noteq> 0"

lemmas l4_lay_simps = lay_simps push_port_unless_def port_or_read_def put_at_def be16_get16_self
  be16_get16_append

lemma compress_tcp_lay:
  assumes "wf_fields m" "length s = 2" "length d = 2" "length mid = 12" "length cs = 2"
  shows "\<exists>x. compress_tcp N mode (lay m h (s @ d @ mid @ cs @ rest) t) =
      Some (lay m (h @ x) (unless (sp_known N mode) s @ unless (dp_known N mode) d @ mid @ rest) t) \<and>
      length x = 2 + length (unless (\<not> sp_known N mode) s) + length (unless (\<not> dp_known N mode) d)"
  using assms by (simp add: compress_tcp_def l4_lay_simps)

lemma expand_tcp_lay:
  assumes "wf_fields m" "length s = 2" "length d = 2" "length mid = 12" "length cs = 2" "2 \<le> length rest"
    "length x = 2 + length (unless (\<not> sp_known N mode) s) + length (unless (\<not> dp_known N mode) d)"
    "sp_known N mode \<Longrightarrow> be16 (src_port ft) = s" "dp_known N mode \<Longrightarrow> be16 (dst_port ft) = d"
    "inet_l4_checksum N (l3_type ft) (src_address ft) (dst_address ft) TCP (s @ d @ mid @ [0, 0] @ rest) = cs"
  shows "expand_tcp N mode ft (lay m (h @ x) (unless (sp_known N mode) s @ unless (dp_known N mode) d @ mid @ rest) t) =
      Some (lay m h (s @ d @ mid @ cs @ rest) t)"
  using assms by (simp add: expand_tcp_def l4_lay_simps)

lemma compress_udp_lay:
  assumes "wf_fields m" "length s = 2" "length d = 2" "length ln = 2"
  shows "\<exists>x. compress_udp N mode (lay m h (s @ d @ ln @ rest) t) =
      Some (lay m (h @ x) (unless (sp_known N mode) s @ unless (dp_known N mode) d @ rest) t) \<and>
      length x = 2 + length (unless (\<not> sp_known N mode) s) + length (unless (\<not> dp_known N mode) d)"
  using assms by (simp add: compress_udp_def l4_lay_simps)

lemma expand_udp_lay:
  assumes "wf_fields m" "length s = 2" "length d = 2" "2 \<le> length rest"
    "length x = 2 + length (unless (\<not> sp_known N mode) s) + length (unless (\<not> dp_known N mode) d)"
    "sp_known N mode \<Longrightarrow> be16 (src_port ft) = s" "dp_known N mode \<Longrightarrow> be16 (dst_port ft) = d"
    "be16 (of_nat (length rest + 6)) = ln"
  shows "expand_udp N mode ft (lay m (h @ x) (unless (sp_known N mode) s @ unless (dp_known N mode) d @ rest) t) =
      Some (lay m h (s @ d @ ln @ rest) t)"
  using assms by (simp add: expand_udp_def l4_lay_simps add.commute)

section \<open>The transport payload is restored\<close>

text \<open>
  What makes a transport payload restorable: the ports the mode leaves out are those of the
  classifier, the UDP length is the payload's length, and the TCP checksum is the one that
  the checksum function computes.
\<close>

definition l4_restorable :: "net_lib \<Rightarrow> u8 \<Rightarrow> five_tuple \<Rightarrow> bytes \<Rightarrow> bool" where
  "l4_restorable N mode ft c \<longleftrightarrow>
     (l4_protocol ft = TCP \<or> l4_protocol ft = UDP \<longrightarrow>
        (sp_known N mode \<longrightarrow> src_port ft = get16 c) \<and> (dp_known N mode \<longrightarrow> dst_port ft = get16 (drop 2 c))) \<and>
     (l4_protocol ft = TCP \<longrightarrow> 20 \<le> length c \<and>
        inet_l4_checksum N (l3_type ft) (src_address ft) (dst_address ft) TCP (put_at 16 [0, 0] c) = take 2 (drop 16 c)) \<and>
     (l4_protocol ft = UDP \<longrightarrow> 8 \<le> length c \<and> unat (get16 (drop 4 c)) = length c)"

lemma tcp_parts:
  assumes "20 \<le> length c"
  obtains s d mid cs rest where "c = s @ d @ mid @ cs @ rest" "length s = 2" "length d = 2"
    "length mid = 12" "length cs = 2" "2 \<le> length rest"
proof -
  obtain s r1 where s: "c = s @ r1" "length s = 2" using split_at [of 2 c] assms by auto
  obtain d r2 where d: "r1 = d @ r2" "length d = 2" using split_at [of 2 r1] assms s by auto
  obtain mid r3 where mid: "r2 = mid @ r3" "length mid = 12" using split_at [of 12 r2] assms s d by auto
  obtain cs rest where "r3 = cs @ rest" "length cs = 2" using split_at [of 2 r3] assms s d mid by auto
  then show thesis using that s d mid assms by auto
qed

lemma udp_parts:
  assumes "8 \<le> length c"
  obtains s d ln rest where "c = s @ d @ ln @ rest" "length s = 2" "length d = 2" "length ln = 2" "2 \<le> length rest"
proof -
  obtain s r1 where s: "c = s @ r1" "length s = 2" using split_at [of 2 c] assms by auto
  obtain d r2 where d: "r1 = d @ r2" "length d = 2" using split_at [of 2 r1] assms s by auto
  obtain ln rest where "r2 = ln @ rest" "length ln = 2" using split_at [of 2 r2] assms s d by auto
  then show thesis using that s d assms by auto
qed

text \<open>
  The compressed payload expands to the original one, whatever has been written into the
  space that the compression gave up.
\<close>

lemma l4_roundtrip_lay:
  assumes "wf_fields m" "l4_restorable N mode ft c"
  shows "\<exists>x c'. compress_l4 N mode (l4_protocol ft) (lay m h c t) = Some (lay m (h @ x) c' t) \<and>
    (\<forall>h' x'. length x' = length x \<longrightarrow> expand_l4 N mode ft (lay m (h' @ x') c' t) = Some (lay m h' c t))"
proof -
  consider (tcp) "l4_protocol ft = TCP" | (udp) "l4_protocol ft = UDP"
    | (other) "l4_protocol ft \<noteq> TCP" "l4_protocol ft \<noteq> UDP" by blast
  then show ?thesis
  proof cases
    case tcp
    with assms(2) have "20 \<le> length c" by (simp add: l4_restorable_def)
    then obtain s d mid cs rest where c: "c = s @ d @ mid @ cs @ rest" "length s = 2" "length d = 2"
      "length mid = 12" "length cs = 2" "2 \<le> length rest"
      by (rule tcp_parts)
    have "sp_known N mode \<Longrightarrow> be16 (src_port ft) = s" "dp_known N mode \<Longrightarrow> be16 (dst_port ft) = d"
      "inet_l4_checksum N (l3_type ft) (src_address ft) (dst_address ft) TCP (s @ d @ mid @ [0, 0] @ rest) = cs"
      using assms(2) tcp c by (auto simp: l4_restorable_def be16_get16_append put_at_def)
    then show ?thesis
      using compress_tcp_lay [OF assms(1) c(2-5), of N mode h rest t] expand_tcp_lay [OF assms(1) c(2-6)]
      unfolding c(1) compress_l4_def expand_l4_def by (simp add: tcp) metis
  next
    case udp
    with assms(2) have "8 \<le> length c" by (simp add: l4_restorable_def)
    then obtain s d ln rest where c: "c = s @ d @ ln @ rest" "length s = 2" "length d = 2"
      "length ln = 2" "2 \<le> length rest"
      by (rule udp_parts)
    have "get16 ln = of_nat (length rest + 6)"
    proof -
      have "unat (get16 (ln @ rest)) = length rest + 6"
        using assms(2) udp c by (simp add: l4_restorable_def)
      then have "of_nat (unat (get16 (ln @ rest))) = (of_nat (length rest + 6) :: u16)" by simp
      then show ?thesis using c(4) by (simp add: get16_def)
    qed
    then have "sp_known N mode \<Longrightarrow> be16 (src_port ft) = s" "dp_known N mode \<Longrightarrow> be16 (dst_port ft) = d"
      "be16 (of_nat (length rest + 6)) = ln"
      using assms(2) udp c be16_get16_self [of ln] by (auto simp: l4_restorable_def be16_get16_append)
    then show ?thesis
      using compress_udp_lay [OF assms(1) c(2-4), of N mode h rest t] expand_udp_lay [OF assms(1) c(2,3,5)]
      unfolding c(1) compress_l4_def expand_l4_def by (simp add: udp) metis
  next
    case other
    then show ?thesis
      by (intro exI [of _ "[]"] exI [of _ c]) (simp add: compress_l4_def expand_l4_def)
  qed
qed

section \<open>The network header is restored\<close>

lemma get16_append: "length a = 2 \<Longrightarrow> get16 (a @ b) = get16 a"
  by (simp add: get16_def)

lemma length_2E:
  assumes "length xs = 2"
  obtains a b where "xs = [a, b]"
  using assms by (auto simp: numeral_2_eq_2 length_Suc_conv)

lemma ipv4_parts:
  assumes "length hdr = 20"
  obtains v ds tl fid fo ttl pr cs src dst where
    "hdr = [v, ds] @ tl @ fid @ fo @ [ttl, pr] @ cs @ src @ dst" "length tl = 2" "length fid = 2"
    "length fo = 2" "length cs = 2" "length src = 4" "length dst = 4"
proof -
  obtain a r1 where a: "hdr = a @ r1" "length a = 2" using split_at [of 2 hdr] assms by auto
  obtain tl r2 where tl: "r1 = tl @ r2" "length tl = 2" using split_at [of 2 r1] assms a by auto
  obtain fid r3 where fid: "r2 = fid @ r3" "length fid = 2" using split_at [of 2 r2] assms a tl by auto
  obtain fo r4 where fo: "r3 = fo @ r4" "length fo = 2" using split_at [of 2 r3] assms a tl fid by auto
  obtain b r5 where b: "r4 = b @ r5" "length b = 2" using split_at [of 2 r4] assms a tl fid fo by auto
  obtain cs r6 where cs: "r5 = cs @ r6" "length cs = 2" using split_at [of 2 r5] assms a tl fid fo b by auto
  obtain src dst where src: "r6 = src @ dst" "length src = 4" using split_at [of 4 r6] assms a tl fid fo b cs by auto
  obtain v ds where "a = [v, ds]" using a(2) by (rule length_2E)
  moreover obtain ttl pr where "b = [ttl, pr]" using b(2) by (rule length_2E)
  ultimately show thesis using that a tl fid fo b cs src assms by auto
qed

text \<open>
  What makes an IPv4 header restorable: its version is 4, its length fields and addresses are
  those that \<open>expand\<close> writes, and its checksum is the one that is computed over it.
\<close>

definition v4_restorable :: "net_lib \<Rightarrow> five_tuple \<Rightarrow> bytes \<Rightarrow> bytes \<Rightarrow> bool" where
  "v4_restorable N ft hdr c \<longleftrightarrow> length hdr = 20 \<and> push_bit 4 4 OR (hdr ! 0 AND 15) = hdr ! 0 \<and>
     of_nat (length c + 20) = get16 (drop 2 hdr) \<and> l4_protocol ft = hdr ! 9 \<and>
     read_as_v4 N (src_address ft) = take 4 (drop 12 hdr) \<and> read_as_v4 N (dst_address ft) = drop 16 hdr \<and>
     unat (hdr ! 0 AND 15) * 4 \<le> 20 + length c \<and>
     be16 (ip4sum N (take (unat (hdr ! 0 AND 15) * 4) (put_at 10 [0, 0] hdr @ c))) = take 2 (drop 10 hdr)"

text \<open>What the compressed packet carries of the header.\<close>

definition v4_pre :: "ipv4_header \<Rightarrow> bytes" where
  "v4_pre H = (let fo = v4_frag_offset H AND 0x1FFF in
     [zflags (v4_vhl H) (fo \<noteq> 0) (v4_frag_offset H), v4_dscp H] @ v4_frag_id H @
     unless (fo = 0) (be16 fo) @ [v4_ttl H])"



lemma push_push_lay:
  "Option.bind (push_header a (lay m g b t)) (push_header a') = push_header (a' @ a) (lay m g b t)"
  by (cases "length a \<le> length g") (auto simp: lay_simps add.commute)

lemma push_push_lay_bind:
  "Option.bind (push_header a (lay m g b t)) (\<lambda>p. Option.bind (push_header a' p) f) =
     Option.bind (push_header (a' @ a) (lay m g b t)) f"
  unfolding push_push_lay [symmetric] by (cases "push_header a (lay m g b t)") simp_all

lemma ipv4_header_of_append: "length hdr = 20 \<Longrightarrow> ipv4_header_of (hdr @ c) = ipv4_header_of hdr"
  using header_of_take(1) [of "hdr @ c"] by simp

lemma length_v4_frag_id: "length hdr = 20 \<Longrightarrow> length (v4_frag_id (ipv4_header_of hdr)) = 2"
  by (simp add: ipv4_header_of_def)

lemma length_v4_pre: "length hdr = 20 \<Longrightarrow> length (v4_pre (ipv4_header_of hdr)) \<le> 7"
  by (simp add: v4_pre_def Let_def length_v4_frag_id)

lemma compress_ipv4_lay:
  assumes "wf_fields m" "length hdr = 20"
    "compress_l4 N mode proto (lay m (h @ hdr) c t) = Some (lay m (h @ hdr @ x) c' t)"
  shows "\<exists>y. compress_ipv4 N mode proto (lay m h (hdr @ c) t) =
      Some (lay m (h @ y) (v4_pre (ipv4_header_of hdr) @ c') t) \<and>
      length y + length (v4_pre (ipv4_header_of hdr)) = 20 + length x"
proof -
  have "compress_ipv4 N mode proto (lay m h (hdr @ c) t) =
      push_header (v4_pre (ipv4_header_of hdr)) (lay m (h @ hdr @ x) c' t)"
    using assms
    by (cases "v4_frag_offset (ipv4_header_of hdr) AND 0x1FFF = 0")
      (simp_all add: compress_ipv4_def body_lay advance_lay ipv4_header_of_append Let_def v4_pre_def
        zflags_def push_push_lay push_push_lay_bind)
  then show ?thesis
    using length_v4_pre [OF assms(2)] assms(2)
    by (intro exI [of _ "take (20 + length x - length (v4_pre (ipv4_header_of hdr))) (hdr @ x)"])
      (simp add: push_header_lay)
qed


lemma v4_header_rewritten:
  assumes "v4_restorable N ft hdr c" "H = ipv4_header_of hdr"
  shows "ipv4_header_bytes \<lparr>v4_vhl = push_bit 4 4 OR (v4_vhl H AND 15), v4_dscp = v4_dscp H,
       v4_total_length = of_nat (length c + 20), v4_frag_id = v4_frag_id H,
       v4_frag_offset = v4_frag_offset H, v4_ttl = v4_ttl H, v4_proto = l4_protocol ft,
       v4_header_checksum = [0, 0], v4_src_address = read_as_v4 N (src_address ft),
       v4_dst_address = read_as_v4 N (dst_address ft)\<rparr> = put_at 10 [0, 0] hdr"
proof -
  have "length hdr = 20" using assms(1) by (simp add: v4_restorable_def)
  then obtain v ds tl fid fo ttl pr cs src dst where hdr:
    "hdr = [v, ds] @ tl @ fid @ fo @ [ttl, pr] @ cs @ src @ dst" "length tl = 2" "length fid = 2"
    "length fo = 2" "length cs = 2" "length src = 4" "length dst = 4"
    by (rule ipv4_parts)
  have H: "v4_vhl H = v" "v4_dscp H = ds" "v4_frag_id H = fid" "v4_frag_offset H = get16 fo" "v4_ttl H = ttl"
    using hdr assms(2) by (simp_all add: ipv4_header_of_def get16_append nth_append)
  have r: "push_bit 4 4 OR (v AND 15) = v" "of_nat (length c + 20) = get16 tl" "l4_protocol ft = pr"
    "read_as_v4 N (src_address ft) = src" "read_as_v4 N (dst_address ft) = dst"
    using assms(1) hdr(2-7) unfolding v4_restorable_def hdr(1)
    by (simp_all add: get16_append nth_append)
  show ?thesis
    unfolding H r using hdr by (simp add: ipv4_header_bytes_def put_at_def be16_get16_self)
qed

lemma v4_checksum_rewritten:
  assumes "v4_restorable N ft hdr c"
  shows "put_at 10 (be16 (ip4sum N (take (unat (hdr ! 0 AND 15) * 4) (put_at 10 [0, 0] hdr @ c))))
    (put_at 10 [0, 0] hdr @ c) = hdr @ c"
proof -
  have "length hdr = 20" using assms(1) by (simp add: v4_restorable_def)
  then obtain v ds tl fid fo ttl pr cs src dst where hdr:
    "hdr = [v, ds] @ tl @ fid @ fo @ [ttl, pr] @ cs @ src @ dst" "length tl = 2" "length fid = 2"
    "length fo = 2" "length cs = 2" "length src = 4" "length dst = 4"
    by (rule ipv4_parts)
  have "be16 (ip4sum N (take (unat (hdr ! 0 AND 15) * 4) (put_at 10 [0, 0] hdr @ c))) = cs"
    using assms hdr(2-7) unfolding v4_restorable_def by (simp add: hdr(1))
  then show ?thesis using hdr by (simp add: put_at_def)
qed

lemma put_at_front: "length x = n \<Longrightarrow> put_at 0 x (replicate n 0 @ c) = x @ c"
  by (simp add: put_at_def)

lemma expand_ipv4_lay:
  assumes "wf_fields m" "v4_restorable N ft hdr c" "length y + length (v4_pre (ipv4_header_of hdr)) = 20 + n"
    "\<And>h' x'. length x' = n \<Longrightarrow> expand_l4 N mode ft (lay m (h' @ x') c' t) = Some (lay m h' c t)"
  shows "expand_ipv4 N mode ft (lay m (h @ y) (v4_pre (ipv4_header_of hdr) @ c') t) = Some (lay m h (hdr @ c) t)"
proof -
  define H where "H = ipv4_header_of hdr"
  have len: "length hdr = 20" using assms(2) by (simp add: v4_restorable_def)
  obtain z x' where z: "y @ v4_pre H = z @ x'" "length z = 20" "length x' = n"
  proof -
    obtain z x' where "y @ v4_pre H = z @ x'" "length z = 20"
      using split_at [of 20 "y @ v4_pre H"] assms(3) by (auto simp: H_def)
    moreover from this have "length x' = n"
      using assms(3) by (metis H_def add_left_cancel length_append)
    ultimately show thesis by (rule that)
  qed
  have ex: "expand_l4 N mode ft (lay m (h @ y @ v4_pre H) c' t) = Some (lay m (h @ z) c t)"
    using assms(4) [OF z(3), of "h @ z"] z(1) by simp
  have f: "(if fo \<noteq> 0 then fo else 0) OR push_bit 13 (ucast (zflags (v4_vhl H) (fo \<noteq> 0) (v4_frag_offset H) AND 7)) = v4_frag_offset H"
    if "fo = v4_frag_offset H AND 0x1FFF" for fo
    using zflags_flags [of "fo \<noteq> 0" "v4_frag_offset H" "v4_vhl H"] that by (simp split: if_splits)
  have vhl: "v4_vhl H = hdr ! 0" by (simp add: H_def ipv4_header_of_def)
  have hl: "unat (hdr ! 0 AND 15) * 4 \<le> 20 + length c" using assms(2) by (simp add: v4_restorable_def)
  note lens = length_v4_frag_id [OF len, folded H_def]
  show ?thesis
    unfolding H_def [symmetric]
  proof (cases "v4_frag_offset H AND 0x1FFF = 0")
    case True
    then show "expand_ipv4 N mode ft (lay m (h @ y) (v4_pre H @ c') t) = Some (lay m h (hdr @ c) t)"
      using ex f [OF refl] v4_header_rewritten [OF assms(2) H_def] v4_checksum_rewritten [OF assms(2)] assms(1) lens z hl len
      by (simp add: expand_ipv4_def v4_pre_def Let_def lay_simps zflags_hl zflags_f vhl codec_simps slice_def put_at_front)
  next
    case False
    then show "expand_ipv4 N mode ft (lay m (h @ y) (v4_pre H @ c') t) = Some (lay m h (hdr @ c) t)"
      using ex f [OF refl] v4_header_rewritten [OF assms(2) H_def] v4_checksum_rewritten [OF assms(2)] assms(1) lens z hl len
      by (simp add: expand_ipv4_def v4_pre_def Let_def lay_simps zflags_hl zflags_f vhl codec_simps slice_def put_at_front)
  qed
qed


text \<open>The same for IPv6, whose header has no checksum.\<close>

definition v6_restorable :: "five_tuple \<Rightarrow> bytes \<Rightarrow> bytes \<Rightarrow> bool" where
  "v6_restorable ft hdr c \<longleftrightarrow> length hdr = 40 \<and> of_nat (length c) = get16 (drop 4 hdr) \<and>
     l4_protocol ft = hdr ! 6 \<and> src_address ft = take 16 (drop 8 hdr) \<and> dst_address ft = drop 24 hdr"

lemma ipv6_parts:
  assumes "length hdr = 40"
  obtains v tc fl pl nh hop src dst where
    "hdr = [v, tc] @ fl @ pl @ [nh, hop] @ src @ dst" "length fl = 2" "length pl = 2"
    "length src = 16" "length dst = 16"
proof -
  obtain a r1 where a: "hdr = a @ r1" "length a = 2" using split_at [of 2 hdr] assms by auto
  obtain fl r2 where fl: "r1 = fl @ r2" "length fl = 2" using split_at [of 2 r1] assms a by auto
  obtain pl r3 where pl: "r2 = pl @ r3" "length pl = 2" using split_at [of 2 r2] assms a fl by auto
  obtain b r4 where b: "r3 = b @ r4" "length b = 2" using split_at [of 2 r3] assms a fl pl by auto
  obtain src dst where src: "r4 = src @ dst" "length src = 16" using split_at [of 16 r4] assms a fl pl b by auto
  obtain v tc where "a = [v, tc]" using a(2) by (rule length_2E)
  moreover obtain nh hop where "b = [nh, hop]" using b(2) by (rule length_2E)
  ultimately show thesis using that a fl pl b src assms by auto
qed

lemma ipv6_roundtrip_lay:
  assumes "wf_fields m" "v6_restorable ft hdr c"
    "compress_l4 N mode (l4_protocol ft) (lay m (h @ hdr) c t) = Some (lay m ((h @ hdr) @ x) c' t)"
    "\<And>h' x'. length x' = length x \<Longrightarrow> expand_l4 N mode ft (lay m (h' @ x') c' t) = Some (lay m h' c t)"
  shows "\<exists>q. compress_ipv6 N mode (l4_protocol ft) (lay m h (hdr @ c) t) = Some q \<and>
    expand_ipv6 N mode ft q = Some (lay m h (hdr @ c) t)"
proof -
  have "length hdr = 40" using assms(2) by (simp add: v6_restorable_def)
  then obtain v tc fl pl nh hop src dst where hdr: "hdr = [v, tc] @ fl @ pl @ [nh, hop] @ src @ dst"
    "length fl = 2" "length pl = 2" "length src = 16" "length dst = 16"
    by (rule ipv6_parts)
  have H: "ipv6_header_of (hdr @ c) = \<lparr>v6_version_and_tc_upper = v, v6_tc_lower_and_fl_upper = tc,
      v6_fl_lower = fl, v6_payload_length = get16 pl, v6_next_header = nh, v6_hop_limit = hop,
      v6_src_address = src, v6_dst_address = dst\<rparr>"
    using hdr by (simp add: ipv6_header_of_def get16_append nth_append)
  have r: "of_nat (length c) = get16 pl" "l4_protocol ft = nh" "src_address ft = src" "dst_address ft = dst"
    using assms(2) hdr(2-5) unfolding v6_restorable_def hdr(1) by (simp_all add: get16_append nth_append)
  define y where "y = take (40 + length x - 5) (hdr @ x)"
  have comp: "compress_ipv6 N mode (l4_protocol ft) (lay m h (hdr @ c) t) =
      Some (lay m (h @ y) ([v, tc] @ fl @ [hop] @ c') t)"
    using assms(1,3) \<open>length hdr = 40\<close> hdr(2)
    by (simp add: compress_ipv6_def lay_simps H y_def put_at_def)
  have "length (y @ [v, tc] @ fl @ [hop]) = 40 + length x"
    using \<open>length hdr = 40\<close> hdr(2) by (simp add: y_def)
  then obtain z x' where z: "y @ [v, tc] @ fl @ [hop] = z @ x'" "length z = 40" "length x' = length x"
    using split_at [of 40 "y @ [v, tc] @ fl @ [hop]"] by (metis add_left_cancel le_add1 length_append)
  have "expand_l4 N mode ft (lay m (h @ y @ [v, tc] @ fl @ [hop]) c' t) = Some (lay m (h @ z) c t)"
    using assms(4) [OF z(3), of "h @ z"] z(1) by simp
  then have "expand_ipv6 N mode ft (lay m (h @ y) ([v, tc] @ fl @ [hop] @ c') t) = Some (lay m h (hdr @ c) t)"
    using assms(1) hdr(2-5) z(2) r
    by (simp add: expand_ipv6_def lay_simps put_at_def ipv6_header_bytes_def be16_get16_self hdr(1) nth_append)
  with comp show ?thesis by blast
qed


lemma v4_packet_roundtrip:
  assumes "wf_fields m" "l4_restorable N mode ft c" "v4_restorable N ft hdr c"
  shows "\<exists>q. compress_ipv4 N mode (l4_protocol ft) (lay m h (hdr @ c) t) = Some q \<and>
    expand_ipv4 N mode ft q = Some (lay m h (hdr @ c) t)"
proof -
  obtain x c' where c: "compress_l4 N mode (l4_protocol ft) (lay m (h @ hdr) c t) = Some (lay m (h @ hdr @ x) c' t)"
    "\<And>h' x'. length x' = length x \<Longrightarrow> expand_l4 N mode ft (lay m (h' @ x') c' t) = Some (lay m h' c t)"
    using l4_roundtrip_lay [OF assms(1,2), of "h @ hdr" t] by auto
  have "length hdr = 20" using assms(3) by (simp add: v4_restorable_def)
  then show ?thesis
    using compress_ipv4_lay [OF assms(1) _ c(1)] expand_ipv4_lay [OF assms(1,3) _ c(2)] by blast
qed

lemma v6_packet_roundtrip:
  assumes "wf_fields m" "l4_restorable N mode ft c" "v6_restorable ft hdr c"
  shows "\<exists>q. compress_ipv6 N mode (l4_protocol ft) (lay m h (hdr @ c) t) = Some q \<and>
    expand_ipv6 N mode ft q = Some (lay m h (hdr @ c) t)"
  using l4_roundtrip_lay [OF assms(1,2), of "h @ hdr" t] ipv6_roundtrip_lay [OF assms(1,3)] by blast

section \<open>Classified packets survive compression\<close>

text \<open>The header chain is short: no IPv4 options before TCP or UDP, no extension headers.\<close>

definition plain_headers :: "net_lib \<Rightarrow> five_tuple \<Rightarrow> bytes \<Rightarrow> bool" where
  "plain_headers N ft b \<longleftrightarrow>
     (if l3_type ft = L3_Ipv4 N
      then b ! 9 = l4_protocol ft \<and> (l4_protocol ft = TCP \<or> l4_protocol ft = UDP \<longrightarrow> b ! 0 AND 15 = 5)
      else b ! 6 = l4_protocol ft)"

text \<open>The checksums are the ones the checksum functions compute over the packet.\<close>

definition computed_checksums :: "net_lib \<Rightarrow> five_tuple \<Rightarrow> bytes \<Rightarrow> bool" where
  "computed_checksums N ft b \<longleftrightarrow>
     (l3_type ft = L3_Ipv4 N \<longrightarrow>
        take 2 (drop 10 b) = be16 (ip4sum N (take (unat (b ! 0 AND 15) * 4) (put_at 10 [0, 0] b)))) \<and>
     (l4_protocol ft = TCP \<longrightarrow> (let c = drop (if l3_type ft = L3_Ipv4 N then 20 else 40) b in
        take 2 (drop 16 c) = inet_l4_checksum N (l3_type ft) (src_address ft) (dst_address ft) TCP (put_at 16 [0, 0] c)))"

lemma version_nibble: "drop_bit 4 (v AND 0xF0) = (4 :: u8) \<Longrightarrow> push_bit 4 4 OR (v AND 15) = v"
proof -
  assume *: "drop_bit 4 (v AND 0xF0) = 4"
  have "push_bit 4 (drop_bit 4 (v AND 0xF0)) OR (v AND 15) = v"
  proof (rule bit_word_eqI)
    fix n assume n: "n < LENGTH(8)"
    then consider "n = 0" | "n = 1" | "n = 2" | "n = 3" | "n = 4" | "n = 5" | "n = 6" | "n = 7" by fastforce
    then show "bit (push_bit 4 (drop_bit 4 (v AND 0xF0)) OR (v AND 15)) n \<longleftrightarrow> bit v n"
      by cases (simp_all add: bit_simps)
  qed
  with * show ?thesis by simp
qed

lemma port_bits:
  assumes "net_lib_ok N"
  shows "sp_known N (compression_mode N tc) \<longleftrightarrow> src_port tc \<noteq> 0"
    "dp_known N (compression_mode N tc) \<longleftrightarrow> dst_port tc \<noteq> 0"
  using assms
  by (auto simp: compression_mode_def net_lib_ok_def bit.conj_disj_distrib2 and.commute)


text \<open>What the classifier has checked is what makes the packet restorable.\<close>

lemma classified_chain:
  assumes "ip_header N ft b off p" "walks p (drop off b) q c" "describes N default_options ft q c r"
    "plain_headers N ft b"
  shows "q = l4_protocol ft" "c = drop off b"
proof -
  show q: "q = l4_protocol ft" using assms(3) by (simp add: describes_def)
  have "p = l4_protocol ft"
    using assms(1,4) by (auto simp: ip_header_def plain_headers_def split: if_splits)
  then show "c = drop off b"
    using walks_plain [OF assms(2)] assms(3) q by (simp add: describes_def)
qed

lemma classified_l4_restorable:
  assumes N: "net_lib_ok N" and ft: "describes N default_options ft (l4_protocol ft) c r"
    and tc: "classify_5t tc ft" and mode: "mode = compression_mode N tc"
    and cs: "l4_protocol ft = TCP \<Longrightarrow> take 2 (drop 16 c) =
      inet_l4_checksum N (l3_type ft) (src_address ft) (dst_address ft) TCP (put_at 16 [0, 0] c)"
  shows "l4_restorable N mode tc c"
  using ft tc cs port_bits [OF N, of tc]
  by (auto simp: l4_restorable_def describes_def classify_5t_def mode default_options_def split: if_splits)

lemma classified_v4_restorable:
  assumes N: "net_lib_ok N" and ip: "ip_header N ft b off p" and l3: "l3_type ft = L3_Ipv4 N"
    and plain: "plain_headers N ft b" and cs: "computed_checksums N ft b" and tc: "classify_5t tc ft"
  shows "v4_restorable N tc (take 20 b) (drop 20 b)"
proof -
  have b: "20 \<le> length b" "off \<le> length b" "off = unat (b ! 0 AND 15) * 4" "b \<noteq> []"
    and len: "unat (get16 (drop 2 b)) = length b"
    and v: "drop_bit 4 (b ! 0 AND 0xF0) = (4 :: u8)"
    and a: "src_address ft = new_from_v4 N (take 4 (drop 12 b))" "dst_address ft = new_from_v4 N (take 4 (drop 16 b))"
    using ip l3 by (auto simp: ip_header_def get_ip_version_def split: if_splits)
  have tcs: "l4_protocol tc = l4_protocol ft" "src_address tc = src_address ft" "dst_address tc = dst_address ft"
    using tc by (auto simp: classify_5t_def split: if_splits)
  have "of_nat (unat (get16 (drop 2 b))) = (of_nat (length b) :: u16)" using len by simp
  then have "of_nat (length (drop 20 b) + 20) = get16 (drop 2 (take 20 b))"
    using b(1) by (simp add: get16_drop_take)
  moreover have "put_at 10 [0, 0] (take 20 b) @ drop 20 b = put_at 10 [0, 0] b"
    using b(1) append_take_drop_id [of 8 "drop 12 b"] by (simp add: put_at_def drop_take)
  ultimately show ?thesis
    using N l3 plain cs b a tcs version_nibble [OF v]
    by (simp add: v4_restorable_def net_lib_ok_def plain_headers_def computed_checksums_def drop_take min_def)
qed

lemma classified_v6_restorable:
  assumes ip: "ip_header N ft b off p" and l3: "l3_type ft \<noteq> L3_Ipv4 N"
    and plain: "plain_headers N ft b" and tc: "classify_5t tc ft"
  shows "v6_restorable tc (take 40 b) (drop 40 b)"
proof -
  have b: "40 \<le> length b" and len: "40 + unat (get16 (drop 4 b)) = length b"
    and a: "src_address ft = take 16 (drop 8 b)" "dst_address ft = take 16 (drop 24 b)"
    using ip l3 by (auto simp: ip_header_def)
  have "of_nat (unat (get16 (drop 4 b))) = (of_nat (length b - 40) :: u16)" using len by (metis add_diff_cancel_left')
  then have "of_nat (length (drop 40 b)) = get16 (drop 4 (take 40 b))"
    using b by (simp add: get16_drop_take)
  then show ?thesis
    using l3 plain b a tc
    by (auto simp: v6_restorable_def plain_headers_def classify_5t_def drop_take min_def split: if_splits)
qed


lemma classified_payload:
  assumes N: "net_lib_ok N" and ip: "ip_header N ft b off p" and w: "walks p (drop off b) q c"
    and d: "describes N default_options ft q c r" and plain: "plain_headers N ft b"
    and cs: "computed_checksums N ft b" and tc: "classify_5t tc ft"
    and n: "n = (if l3_type ft = L3_Ipv4 N then 20 else 40)"
  shows "l4_restorable N (compression_mode N tc) tc (drop n b)"
proof (cases "l4_protocol ft = TCP \<or> l4_protocol ft = UDP")
  case True
  then have "off = n" using ip plain n by (auto simp: ip_header_def plain_headers_def split: if_splits)
  then have "describes N default_options ft (l4_protocol ft) (drop n b) r"
    using d classified_chain [OF ip w d plain] by simp
  then show ?thesis
    using cs by (intro classified_l4_restorable [OF N _ tc refl]) (auto simp: computed_checksums_def n Let_def)
next
  case False
  then show ?thesis using tc by (simp add: l4_restorable_def classify_5t_def split: if_splits)
qed



text \<open>A packet with one byte of headroom and a body given as bytes.\<close>

definition demo_lay :: "bytes \<Rightarrow> packet" where
  "demo_lay b = lay (md demo_packet) [7] b [8]"

lemma demo_lay_laid_out: "length b < 100 \<Longrightarrow> laid_out (demo_lay b) [7] b [8]"
  by (simp add: demo_lay_def lay_def laid_out_def wf_metadata_def demo_packet_def buf_len_def min_body_offset_def)

lemma demo_wf_fields: "wf_fields (md demo_packet)"
  by (simp add: wf_fields_def demo_packet_def)

definition demo_tc :: ip5tuple_tc where
  "demo_tc = demo_tcp_tuple\<lparr>src_port := 0\<rparr>"


text \<open>The same packet with four bytes of IPv4 options.\<close>

definition demo_options :: bytes where
  "demo_options =
    [0x46, 0x00, 0x00, 0x2C, 0x00, 0x01, 0x00, 0x00,
     0x40, 0x06, 0x6D, 0xC1, 0x01, 0x02, 0x03, 0x04,
     0x04, 0x03, 0x02, 0x01, 0x01, 0x01, 0x01, 0x00,
     0x00, 0x14, 0x00, 0x50,
     0x00, 0x00, 0x00, 0x00, 0x00, 0x00, 0x00, 0x00,
     0x50, 0x02, 0x20, 0x00, 0x85, 0x75, 0x00, 0x00]"

lemma demo_options_classified: "classify demo_net demo_tuple demo_options = Some (demo_tcp_tuple, Inr COk)"
  by (simp add: classify_def classify_with_options_def classify_zdp_def classify_l3_def
      get_ip_version_def demo_options_def,
      simp add: classify_ipv4_def default_options_def checks_checksums_def ipv4_header_of_def
      Let_def demo_net_def demo_sum_def carry_def get16_def of_be_def,
      simp add: classify_next_header.simps Let_def,
      simp add: classify_tcp_def checks_checksums_def tcp_header_of_def Let_def get16_def of_be_def
      validate_inet_l4_checksum_with_5t_def,
      simp add: demo_pseudo_def be16_bytes carry_def demo_tuple_def demo_tcp_tuple_def demo_sum_def)

lemma demo_options_compressed:
  "compress demo_net 3 4 TCP (demo_lay demo_options) = Some (lay (md demo_packet)
     [7, 70, 0, 0, 44, 0, 1, 0, 0, 64, 6, 109, 193, 1, 2, 3, 4, 4, 3, 2, 1, 1]
     [96, 0, 0, 1, 64, 0, 20, 0, 80, 0, 0, 0, 0, 0, 0, 0, 0, 32, 0, 133, 117, 0, 0] [8])"
  by (simp add: demo_lay_def demo_options_def compress_def demo_net_def compress_ipv4_def lay_simps demo_wf_fields
     compress_l4_def compress_tcp_def ipv4_header_of_def get16_def of_be_def push_port_unless_def put_at_def)

lemma demo_options_expanded:
  "expand demo_net 3 demo_tcp_tuple (lay (md demo_packet)
     [7, 70, 0, 0, 44, 0, 1, 0, 0, 64, 6, 109, 193, 1, 2, 3, 4, 4, 3, 2, 1, 1]
     [96, 0, 0, 1, 64, 0, 20, 0, 80, 0, 0, 0, 0, 0, 0, 0, 0, 32, 0, 133, 117, 0, 0] [8]) =
   Some (demo_lay
     [70, 0, 0, 44, 0, 1, 0, 0, 64, 6, 111, 94, 1, 2, 3, 4, 4, 3, 2, 1, 0, 20, 0, 80,
      0, 20, 0, 80, 0, 0, 0, 0, 0, 0, 0, 0, 79, 154, 32, 0, 133, 117, 0, 0])"
  by (simp add: expand_def demo_net_def demo_tcp_tuple_def expand_ipv4_def lay_simps demo_wf_fields Let_def
      expand_l4_def expand_tcp_def port_or_read_def put_at_def be16_bytes,
      simp add: demo_pseudo_def be16_bytes ipv4_header_bytes_def slice_def,
      simp add: demo_sum_def carry_def demo_lay_def put_at_def lay_def)


end
