(* ===== verification/Tlv.thy ===== *)
theory Tlv
  imports Byte_Codec
begin

text \<open>
  Type-length-value options of the hello exchange (\<open>adapter/ph/src/tlv.rs\<close>): building,
  writing and parsing.  A Rust string is the list of its UTF-8 bytes.  Public keys and visas,
  whose encodings belong to libraries, are type parameters with their encoders and decoders in
  the record \<open>tlv_lib\<close>.
\<close>

section \<open>Lossy UTF-8 decoding\<close>

text \<open>
  \<open>String::from_utf8_lossy\<close>: how many bytes the next character has and whether they are
  well-formed; an ill-formed prefix of maximal length becomes one replacement character.
\<close>

definition utf8_cont :: "u8 \<Rightarrow> bool" where
  "utf8_cont b \<longleftrightarrow> 0x80 \<le> b \<and> b \<le> 0xBF"

definition utf8_second :: "u8 \<Rightarrow> u8 \<Rightarrow> bool" where
  "utf8_second a b =
     (if a = 0xE0 then 0xA0 \<le> b \<and> b \<le> 0xBF
      else if a = 0xED then 0x80 \<le> b \<and> b \<le> 0x9F
      else if a = 0xF0 then 0x90 \<le> b \<and> b \<le> 0xBF
      else if a = 0xF4 then 0x80 \<le> b \<and> b \<le> 0x8F
      else utf8_cont b)"

definition utf8_step :: "u8 \<Rightarrow> bytes \<Rightarrow> bool \<times> nat" where
  "utf8_step a bs =
     (if a < 0x80 then (True, 1)
      else if a < 0xC2 \<or> 0xF4 < a then (False, 1)
      else if bs = [] \<or> \<not> utf8_second a (bs ! 0) then (False, 1)
      else if a < 0xE0 then (True, 2)
      else if length bs < 2 \<or> \<not> utf8_cont (bs ! 1) then (False, 2)
      else if a < 0xF0 then (True, 3)
      else if length bs < 3 \<or> \<not> utf8_cont (bs ! 2) then (False, 3)
      else (True, 4))"

lemma utf8_step_consumes: "(ok, n) = utf8_step a bs \<Longrightarrow> length (drop n (a # bs)) < length (a # bs)"
  by (cases n) (auto simp: utf8_step_def split: if_splits)

function from_utf8_lossy :: "bytes \<Rightarrow> bytes" where
  "from_utf8_lossy [] = []"
| "from_utf8_lossy (a # bs) = (let (ok, n) = utf8_step a bs in
     (if ok then take n (a # bs) else [0xEF, 0xBF, 0xBD]) @ from_utf8_lossy (drop n (a # bs)))"
  by pat_completeness auto
termination
  by (relation "measure length") (auto dest: utf8_step_consumes simp del: length_drop)

text \<open>Well-formed UTF-8, which is what every Rust string holds.\<close>

function valid_utf8 :: "bytes \<Rightarrow> bool" where
  "valid_utf8 [] = True"
| "valid_utf8 (a # bs) = (let (ok, n) = utf8_step a bs in ok \<and> valid_utf8 (drop n (a # bs)))"
  by pat_completeness auto
termination
  by (relation "measure length") (auto dest: utf8_step_consumes simp del: length_drop)

lemma from_utf8_lossy_valid: "valid_utf8 bs \<Longrightarrow> from_utf8_lossy bs = bs"
proof (induction bs rule: from_utf8_lossy.induct)
  case (2 a bs)
  obtain ok n where step: "utf8_step a bs = (ok, n)" by (cases "utf8_step a bs")
  with 2 have "from_utf8_lossy (drop n (a # bs)) = drop n (a # bs)" "ok" by simp_all
  with step show ?case by simp
qed simp

section \<open>Types and values\<close>

type_synonym tlv_type = u8

abbreviation (input) TLV_NULL :: tlv_type where "TLV_NULL \<equiv> 0"
abbreviation (input) POLICY_ID :: tlv_type where "POLICY_ID \<equiv> 1"
abbreviation (input) VERSION :: tlv_type where "VERSION \<equiv> 2"
abbreviation (input) AAA :: tlv_type where "AAA \<equiv> 3"
abbreviation (input) STATIC_ADDR :: tlv_type where "STATIC_ADDR \<equiv> 5"
abbreviation (input) WINDOW_SIZE :: tlv_type where "WINDOW_SIZE \<equiv> 6"
abbreviation (input) A2A_DH_PUBKEY :: tlv_type where "A2A_DH_PUBKEY \<equiv> 7"
abbreviation (input) BOOTSTRAP_VISA :: tlv_type where "BOOTSTRAP_VISA \<equiv> 8"
abbreviation (input) OIDC_IDP :: tlv_type where "OIDC_IDP \<equiv> 9"

datatype tlv_error = BadStructure | ValueTooLarge nat

datatype ('k, 'v) tlv_value = TU16 u16 | TI64 u64 | TStr bytes | TIpv6 bytes | TIpv4 bytes
  | TKey 'k | TVisa 'v

record ('k, 'v) tlv_encoding =
  tlv_type :: tlv_type
  tlv_val :: "('k, 'v) tlv_value"

record ('k, 'v) tlv_lib =
  key_bytes :: "'k \<Rightarrow> bytes"
  key_from :: "bytes \<Rightarrow> 'k"
  visa_encode :: "'v \<Rightarrow> bytes"
  visa_decode :: "bytes \<Rightarrow> 'v option"

text \<open>A standard library address.\<close>

datatype ip_addr = V4 bytes | V6 bytes

section \<open>Building\<close>

definition new_policy_id :: "u64 \<Rightarrow> ('k, 'v) tlv_encoding" where
  "new_policy_id i = \<lparr>tlv_type = POLICY_ID, tlv_val = TI64 i\<rparr>"

definition new_version :: "bytes \<Rightarrow> ('k, 'v) tlv_encoding" where
  "new_version s = \<lparr>tlv_type = VERSION, tlv_val = TStr s\<rparr>"

definition new_aaa :: "ip_addr \<Rightarrow> ('k, 'v) tlv_encoding" where
  "new_aaa a = (case a of V4 o4 \<Rightarrow> \<lparr>tlv_type = AAA, tlv_val = TIpv4 o4\<rparr>
     | V6 o6 \<Rightarrow> \<lparr>tlv_type = AAA, tlv_val = TIpv6 o6\<rparr>)"

definition new_static_addr_std :: "ip_addr \<Rightarrow> ('k, 'v) tlv_encoding" where
  "new_static_addr_std a = (case a of V4 o4 \<Rightarrow> \<lparr>tlv_type = STATIC_ADDR, tlv_val = TIpv4 o4\<rparr>
     | V6 o6 \<Rightarrow> \<lparr>tlv_type = STATIC_ADDR, tlv_val = TIpv6 o6\<rparr>)"

definition new_window_size :: "u16 \<Rightarrow> ('k, 'v) tlv_encoding" where
  "new_window_size w = \<lparr>tlv_type = WINDOW_SIZE, tlv_val = TU16 w\<rparr>"

definition new_a2a_dh_pubkey :: "'k \<Rightarrow> ('k, 'v) tlv_encoding" where
  "new_a2a_dh_pubkey k = \<lparr>tlv_type = A2A_DH_PUBKEY, tlv_val = TKey k\<rparr>"

definition new_bootstrap_visa :: "'v \<Rightarrow> ('k, 'v) tlv_encoding" where
  "new_bootstrap_visa v = \<lparr>tlv_type = BOOTSTRAP_VISA, tlv_val = TVisa v\<rparr>"

text \<open>\<open>json\<close> is the JSON text of the provider description, if it can be serialised.\<close>

definition new_oidc_idp :: "bytes option \<Rightarrow> tlv_error + ('k, 'v) tlv_encoding" where
  "new_oidc_idp json = (case json of None \<Rightarrow> Inl BadStructure
     | Some s \<Rightarrow> if length s > 255 then Inl (ValueTooLarge (length s))
                else Inr \<lparr>tlv_type = OIDC_IDP, tlv_val = TStr s\<rparr>)"

section \<open>Writing\<close>

definition tlv_hdr :: "tlv_type \<Rightarrow> u8 \<Rightarrow> bytes" where
  "tlv_hdr t len = [t, len]"

definition put_u16 :: "tlv_type \<Rightarrow> u16 \<Rightarrow> bytes" where
  "put_u16 t v = tlv_hdr t 2 @ be16 v"

definition put_i64 :: "tlv_type \<Rightarrow> u64 \<Rightarrow> bytes" where
  "put_i64 t v = tlv_hdr t 8 @ be64 v"

definition put_str :: "tlv_type \<Rightarrow> bytes \<Rightarrow> bytes" where
  "put_str t v = (let strlen = (if length v > 255 then 255 else of_nat (length v)) in
     tlv_hdr t strlen @ take (unat strlen) v)"

definition put_ipv6addr :: "tlv_type \<Rightarrow> bytes \<Rightarrow> bytes" where
  "put_ipv6addr t octets = tlv_hdr t 16 @ octets"

definition put_ipv4addr :: "tlv_type \<Rightarrow> bytes \<Rightarrow> bytes" where
  "put_ipv4addr t octets = tlv_hdr t 4 @ octets"

definition put_x25519_pubkey :: "('k, 'v) tlv_lib \<Rightarrow> tlv_type \<Rightarrow> 'k \<Rightarrow> bytes" where
  "put_x25519_pubkey L t k = tlv_hdr t 32 @ key_bytes L k"

definition put_visa :: "('k, 'v) tlv_lib \<Rightarrow> tlv_type \<Rightarrow> 'v \<Rightarrow> bytes option" where
  "put_visa L t v = (let msg = visa_encode L v in do {
     ensure (length msg \<le> 255);
     Some (tlv_hdr t (of_nat (length msg)) @ msg)
   })"

definition put :: "('k, 'v) tlv_lib \<Rightarrow> ('k, 'v) tlv_encoding \<Rightarrow> bytes option" where
  "put L e = (case tlv_val e of
       TU16 v \<Rightarrow> Some (put_u16 (tlv_type e) v)
     | TI64 v \<Rightarrow> Some (put_i64 (tlv_type e) v)
     | TStr v \<Rightarrow> Some (put_str (tlv_type e) v)
     | TIpv6 v \<Rightarrow> Some (put_ipv6addr (tlv_type e) v)
     | TIpv4 v \<Rightarrow> Some (put_ipv4addr (tlv_type e) v)
     | TKey v \<Rightarrow> Some (put_x25519_pubkey L (tlv_type e) v)
     | TVisa v \<Rightarrow> put_visa L (tlv_type e) v)"

text \<open>\<open>None\<close> is the \<open>unimplemented!\<close> panic for visas.\<close>

definition encoded_len :: "('k, 'v) tlv_encoding \<Rightarrow> nat option" where
  "encoded_len e = do {
     n \<leftarrow> (case tlv_val e of
         TU16 _ \<Rightarrow> Some 2 | TI64 _ \<Rightarrow> Some 8 | TStr v \<Rightarrow> Some (min (length v) 255)
       | TIpv6 _ \<Rightarrow> Some 16 | TIpv4 _ \<Rightarrow> Some 4 | TKey _ \<Rightarrow> Some 32 | TVisa _ \<Rightarrow> None);
     Some (2 + n)
   }"

section \<open>Parsing\<close>

definition get_bytes :: "nat \<Rightarrow> bytes \<Rightarrow> (bytes \<times> bytes) option" where
  "get_bytes n bs = (if n \<le> length bs then Some (take n bs, drop n bs) else None)"

text \<open>A step returns the error or the value, and what is left to read; \<open>None\<close> is a panic.\<close>

type_synonym ('a) tlv_read = "((tlv_error + 'a) \<times> bytes) option"

definition parse_address_value :: "bytes \<Rightarrow> u8 \<Rightarrow> ('k, 'v) tlv_value tlv_read" where
  "parse_address_value bs len =
     (if length bs < unat len then Some (Inl BadStructure, bs)
      else if len = 4 then do { (a, bs) \<leftarrow> get_bytes 4 bs; Some (Inr (TIpv4 a), bs) }
      else if len = 16 then do { (a, bs) \<leftarrow> get_bytes 16 bs; Some (Inr (TIpv6 a), bs) }
      else Some (Inl BadStructure, bs))"

text \<open>The arms of the \<open>match\<close> on the type; no value for an unknown type.\<close>

definition parse_value :: "('k, 'v) tlv_lib \<Rightarrow> tlv_type \<Rightarrow> u8 \<Rightarrow> bytes \<Rightarrow> ('k, 'v) tlv_value option tlv_read" where
  "parse_value L t len bs =
     (if t = POLICY_ID then
        if len \<noteq> 8 then Some (Inl BadStructure, bs)
        else do { (v, bs) \<leftarrow> get_bytes 8 bs; Some (Inr (Some (TI64 (get64 v))), bs) }
      else if t = VERSION \<or> t = OIDC_IDP then do {
        (v, bs) \<leftarrow> get_bytes (unat len) bs;
        Some (Inr (Some (TStr (from_utf8_lossy v))), bs)
      }
      else if t = AAA \<or> t = STATIC_ADDR then do {
        (r, bs) \<leftarrow> parse_address_value bs len;
        Some (map_sum (\<lambda>e. e) Some r, bs)
      }
      else if t = A2A_DH_PUBKEY then
        if len \<noteq> 32 then Some (Inl BadStructure, bs)
        else do { (v, bs) \<leftarrow> get_bytes 32 bs; Some (Inr (Some (TKey (key_from L v))), bs) }
      else if t = WINDOW_SIZE then
        if len \<noteq> 2 then Some (Inl BadStructure, bs)
        else do { (v, bs) \<leftarrow> get_bytes 2 bs; Some (Inr (Some (TU16 (get16 v))), bs) }
      else if t = BOOTSTRAP_VISA then do {
        (v, bs) \<leftarrow> get_bytes (unat len) bs;
        Some (case visa_decode L v of None \<Rightarrow> Inl BadStructure | Some x \<Rightarrow> Inr (Some (TVisa x)), bs)
      }
      else do { (_, bs) \<leftarrow> get_bytes (unat len) bs; Some (Inr None, bs) })"

type_synonym ('k, 'v) tlv_map = "tlv_type \<Rightarrow> ('k, 'v) tlv_value list option"

text \<open>\<open>entry(t).or_insert_with(Vec::new).push(v)\<close>\<close>

definition push_value :: "tlv_type \<Rightarrow> ('k, 'v) tlv_value \<Rightarrow> ('k, 'v) tlv_map \<Rightarrow> ('k, 'v) tlv_map" where
  "push_value t v m = m(t \<mapsto> (case m t of None \<Rightarrow> [] | Some vs \<Rightarrow> vs) @ [v])"

definition push_opt :: "tlv_type \<Rightarrow> ('k, 'v) tlv_value option \<Rightarrow> ('k, 'v) tlv_map \<Rightarrow> ('k, 'v) tlv_map" where
  "push_opt t v m = (case v of None \<Rightarrow> m | Some v \<Rightarrow> push_value t v m)"

lemma parse_value_length: "parse_value L t len bs = Some (r, bs') \<Longrightarrow> length bs' \<le> length bs"
  by (auto simp: parse_value_def parse_address_value_def get_bytes_def elim!: bind_SomeE split: if_splits)

function parse_loop :: "('k, 'v) tlv_lib \<Rightarrow> ('k, 'v) tlv_map \<Rightarrow> bytes \<Rightarrow> ('k, 'v) tlv_map tlv_read" where
  "parse_loop L m bs =
     (case bs of [] \<Rightarrow> Some (Inr m, [])
      | t # bs1 \<Rightarrow>
        if t = TLV_NULL then parse_loop L m bs1
        else (case bs1 of [] \<Rightarrow> Some (Inl BadStructure, [])
          | len # bs2 \<Rightarrow>
            if length bs2 < unat len then Some (Inl BadStructure, bs2)
            else (case parse_value L t len bs2 of None \<Rightarrow> None
              | Some (Inl e, bs3) \<Rightarrow> Some (Inl e, bs3)
              | Some (Inr v, bs3) \<Rightarrow> parse_loop L (push_opt t v m) bs3)))"
  by pat_completeness auto
termination
  by (relation "measure (\<lambda>(L, m, bs). length bs)") (auto dest: parse_value_length)

declare parse_loop.simps [simp del]

definition parse_from_buf :: "('k, 'v) tlv_lib \<Rightarrow> bytes \<Rightarrow> ('k, 'v) tlv_map tlv_read" where
  "parse_from_buf L bs = parse_loop L Map.empty bs"

section \<open>The parser is total\<close>

lemma get_bytes_total: "n \<le> length bs \<Longrightarrow> get_bytes n bs \<noteq> None"
  by (simp add: get_bytes_def)

text \<open>The length check before the \<open>match\<close> covers every read of its arms.\<close>

lemma parse_value_total:
  assumes "unat len \<le> length bs"
  shows "parse_value L t len bs \<noteq> None"
proof -
  have "len = n \<Longrightarrow> unat n \<le> length bs" for n using assms by simp
  from this [of 2] this [of 4] this [of 8] this [of 16] this [of 32] show ?thesis
    using assms by (auto simp: parse_value_def parse_address_value_def get_bytes_def)
qed

lemma parse_loop_total:
  "\<exists>r rest. parse_loop L m bs = Some (r, rest) \<and> (isl r \<or> rest = [])"
proof (induction bs arbitrary: m rule: measure_induct_rule [where f = length])
  case (less bs)
  consider (empty) "bs = []" | (null) bs1 where "bs = 0 # bs1" | (cut) t where "bs = [t]" "t \<noteq> 0"
    | (tlv) t len bs2 where "bs = t # len # bs2" "t \<noteq> 0"
    by (metis neq_Nil_conv)
  then show ?case
  proof cases
    case (null bs1)
    then show ?thesis using less.IH [of bs1] by (simp add: parse_loop.simps [of L m "0 # bs1"])
  next
    case (tlv t len bs2)
    show ?thesis
    proof (cases "length bs2 < unat len")
      case False
      then obtain r bs3 where r: "parse_value L t len bs2 = Some (r, bs3)"
        using parse_value_total [of len bs2 L t] by auto
      then show ?thesis
        using less.IH [of bs3] parse_value_length [OF r] tlv False
        by (cases r) (auto simp: parse_loop.simps [of L m])
    qed (use tlv in \<open>simp add: parse_loop.simps [of L m]\<close>)
  qed (simp_all add: parse_loop.simps [of L m])
qed

text \<open>
  C31: The parser of the options never panics.  On every byte string it returns a result, and
  when it succeeds it has read all of it; the length byte it checks first covers every read
  that follows.
\<close>

theorem tlv_parser_never_panics:
  "\<exists>r rest. parse_from_buf L bs = Some (r, rest) \<and> (isl r \<or> rest = [])"
  unfolding parse_from_buf_def by (rule parse_loop_total)

section \<open>What is written can be read\<close>

text \<open>
  The laws of the libraries for one key or visa, and the encodings that the constructors
  build: every type with the values it carries.
\<close>

definition wf_tlv :: "('k, 'v) tlv_lib \<Rightarrow> ('k, 'v) tlv_encoding \<Rightarrow> bool" where
  "wf_tlv L e = (case tlv_val e of
       TU16 _ \<Rightarrow> tlv_type e = WINDOW_SIZE
     | TI64 _ \<Rightarrow> tlv_type e = POLICY_ID
     | TStr v \<Rightarrow> (tlv_type e = VERSION \<or> tlv_type e = OIDC_IDP) \<and> length v \<le> 255 \<and> valid_utf8 v
     | TIpv6 a \<Rightarrow> (tlv_type e = AAA \<or> tlv_type e = STATIC_ADDR) \<and> length a = 16
     | TIpv4 a \<Rightarrow> (tlv_type e = AAA \<or> tlv_type e = STATIC_ADDR) \<and> length a = 4
     | TKey k \<Rightarrow> tlv_type e = A2A_DH_PUBKEY \<and> length (key_bytes L k) = 32 \<and> key_from L (key_bytes L k) = k
     | TVisa v \<Rightarrow> tlv_type e = BOOTSTRAP_VISA \<and> length (visa_encode L v) \<le> 255 \<and>
         visa_decode L (visa_encode L v) = Some v)"

text \<open>What may stand in an option list: encodings, null bytes, options of unknown type.\<close>

datatype ('k, 'v) tlv_item = Known "('k, 'v) tlv_encoding" | NullByte | Unknown tlv_type bytes

definition wf_item :: "('k, 'v) tlv_lib \<Rightarrow> ('k, 'v) tlv_item \<Rightarrow> bool" where
  "wf_item L i = (case i of Known e \<Rightarrow> wf_tlv L e | NullByte \<Rightarrow> True
     | Unknown t bs \<Rightarrow> t \<notin> {0, 1, 2, 3, 5, 6, 7, 8, 9} \<and> length bs \<le> 255)"

definition item_bytes :: "('k, 'v) tlv_lib \<Rightarrow> ('k, 'v) tlv_item \<Rightarrow> bytes" where
  "item_bytes L i = (case i of Known e \<Rightarrow> the (put L e) | NullByte \<Rightarrow> [0]
     | Unknown t bs \<Rightarrow> [t, of_nat (length bs)] @ bs)"

primrec values_of :: "tlv_type \<Rightarrow> ('k, 'v) tlv_item list \<Rightarrow> ('k, 'v) tlv_value list" where
  "values_of t [] = []"
| "values_of t (i # is) = (case i of Known e \<Rightarrow> if tlv_type e = t then [tlv_val e] else [] | _ \<Rightarrow> []) @ values_of t is"

lemma unat_of_nat_len: "n \<le> 255 \<Longrightarrow> unat (of_nat n :: u8) = n"
  by (simp add: unat_of_nat)

text \<open>One option read back.\<close>

lemma parse_value_put:
  assumes "wf_tlv L e"
  shows "\<exists>len bs. put L e = Some (tlv_type e # len # bs) \<and> tlv_type e \<noteq> 0 \<and> unat len = length bs \<and>
    parse_value L (tlv_type e) len (bs @ rest) = Some (Inr (Some (tlv_val e)), rest)"
proof (cases "tlv_val e")
  case (TStr v)
  then have "put L e = Some (tlv_type e # of_nat (length v) # v)"
    using assms by (auto simp: wf_tlv_def put_def put_str_def tlv_hdr_def unat_of_nat_len)
  then show ?thesis
    using assms TStr by (auto simp: wf_tlv_def parse_value_def get_bytes_def unat_of_nat_len from_utf8_lossy_valid)
next
  case (TVisa v)
  then have "put L e = Some (tlv_type e # of_nat (length (visa_encode L v)) # visa_encode L v)"
    using assms by (auto simp: wf_tlv_def put_def put_visa_def tlv_hdr_def Let_def)
  then show ?thesis
    using assms TVisa by (auto simp: wf_tlv_def parse_value_def get_bytes_def unat_of_nat_len)
qed (use assms in \<open>auto simp: wf_tlv_def get_be_self put_def put_u16_def put_i64_def put_ipv4addr_def
    put_ipv6addr_def put_x25519_pubkey_def tlv_hdr_def parse_value_def parse_address_value_def get_bytes_def\<close>)

lemma parse_loop_known:
  assumes "wf_tlv L e"
  shows "parse_loop L m (the (put L e) @ rest) = parse_loop L (push_value (tlv_type e) (tlv_val e) m) rest"
proof -
  obtain len bs where "put L e = Some (tlv_type e # len # bs)" "tlv_type e \<noteq> 0" "unat len = length bs"
    "parse_value L (tlv_type e) len (bs @ rest) = Some (Inr (Some (tlv_val e)), rest)"
    using parse_value_put [OF assms] by blast
  then show ?thesis by (simp add: parse_loop.simps [of L m] push_opt_def)
qed

lemma parse_loop_item:
  assumes "wf_item L i"
  shows "parse_loop L m (item_bytes L i @ rest) =
    parse_loop L (case i of Known e \<Rightarrow> push_value (tlv_type e) (tlv_val e) m | _ \<Rightarrow> m) rest"
proof (cases i)
  case (Unknown t bs)
  then show ?thesis
    using assms by (auto simp: item_bytes_def wf_item_def parse_loop.simps [of L m] parse_value_def
        get_bytes_def unat_of_nat_len push_opt_def)
qed (use assms in \<open>auto simp: item_bytes_def wf_item_def parse_loop_known parse_loop.simps [of L m "0 # rest"]\<close>)

definition extend_map :: "('k, 'v) tlv_map \<Rightarrow> ('k, 'v) tlv_item list \<Rightarrow> ('k, 'v) tlv_map" where
  "extend_map m is = (\<lambda>t. if values_of t is = [] then m t
     else Some ((case m t of None \<Rightarrow> [] | Some vs \<Rightarrow> vs) @ values_of t is))"

lemma parse_loop_items:
  "list_all (wf_item L) is \<Longrightarrow> parse_loop L m (concat (map (item_bytes L) is)) = Some (Inr (extend_map m is), [])"
proof (induction "is" arbitrary: m)
  case Nil
  then show ?case by (simp add: parse_loop.simps extend_map_def)
next
  case (Cons i "is")
  have "extend_map (case i of Known e \<Rightarrow> push_value (tlv_type e) (tlv_val e) m | _ \<Rightarrow> m) is = extend_map m (i # is)"
    by (cases i) (auto simp: extend_map_def push_value_def fun_eq_iff split: option.splits)
  with Cons show ?case by (simp add: parse_loop_item)
qed

text \<open>
  C19: Options survive the wire.  A list of options built by the constructors, with null bytes
  and options of unknown types anywhere between them, parses to the map that holds, for every
  type, exactly its values in the order they were written.
\<close>

theorem tlv_roundtrip:
  assumes "list_all (wf_item L) is"
  shows "parse_from_buf L (concat (map (item_bytes L) is)) =
    Some (Inr (\<lambda>t. if values_of t is = [] then None else Some (values_of t is)), [])"
  using parse_loop_items [OF assms, of Map.empty] by (simp add: parse_from_buf_def extend_map_def cong: if_cong)

text \<open>Keys and visas that are their own encodings.\<close>

definition demo_tlv_lib :: "(bytes, bytes) tlv_lib" where
  "demo_tlv_lib = \<lparr>key_bytes = (\<lambda>k. k), key_from = (\<lambda>b. b), visa_encode = (\<lambda>v. v), visa_decode = Some\<rparr>"

theorem tlv_roundtrip_witness:
  "\<exists>m. parse_from_buf demo_tlv_lib [6, 2, 2, 0, 0, 4, 2, 1, 2, 2, 3, 49, 46, 48, 8, 1, 7] = Some (Inr m, []) \<and>
     m 6 = Some [TU16 512] \<and> m 2 = Some [TStr [49, 46, 48]] \<and> m 8 = Some [TVisa [7]] \<and> m 4 = None"
proof -
  let ?is = "[Known (new_window_size 512), NullByte, Unknown 4 [1, 2], Known (new_version [49, 46, 48]),
    Known (new_bootstrap_visa [7])] :: (bytes, bytes) tlv_item list"
  have wf: "list_all (wf_item demo_tlv_lib) ?is"
    by (simp add: wf_item_def wf_tlv_def new_window_size_def new_version_def new_bootstrap_visa_def
        demo_tlv_lib_def utf8_step_def)
  have b: "concat (map (item_bytes demo_tlv_lib) ?is) = [6, 2, 2, 0, 0, 4, 2, 1, 2, 2, 3, 49, 46, 48, 8, 1, 7]"
    by (simp add: item_bytes_def put_def new_window_size_def new_version_def new_bootstrap_visa_def put_u16_def
        put_str_def put_visa_def tlv_hdr_def be16_bytes demo_tlv_lib_def Let_def)
  show ?thesis
    using tlv_roundtrip [OF wf] unfolding b
    by (simp add: new_window_size_def new_version_def new_bootstrap_visa_def)
qed

definition fixed_sizes :: "('k, 'v) tlv_lib \<Rightarrow> ('k, 'v) tlv_encoding \<Rightarrow> bool" where
  "fixed_sizes L e = (case tlv_val e of TIpv6 a \<Rightarrow> length a = 16 | TIpv4 a \<Rightarrow> length a = 4
     | TKey k \<Rightarrow> length (key_bytes L k) = 32 | _ \<Rightarrow> True)"

text \<open>
  The announced size is the written size.  For every option whose addresses and keys have
  their fixed lengths, writing appends exactly \<open>encoded_len\<close> bytes, never more than 257, and
  only a visa too large for the length byte makes it panic.
\<close>

theorem tlv_encoded_len_exact:
  assumes "fixed_sizes L e"
  shows "(case put L e of None \<Rightarrow> (\<exists>v. tlv_val e = TVisa v \<and> 255 < length (visa_encode L v))
     | Some bs \<Rightarrow> length bs \<le> 257 \<and> (encoded_len e = None \<or> encoded_len e = Some (length bs)))"
  using assms
  by (cases "tlv_val e") (auto simp: fixed_sizes_def put_def put_u16_def put_i64_def put_str_def put_ipv4addr_def
      put_ipv6addr_def put_x25519_pubkey_def put_visa_def tlv_hdr_def encoded_len_def Let_def
      unat_of_nat_len ensure_def)

theorem tlv_encoded_len_exact_witness:
  "encoded_len (new_version [49, 46, 48] :: (bytes, bytes) tlv_encoding) = Some 5 \<and>
   map_option length (put demo_tlv_lib (new_version [49, 46, 48])) = Some 5"
proof -
  let ?e = "new_version [49, 46, 48] :: (bytes, bytes) tlv_encoding"
  have "fixed_sizes demo_tlv_lib ?e" by (simp add: fixed_sizes_def new_version_def)
  moreover have "encoded_len ?e = Some 5" by (simp add: encoded_len_def new_version_def)
  moreover have "put demo_tlv_lib ?e \<noteq> None" by (simp add: put_def new_version_def)
  ultimately show ?thesis using tlv_encoded_len_exact [of demo_tlv_lib ?e] by (auto split: option.splits)
qed

end
