(* ===== verification/Sample_Ring.thy ===== *)
theory Sample_Ring
  imports Prelude "HOL-Library.Multiset"
begin

text \<open>
  The ring of the last latency samples of a link (\<open>sample_ring.rs\<close>).  The const generic
  \<open>SIZE\<close> is the length of the array.  The ring is shown to hold exactly the last
  \<open>SIZE\<close> samples of its history, so that the statistics \<open>show link\<close> prints are those
  of that window.
\<close>

section \<open>Operations\<close>

record 'a sample_ring =
  samples :: "'a list"
  next_sample_idx :: nat
  num_samples :: nat

definition new_ring :: "nat \<Rightarrow> 'a \<Rightarrow> 'a sample_ring" where
  "new_ring SIZE init = \<lparr>samples = replicate SIZE init, next_sample_idx = 0, num_samples = 0\<rparr>"

definition add_sample :: "'a \<Rightarrow> 'a sample_ring \<Rightarrow> 'a sample_ring option" where
  "add_sample sample r = (let size = length (samples r) in do {
     ensure (next_sample_idx r < size);
     Some (r\<lparr>samples := (samples r)[next_sample_idx r := sample],
             next_sample_idx := (next_sample_idx r + 1) mod size,
             num_samples := min size (num_samples r + 1)\<rparr>)
   })"

text \<open>The loops fold over the samples after the first one.\<close>

definition later_samples :: "'a sample_ring \<Rightarrow> 'a list" where
  "later_samples r = (if num_samples r > 1 then take (num_samples r - 1) (drop 1 (samples r)) else [])"

definition get_min :: "'a :: linorder sample_ring \<Rightarrow> 'a" where
  "get_min r = fold (\<lambda>s m. min m s) (later_samples r) (samples r ! 0)"

definition get_max :: "'a :: linorder sample_ring \<Rightarrow> 'a" where
  "get_max r = fold (\<lambda>s m. max m s) (later_samples r) (samples r ! 0)"

definition get_total_and_count :: "'a :: ab_semigroup_add sample_ring \<Rightarrow> 'a \<times> nat" where
  "get_total_and_count r = (fold (\<lambda>s t. t + s) (later_samples r) (samples r ! 0), num_samples r)"

section \<open>The window\<close>

text \<open>The ring \<open>r\<close> of \<open>n\<close> entries has seen the samples \<open>h\<close>, oldest first.\<close>

definition has_seen :: "nat \<Rightarrow> 'a list \<Rightarrow> 'a sample_ring \<Rightarrow> bool" where
  "has_seen n h r \<longleftrightarrow>
     length (samples r) = n \<and> n > 0 \<and> next_sample_idx r = length h mod n \<and>
     num_samples r = min n (length h) \<and>
     mset (take (num_samples r) (samples r)) = mset (drop (length h - n) h) \<and>
     (\<forall>j<length h. length h \<le> j + n \<longrightarrow> samples r ! (j mod n) = h ! j)"

lemma has_seen_new: "n > 0 \<Longrightarrow> has_seen n [] (new_ring n init)"
  by (simp add: has_seen_def new_ring_def)

lemma mod_window_neq:
  fixes j l n :: nat
  assumes "j < l" "l < j + n" shows "j mod n \<noteq> l mod n"
proof
  assume "j mod n = l mod n"
  then have "n dvd l - j" using assms(1) mod_eq_dvd_iff_nat [of j l n] by simp
  then show False using assms by (auto dest: dvd_imp_le)
qed

lemma window_add:
  assumes seen: "has_seen n h r"
  shows "mset (take (min n (Suc (length h))) ((samples r)[length h mod n := x])) =
    mset (drop (Suc (length h) - n) (h @ [x]))"
proof (cases "length h < n")
  case True
  then show ?thesis
    using seen by (auto simp: has_seen_def take_Suc_conv_app_nth take_update_cancel)
next
  case False
  let ?i = "length h mod n"
  from seen have n: "length (samples r) = n" "n > 0" by (simp_all add: has_seen_def)
  have old: "samples r ! ?i = h ! (length h - n)"
    using seen False n mod_add_self2 [of "length h - n" n] by (simp add: has_seen_def)
  have m: "mset (samples r) = mset (drop (length h - n) h)"
    using seen False n by (auto simp: has_seen_def)
  have "drop (length h - n) h = h ! (length h - n) # drop (Suc (length h - n)) h"
    using False n by (simp add: Cons_nth_drop_Suc)
  then have "mset ((samples r)[?i := x]) = add_mset x (mset (drop (Suc (length h - n)) h))"
    using n old m by (simp add: mset_update)
  then show ?thesis using False n by (simp add: Suc_diff_le)
qed

lemma has_seen_add:
  assumes "has_seen n h r"
  shows "\<exists>r'. add_sample x r = Some r' \<and> has_seen n (h @ [x]) r'"
proof -
  from assms have n: "length (samples r) = n" "n > 0" "next_sample_idx r = length h mod n"
    "num_samples r = min n (length h)"
    and old: "\<And>j. j < length h \<Longrightarrow> length h \<le> j + n \<Longrightarrow> samples r ! (j mod n) = h ! j"
    by (auto simp: has_seen_def)
  define r' where "r' = r\<lparr>samples := (samples r)[length h mod n := x],
    next_sample_idx := Suc (length h) mod n, num_samples := min n (Suc (length h))\<rparr>"
  have "add_sample x r = Some r'"
    using n by (simp add: add_sample_def r'_def Let_def mod_Suc_eq)
  moreover have "samples r' ! (j mod n) = (h @ [x]) ! j"
    if "j < Suc (length h)" "Suc (length h) \<le> j + n" for j
  proof (cases "j = length h")
    case True
    then show ?thesis using n by (simp add: r'_def)
  next
    case False
    then show ?thesis
      using that old [of j] mod_window_neq [of j "length h" n] by (simp add: r'_def nth_append)
  qed
  ultimately show ?thesis
    using n window_add [OF assms, of x] by (auto simp: has_seen_def r'_def)
qed

text \<open>The ring after a sequence of samples.\<close>

fun add_samples :: "'a list \<Rightarrow> 'a sample_ring \<Rightarrow> 'a sample_ring option" where
  "add_samples [] r = Some r"
| "add_samples (x # xs) r = do { r' \<leftarrow> add_sample x r; add_samples xs r' }"

lemma has_seen_adds:
  "has_seen n h r \<Longrightarrow> \<exists>r'. add_samples xs r = Some r' \<and> has_seen n (h @ xs) r'"
proof (induction xs arbitrary: h r)
  case (Cons x xs)
  then obtain r1 where r1: "add_sample x r = Some r1" "has_seen n (h @ [x]) r1"
    using has_seen_add [of n h r x] by blast
  from Cons.IH [OF r1(2)] show ?case by (simp add: r1(1))
qed simp

lemma samples_split:
  assumes "has_seen n h r" "h \<noteq> []"
  shows "take (num_samples r) (samples r) = samples r ! 0 # later_samples r"
proof -
  from assms have "num_samples r > 0" "samples r \<noteq> []" by (auto simp: has_seen_def)
  then show ?thesis
    by (cases "samples r"; cases "num_samples r") (auto simp: later_samples_def)
qed

lemma fold_min: "fold (\<lambda>s m. min m s) xs a = Min (insert a (set xs))" for a :: "'a :: linorder"
proof -
  have "(\<lambda>s m. min m s) = (min :: 'a \<Rightarrow> 'a \<Rightarrow> 'a)" by (simp add: fun_eq_iff min.commute)
  then show ?thesis using Min.set_eq_fold [of a xs] by simp
qed

lemma fold_max: "fold (\<lambda>s m. max m s) xs a = Max (insert a (set xs))" for a :: "'a :: linorder"
proof -
  have "(\<lambda>s m. max m s) = (max :: 'a \<Rightarrow> 'a \<Rightarrow> 'a)" by (simp add: fun_eq_iff max.commute)
  then show ?thesis using Max.set_eq_fold [of a xs] by simp
qed

lemma fold_total: "fold (\<lambda>s t. t + s) xs a = a + sum_mset (mset xs)" for a :: nat
  by (induction xs arbitrary: a) (simp_all add: add.commute add.left_commute)

text \<open>
  The statistics of a ring that has seen \<open>h\<close> are those of the last \<open>n\<close> samples.
\<close>

lemma ring_statistics:
  fixes r :: "nat sample_ring"
  assumes "has_seen n h r" "h \<noteq> []"
  defines "w \<equiv> drop (length h - n) h"
  shows "get_min r = Min (set w)" "get_max r = Max (set w)"
    "get_total_and_count r = (sum_list w, length w)"
proof -
  have "mset (samples r ! 0 # later_samples r) = mset w"
    using assms samples_split [OF assms(1,2)] by (simp add: has_seen_def)
  then have eq: "insert (samples r ! 0) (set (later_samples r)) = set w"
    "samples r ! 0 + sum_mset (mset (later_samples r)) = sum_list w"
    by (metis list.simps(15) set_mset_mset, metis mset.simps(2) sum_mset.add_mset sum_mset_sum_list)
  show "get_min r = Min (set w)" "get_max r = Max (set w)"
    by (simp_all add: get_min_def get_max_def fold_min fold_max eq(1))
  show "get_total_and_count r = (sum_list w, length w)"
    using assms by (simp add: get_total_and_count_def fold_total eq(2) has_seen_def)
qed

end
