(* ===== verification/Auth.thy ===== *)
theory Auth
  imports Byte_Codec "HOL-Library.Countable"
begin

text \<open>
  Authentication material (\<open>auth.rs\<close>): the challenge a node mints for an adapter, the
  self-signed and OIDC blobs an adapter answers with, their text encoding, and the checks
  a node makes before it forwards them.  Base64, JSON, the hash functions, the RSA
  signature and X.509 parsing are other packages; they are the fields of the record
  \<open>auth_lib\<close>.  The clock (seconds since the epoch) and random bytes are arguments.
  The texts of error messages are not modelled.
\<close>

section \<open>Data\<close>

abbreviation (input) MAX_BLOB_AGE_SECONDS :: u64 where "MAX_BLOB_AGE_SECONDS \<equiv> 120"
abbreviation (input) MAX_OIDC_BLOB_AGE_SECONDS :: u64 where "MAX_OIDC_BLOB_AGE_SECONDS \<equiv> 330"

definition BLOB_TYPE_SS :: string where "BLOB_TYPE_SS = ''SS''"
definition BLOB_TYPE_OIDC :: string where "BLOB_TYPE_OIDC = ''OIDC''"

lemma blob_types_differ [simp]: "BLOB_TYPE_SS \<noteq> BLOB_TYPE_OIDC" "BLOB_TYPE_OIDC \<noteq> BLOB_TYPE_SS"
  by (simp_all add: BLOB_TYPE_SS_def BLOB_TYPE_OIDC_def)

record init_auth_payload =
  ia_nonce :: bytes
  ia_ctime :: u64
  ia_hmac :: bytes

record self_signed_blob =
  ss_blob_type :: string
  ss_ts :: u64
  ss_cn :: string
  ss_challenge :: string
  ss_sig :: string

record oidc_blob =
  oidc_blob_type :: string
  oidc_issuer :: string
  oidc_id_token :: string
  oidc_challenge :: string

datatype auth_blob = SelfSigned self_signed_blob | Oidc oidc_blob

datatype auth_namespace = Device | User

record oidc_idp_info =
  idp_issuer :: string
  idp_client_id :: string
  idp_client_secret :: "string option"
  idp_scopes :: "string list"
  idp_allow_offline_access :: bool

datatype auth_error = OpenSSLError | IOError | SerializationError | FormatError | DecodeError
  | InvalidHmac | ChallengeTooOld | OtherAuthError

record rsa_bootstrap_auth =
  bs_pkey :: bytes
  bs_cn :: string

text \<open>A parsed JSON document, with the constructors of \<open>serde_json::Value\<close>.\<close>

datatype json = JNull | JBool bool | JNumber string | JString string | JArray "json list"
  | JObject "(string \<times> json) list"

fun json_get :: "string \<Rightarrow> json \<Rightarrow> json option" where
  "json_get k (JObject kvs) = map_of kvs k"
| "json_get k _ = None"

record auth_lib =
  b64_decode :: "string \<Rightarrow> bytes option"
  b64_encode :: "bytes \<Rightarrow> string"
  b64_url_encode :: "bytes \<Rightarrow> string"
  keyed_hash :: "bytes \<Rightarrow> bytes \<Rightarrow> bytes"
  sha256 :: "bytes \<Rightarrow> bytes"
  sign_rsa_key :: "bytes \<Rightarrow> bytes \<Rightarrow> bytes"
  string_bytes :: "string \<Rightarrow> bytes"
  json_from_slice :: "bytes \<Rightarrow> json option"
  json_to_string :: "json \<Rightarrow> bytes"
  ss_from_value :: "json \<Rightarrow> self_signed_blob option"
  ss_to_value :: "self_signed_blob \<Rightarrow> json"
  oidc_from_value :: "json \<Rightarrow> oidc_blob option"
  oidc_to_value :: "oidc_blob \<Rightarrow> json"
  subject_common_name :: "bytes \<Rightarrow> unit + string option"

text \<open>
  What the code relies on: decoding inverts encoding for base64, JSON text and the two
  derived struct encodings, a struct is encoded as an object with its fields, and keyed
  hashes have 32 bytes.
\<close>

definition auth_lib_ok :: "auth_lib \<Rightarrow> bool" where
  "auth_lib_ok A \<longleftrightarrow>
     (\<forall>b. b64_decode A (b64_encode A b) = Some b) \<and>
     (\<forall>v. json_from_slice A (json_to_string A v) = Some v) \<and>
     (\<forall>s. ss_from_value A (ss_to_value A s) = Some s \<and>
        json_get ''blob_type'' (ss_to_value A s) = Some (JString (ss_blob_type s))) \<and>
     (\<forall>s. oidc_from_value A (oidc_to_value A s) = Some s \<and>
        json_get ''blob_type'' (oidc_to_value A s) = Some (JString (oidc_blob_type s))) \<and>
     (\<forall>k b. length (keyed_hash A k b) = 32)"

section \<open>Challenges\<close>

text \<open>
  The packed payload as bytes and back: 8 bytes of nonce, the big-endian time, 32 bytes of
  keyed hash.  A payload read from the wire has fields of these lengths.
\<close>

definition payload_ok :: "init_auth_payload \<Rightarrow> bool" where
  "payload_ok p \<longleftrightarrow> length (ia_nonce p) = 8 \<and> length (ia_hmac p) = 32"

definition challenge_of :: "init_auth_payload \<Rightarrow> bytes" where
  "challenge_of p = ia_nonce p @ be64 (ia_ctime p) @ ia_hmac p"

definition payload_of_bytes :: "bytes \<Rightarrow> init_auth_payload" where
  "payload_of_bytes b = \<lparr>ia_nonce = take 8 b, ia_ctime = get64 (drop 8 b), ia_hmac = drop 16 b\<rparr>"

lemma length_challenge_of [simp]: "payload_ok p \<Longrightarrow> length (challenge_of p) = 48"
  by (simp add: payload_ok_def challenge_of_def)

lemma payload_of_challenge [codec_simps]: "payload_ok p \<Longrightarrow> payload_of_bytes (challenge_of p) = p"
  by (simp add: payload_ok_def challenge_of_def payload_of_bytes_def get_be)

definition new_payload :: "auth_lib \<Rightarrow> u64 \<Rightarrow> bytes \<Rightarrow> bytes \<Rightarrow> init_auth_payload" where
  "new_payload A now rnd key = (let ctime = now; nonce = rnd in
     \<lparr>ia_nonce = nonce, ia_ctime = ctime, ia_hmac = keyed_hash A key (nonce @ be64 ctime)\<rparr>)"

lemma new_payload_ok [simp]: "auth_lib_ok A \<Longrightarrow> length rnd = 8 \<Longrightarrow> payload_ok (new_payload A now rnd key)"
  by (simp add: new_payload_def payload_ok_def auth_lib_ok_def)

text \<open>\<open>None\<close> is the overflow of \<open>ctime + max_age_seconds\<close>.\<close>

definition checked_add_u64 :: "u64 \<Rightarrow> u64 \<Rightarrow> u64 option" where
  "checked_add_u64 a b = (if unat a + unat b < 2 ^ 64 then Some (a + b) else None)"

definition verify_challenge_bytes :: "auth_lib \<Rightarrow> u64 \<Rightarrow> bytes \<Rightarrow> bytes \<Rightarrow> u64 \<Rightarrow> (auth_error + unit) option" where
  "verify_challenge_bytes A now payload_bytes key max_age_seconds =
     (if length payload_bytes \<noteq> 48 then Some (Inl FormatError)
      else let zpayload = payload_of_bytes payload_bytes;
        hash_ok = (keyed_hash A key (ia_nonce zpayload @ be64 (ia_ctime zpayload)) = ia_hmac zpayload)
      in if \<not> hash_ok then Some (Inl InvalidHmac)
      else do {
        limit \<leftarrow> checked_add_u64 (ia_ctime zpayload) max_age_seconds;
        Some (if now > limit then Inl ChallengeTooOld else Inr ())
      })"

definition common_name :: "auth_lib \<Rightarrow> bytes \<Rightarrow> string option" where
  "common_name A cert = (case subject_common_name A cert of Inl _ \<Rightarrow> None | Inr cn \<Rightarrow> cn)"

definition check_link_cn :: "auth_lib \<Rightarrow> bytes option \<Rightarrow> self_signed_blob \<Rightarrow> auth_error + unit" where
  "check_link_cn A peer_cert ss = (case peer_cert of None \<Rightarrow> Inr ()
     | Some cert \<Rightarrow> (case common_name A cert of
         Some link_cn \<Rightarrow> if link_cn \<noteq> ss_cn ss then Inl FormatError else Inr ()
       | None \<Rightarrow> Inl FormatError))"

definition verify_blob_challenge ::
  "auth_lib \<Rightarrow> u64 \<Rightarrow> self_signed_blob \<Rightarrow> bytes option \<Rightarrow> bytes \<Rightarrow> u64 \<Rightarrow> (auth_error + unit) option" where
  "verify_blob_challenge A now ss peer_cert key max_age_seconds = (case check_link_cn A peer_cert ss of
     Inl e \<Rightarrow> Some (Inl e)
   | Inr _ \<Rightarrow> (case b64_decode A (ss_challenge ss) of
       None \<Rightarrow> Some (Inl DecodeError)
     | Some payload_bytes \<Rightarrow> verify_challenge_bytes A now payload_bytes key max_age_seconds))"

definition verify_oidc_challenge :: "auth_lib \<Rightarrow> u64 \<Rightarrow> oidc_blob \<Rightarrow> bytes \<Rightarrow> (auth_error + bytes) option" where
  "verify_oidc_challenge A now blob key = (case b64_decode A (oidc_challenge blob) of
     None \<Rightarrow> Some (Inl DecodeError)
   | Some payload_bytes \<Rightarrow> do {
       r \<leftarrow> verify_challenge_bytes A now payload_bytes key MAX_OIDC_BLOB_AGE_SECONDS;
       Some (case r of Inl e \<Rightarrow> Inl e | Inr _ \<Rightarrow> Inr payload_bytes)
     })"

definition oidc_nonce_for_challenge :: "auth_lib \<Rightarrow> bytes \<Rightarrow> string" where
  "oidc_nonce_for_challenge A challenge = b64_url_encode A (sha256 A challenge)"

section \<open>Blobs\<close>

fun namespace :: "auth_blob \<Rightarrow> auth_namespace" where
  "namespace (SelfSigned _) = Device"
| "namespace (Oidc _) = User"

definition blob_namespaces :: "auth_blob list \<Rightarrow> auth_namespace set" where
  "blob_namespaces blobs = namespace ` set blobs"

definition encode_ss :: "auth_lib \<Rightarrow> self_signed_blob \<Rightarrow> string" where
  "encode_ss A ss = b64_encode A (json_to_string A (ss_to_value A ss))"

definition decode_blob_value :: "auth_lib \<Rightarrow> json \<Rightarrow> auth_error + auth_blob" where
  "decode_blob_value A jobj = (case json_get ''blob_type'' jobj of
     None \<Rightarrow> Inl FormatError
   | Some blob_type \<Rightarrow> (case blob_type of
       JString t \<Rightarrow>
         if t = BLOB_TYPE_SS then (case ss_from_value A jobj of
             Some ss \<Rightarrow> Inr (SelfSigned ss) | None \<Rightarrow> Inl SerializationError)
         else if t = BLOB_TYPE_OIDC then (case oidc_from_value A jobj of
             Some oidc \<Rightarrow> Inr (Oidc oidc) | None \<Rightarrow> Inl SerializationError)
         else Inl FormatError
     | _ \<Rightarrow> Inl FormatError))"

text \<open>Collecting an iterator of results stops at the first error.\<close>

fun decode_all :: "auth_lib \<Rightarrow> json list \<Rightarrow> auth_error + auth_blob list" where
  "decode_all A [] = Inr []"
| "decode_all A (v # vs) = (case decode_blob_value A v of
     Inl e \<Rightarrow> Inl e
   | Inr b \<Rightarrow> (case decode_all A vs of Inl e \<Rightarrow> Inl e | Inr bs \<Rightarrow> Inr (b # bs)))"

definition decode_blobs :: "auth_lib \<Rightarrow> string \<Rightarrow> auth_error + auth_blob list" where
  "decode_blobs A blob_str = (case b64_decode A blob_str of
     None \<Rightarrow> Inl DecodeError
   | Some json_txt \<Rightarrow> (case json_from_slice A json_txt of
       None \<Rightarrow> Inl SerializationError
     | Some (JArray items) \<Rightarrow> if items = [] then Inl FormatError else decode_all A items
     | Some obj \<Rightarrow> (case decode_blob_value A obj of Inl e \<Rightarrow> Inl e | Inr b \<Rightarrow> Inr [b])))"

fun blob_to_value :: "auth_lib \<Rightarrow> auth_blob \<Rightarrow> json" where
  "blob_to_value A (SelfSigned ss) = ss_to_value A ss"
| "blob_to_value A (Oidc oidc) = oidc_to_value A oidc"

definition encode_blobs :: "auth_lib \<Rightarrow> auth_blob list \<Rightarrow> string" where
  "encode_blobs A blobs = b64_encode A (json_to_string A (JArray (map (blob_to_value A) blobs)))"

definition authenticate_blob :: "auth_lib \<Rightarrow> u64 \<Rightarrow> rsa_bootstrap_auth \<Rightarrow> init_auth_payload \<Rightarrow> auth_error + self_signed_blob" where
  "authenticate_blob A now bs payload = Inr (
     let challenge = challenge_of payload;
         ts = now;
         data = be64 ts @ string_bytes A (bs_cn bs) @ challenge;
         signature = sign_rsa_key A (bs_pkey bs) data
     in \<lparr>ss_blob_type = BLOB_TYPE_SS, ss_ts = ts, ss_cn = bs_cn bs,
         ss_challenge = b64_encode A challenge, ss_sig = b64_encode A signature\<rparr>)"

definition authenticate :: "auth_lib \<Rightarrow> u64 \<Rightarrow> rsa_bootstrap_auth \<Rightarrow> init_auth_payload \<Rightarrow> auth_error + string" where
  "authenticate A now bs payload = (case authenticate_blob A now bs payload of
     Inl e \<Rightarrow> Inl e | Inr blob \<Rightarrow> Inr (encode_ss A blob))"

section \<open>The blob encoding is read back\<close>

text \<open>The tag field of a blob that the code built names its variant.\<close>

fun well_tagged :: "auth_blob \<Rightarrow> bool" where
  "well_tagged (SelfSigned ss) \<longleftrightarrow> ss_blob_type ss = BLOB_TYPE_SS"
| "well_tagged (Oidc oidc) \<longleftrightarrow> oidc_blob_type oidc = BLOB_TYPE_OIDC"

lemma decode_blob_to_value [codec_simps]:
  "auth_lib_ok A \<Longrightarrow> well_tagged b \<Longrightarrow> decode_blob_value A (blob_to_value A b) = Inr b"
  by (cases b) (simp_all add: decode_blob_value_def auth_lib_ok_def)

lemma decode_all_to_values [codec_simps]:
  "auth_lib_ok A \<Longrightarrow> list_all well_tagged bs \<Longrightarrow> decode_all A (map (blob_to_value A) bs) = Inr bs"
  by (induction bs) (simp_all add: decode_blob_to_value)

lemma decode_encode_blobs:
  assumes "auth_lib_ok A" and "list_all well_tagged bs"
  shows "decode_blobs A (encode_blobs A bs) = (if bs = [] then Inl FormatError else Inr bs)"
  using assms decode_all_to_values [OF assms]
  by (simp add: decode_blobs_def encode_blobs_def auth_lib_ok_def)

lemma to_value_not_array:
  assumes "auth_lib_ok A" shows "blob_to_value A b \<noteq> JArray vs"
proof
  assume *: "blob_to_value A b = JArray vs"
  have "json_get ''blob_type'' (blob_to_value A b) \<noteq> None"
    using assms by (cases b) (simp_all add: auth_lib_ok_def)
  then show False by (simp add: *)
qed

text \<open>The bare object of the bootstrap path is the one-element case of the same decoder.\<close>

lemma decode_encode_ss:
  assumes "auth_lib_ok A" and "ss_blob_type ss = BLOB_TYPE_SS"
  shows "decode_blobs A (encode_ss A ss) = Inr [SelfSigned ss]"
proof -
  have v: "decode_blob_value A (ss_to_value A ss) = Inr (SelfSigned ss)"
    using decode_blob_to_value [OF assms(1), of "SelfSigned ss"] assms(2) by simp
  have "\<forall>vs. ss_to_value A ss \<noteq> JArray vs"
    using to_value_not_array [OF assms(1), of "SelfSigned ss"] by simp
  then show ?thesis
    using assms(1) v
    by (cases "ss_to_value A ss") (simp_all add: decode_blobs_def encode_ss_def auth_lib_ok_def)
qed

section \<open>The challenge checks\<close>

lemma verify_minted:
  assumes "auth_lib_ok A" and "length rnd = 8"
  shows "verify_challenge_bytes A now (challenge_of (new_payload A t rnd key)) key lim =
    do { limit \<leftarrow> checked_add_u64 t lim; Some (if now > limit then Inl ChallengeTooOld else Inr ()) }"
  using assms by (simp add: verify_challenge_bytes_def payload_of_challenge)
    (simp add: new_payload_def Let_def)

lemma be64_get64: "length bs \<ge> 8 \<Longrightarrow> be64 (get64 bs) = take 8 bs"
proof -
  assume "length bs \<ge> 8"
  then have len: "length (take 8 bs) = 8" by simp
  then have "of_be (take 8 bs) < 2 ^ 64"
    using of_be_less [of "take 8 bs"] by simp
  then show ?thesis
    using to_be_of_be [of "take 8 bs"] len by (simp add: be64_def get64_def unat_of_nat)
qed

text \<open>
  What acceptance means: the bytes are a nonce, a time and the keyed hash of the two, and
  the time is recent.
\<close>

lemma verify_challenge_bytes_accepts:
  "verify_challenge_bytes A now b key lim = Some (Inr ()) \<longleftrightarrow>
     length b = 48 \<and> drop 16 b = keyed_hash A key (take 16 b) \<and>
     unat (get64 (drop 8 b)) + unat lim < 2 ^ 64 \<and> unat now \<le> unat (get64 (drop 8 b)) + unat lim"
proof (cases "length b = 48")
  case True
  have "take 8 b @ be64 (get64 (drop 8 b)) = take (8 + 8) b"
    using True by (simp only: be64_get64 take_add length_drop)
  then have h: "take 8 b @ be64 (get64 (drop 8 b)) = take 16 b" by simp
  let ?t = "get64 (drop 8 b)"
  have sum: "unat (?t + lim) = unat ?t + unat lim" if "unat ?t + unat lim < 2 ^ 64"
    using that by (simp add: unat_word_ariths)
  show ?thesis
    using True sum h
    by (auto simp: verify_challenge_bytes_def payload_of_bytes_def checked_add_u64_def Let_def
        word_less_nat_alt not_less)
qed (simp add: verify_challenge_bytes_def)

lemma verify_oidc_challenge_accepts:
  "verify_oidc_challenge A now blob key = Some (Inr c) \<longleftrightarrow>
     b64_decode A (oidc_challenge blob) = Some c \<and>
     verify_challenge_bytes A now c key MAX_OIDC_BLOB_AGE_SECONDS = Some (Inr ())"
  by (auto simp: verify_oidc_challenge_def panic_simps old.unit.exhaust
      split: option.splits sum.splits intro: sum.exhaust)

section \<open>A concrete library\<close>

text \<open>
  An instance of the library that satisfies what the code relies on: JSON values are
  numbered, text is stored byte by byte, hashes keep the last bytes of the input.
\<close>

instance json :: countable
  by countable_datatype

definition demo_bytes :: "string \<Rightarrow> bytes" where
  "demo_bytes str = map (\<lambda>c. of_nat (of_char c)) str"

definition demo_text :: "bytes \<Rightarrow> string" where
  "demo_text b = map (\<lambda>w. char_of (unat w)) b"

lemma demo_bytes_text [simp]: "demo_bytes (demo_text b) = b"
  using unat_u8_less by (induction b) (simp_all add: demo_bytes_def demo_text_def take_bit_eq_mod)

definition demo_auth :: auth_lib where
  "demo_auth = \<lparr>
     b64_decode = (\<lambda>str. Some (demo_bytes str)),
     b64_encode = demo_text,
     b64_url_encode = demo_text,
     keyed_hash = (\<lambda>key b. take 32 (rev b @ key @ replicate 32 0)),
     sha256 = (\<lambda>b. take 32 (b @ replicate 32 0)),
     sign_rsa_key = (\<lambda>key b. key @ b),
     string_bytes = demo_bytes,
     json_from_slice = (\<lambda>b. Some (from_nat (length b))),
     json_to_string = (\<lambda>v. replicate (to_nat v) 0),
     ss_from_value = (\<lambda>v. case v of
        JObject [(_, JString t), (_, JNumber ts), (_, JString cn), (_, JString c), (_, JString g)] \<Rightarrow>
          Some \<lparr>ss_blob_type = t, ss_ts = of_nat (length ts), ss_cn = cn, ss_challenge = c, ss_sig = g\<rparr>
      | _ \<Rightarrow> None),
     ss_to_value = (\<lambda>ss. JObject [(''blob_type'', JString (ss_blob_type ss)),
        (''ts'', JNumber (replicate (unat (ss_ts ss)) CHR ''1'')), (''cn'', JString (ss_cn ss)),
        (''challenge'', JString (ss_challenge ss)), (''sig'', JString (ss_sig ss))]),
     oidc_from_value = (\<lambda>v. case v of
        JObject [(_, JString t), (_, JString i), (_, JString k), (_, JString c)] \<Rightarrow>
          Some \<lparr>oidc_blob_type = t, oidc_issuer = i, oidc_id_token = k, oidc_challenge = c\<rparr>
      | _ \<Rightarrow> None),
     oidc_to_value = (\<lambda>b. JObject [(''blob_type'', JString (oidc_blob_type b)),
        (''issuer'', JString (oidc_issuer b)), (''id_token'', JString (oidc_id_token b)),
        (''challenge'', JString (oidc_challenge b))]),
     subject_common_name = (\<lambda>cert. Inr (Some (demo_text cert)))\<rparr>"

lemma demo_auth_ok: "auth_lib_ok demo_auth"
  by (auto simp: auth_lib_ok_def demo_auth_def)

end
