(* ===== verification/Address_Pool.thy ===== *)
theory Address_Pool
  imports Byte_Codec
begin

text \<open>
  The pool of temporary (AAA) addresses a node hands out while an adapter authenticates
  (\<open>address_pool.rs\<close>).  The random bytes of an allocation are an argument.  The search
  for a free identifier is a loop that need not end, so it is a partial function whose
  \<open>None\<close> is divergence.
\<close>

section \<open>Operations\<close>

abbreviation (input) MAX_AAA_ID :: u64 where "MAX_AAA_ID \<equiv> 0xffffffffff"

datatype address_pool_error = InvalidAddress | InvalidPrefixLength

record address_pool =
  ap_net_addr :: bytes
  ap_prefix_len :: nat
  ap_active :: "u64 set"

definition new_address_pool :: "bytes \<Rightarrow> nat \<Rightarrow> address_pool_error + address_pool" where
  "new_address_pool net_addr prefix_len = (if prefix_len > 88 then Inl InvalidPrefixLength
     else Inr \<lparr>ap_net_addr = net_addr, ap_prefix_len = prefix_len, ap_active = {}\<rparr>)"

partial_function (option) find_free :: "u64 set \<Rightarrow> u64 \<Rightarrow> u64 option" where
  "find_free active this_id = (if this_id \<notin> active then Some this_id
     else find_free active ((this_id + 1) mod MAX_AAA_ID))"

definition aaa_address :: "bytes \<Rightarrow> u64 \<Rightarrow> bytes" where
  "aaa_address base this_id = take 11 base @ [ucast (drop_bit 32 this_id)]
     @ be16 (ucast (drop_bit 16 this_id)) @ be16 (ucast (this_id AND 0xFFFF))"

definition get_aaa_address :: "bytes \<Rightarrow> address_pool \<Rightarrow> (bytes \<times> address_pool) option" where
  "get_aaa_address buf pool = do {
     this_id \<leftarrow> find_free (ap_active pool) (get64 buf AND MAX_AAA_ID);
     Some (aaa_address (ap_net_addr pool) this_id,
           pool\<lparr>ap_active := insert this_id (ap_active pool)\<rparr>)
   }"

definition aaa_id :: "bytes \<Rightarrow> u64" where
  "aaa_id address = of_nat (of_be (take 5 (drop 11 address)))"

definition release_address :: "bytes \<Rightarrow> address_pool \<Rightarrow> (address_pool_error + unit) \<times> address_pool" where
  "release_address address pool =
     (if address ! 6 \<noteq> 0x0a \<or> address ! 7 \<noteq> 0xaa then (Inl InvalidAddress, pool)
      else (Inr (), pool\<lparr>ap_active := ap_active pool - {aaa_id address}\<rparr>))"

section \<open>Identifiers and addresses\<close>

lemma of_nat_div: "(of_nat (unat w div 2 ^ k) :: 'b :: len word) = ucast (drop_bit k w)" for w :: "'a :: len word"
proof -
  have "take_bit LENGTH('a) (unat w) = unat w"
    by (simp add: take_bit_nat_eq_self_iff)
  then have "unat (drop_bit k w) = drop_bit k (unat w)"
    by (simp only: unsigned_drop_bit_eq)
  then show ?thesis by (metis drop_bit_eq_div of_nat_unat)
qed

lemma u64_40_bits: "(w AND MAX_AAA_ID) = w \<longleftrightarrow> unat w < 2 ^ 40" for w :: u64
proof -
  have m: "w AND MAX_AAA_ID = take_bit 40 w" by (simp add: take_bit_eq_mask mask_eq_decr_exp)
  have u: "unat (take_bit 40 w) = take_bit 40 (unat w)" by (rule unsigned_take_bit_eq)
  show ?thesis unfolding m word_unat_eq_iff u take_bit_nat_eq_self_iff ..
qed

lemma be16_words: "be16 w = [ucast (drop_bit 8 w), ucast w]"
  using of_nat_div [of w 8, where 'b = 8] by (simp add: be16_bytes)

lemma to_be_5: "to_be 5 n = [of_nat (n div 2 ^ 32), of_nat (n div 2 ^ 24), of_nat (n div 2 ^ 16),
    of_nat (n div 2 ^ 8), of_nat n]"
proof -
  have "(5 :: nat) = Suc (Suc (Suc (Suc (Suc 0))))" by simp
  then show ?thesis by (simp only: to_be.simps append.simps) (simp add: div_mult2_eq [symmetric])
qed

lemma aaa_address_eq: "aaa_address base i = take 11 base @ to_be 5 (unat i)"
proof -
  have m: "(0xFFFF :: u64) = mask 16" by (simp add: mask_eq_decr_exp)
  show ?thesis
    unfolding aaa_address_def to_be_5 of_nat_div be16_words m
    by (simp del: drop_bit_eq_div) (intro conjI; rule bit_word_eqI; simp add: bit_simps)
qed

lemma and_40_bits: "unat (w AND MAX_AAA_ID) < 2 ^ 40" for w :: u64
  unfolding u64_40_bits [symmetric] by (simp only: and.assoc and.idem)

lemma aaa_id_address:
  assumes "length base = 16" and "unat i < 2 ^ 40"
  shows "aaa_id (aaa_address base i) = i"
  using assms by (simp add: aaa_id_def aaa_address_eq of_be_to_be)

lemma aaa_address_frame:
  "length base = 16 \<Longrightarrow> length (aaa_address base i) = 16 \<and> take 11 (aaa_address base i) = take 11 base"
  by (simp add: aaa_address_eq)

section \<open>The search ends\<close>

lemma next_id: "unat ((i + 1) mod MAX_AAA_ID) = Suc (unat i) mod (2 ^ 40 - 1)" if "unat i < 2 ^ 40" for i :: u64
proof -
  have "unat (i + 1) = Suc (unat i)" using that by (simp add: unat_word_ariths)
  then show ?thesis by (simp only: unat_mod) simp
qed

lemma find_free_steps:
  assumes "unat i < 2 ^ 40" and "of_nat ((unat i + Suc k) mod (2 ^ 40 - 1)) \<notin> active"
  shows "\<exists>j. find_free active i = Some j"
  using assms
proof (induction k arbitrary: i)
  case 0
  define n where "n = (i + 1) mod MAX_AAA_ID"
  have un: "unat n = Suc (unat i) mod (2 ^ 40 - 1)" unfolding n_def by (rule next_id [OF 0(1)])
  then have "n = of_nat ((unat i + Suc 0) mod (2 ^ 40 - 1))" 
    by (metis add_Suc_right add_0_right of_nat_unat ucast_id)
  then have "find_free active n = Some n" using 0(2) by (simp add: find_free.simps)
  then show ?case by (subst find_free.simps) (simp add: n_def)
next
  case (Suc k)
  define n where "n = (i + 1) mod MAX_AAA_ID"
  have un: "unat n = Suc (unat i) mod (2 ^ 40 - 1)" unfolding n_def by (rule next_id [OF Suc.prems(1)])
  then have "(unat n + Suc k) mod (2 ^ 40 - 1) = (unat i + Suc (Suc k)) mod (2 ^ 40 - 1)"
    by (simp only: mod_add_left_eq) simp
  moreover have "unat n < 2 ^ 40" using un by simp
  ultimately have "\<exists>j. find_free active n = Some j"
    using Suc.IH [of n] Suc.prems(2) by simp
  then show ?case by (subst find_free.simps) (simp add: n_def)
qed

lemma of_nat_inverse_u64: "n < 2 ^ 64 \<Longrightarrow> unat (of_nat n :: u64) = n"
  by (simp add: unat_of_nat)

lemma some_id_free:
  assumes "m < 2 ^ 64" and "card active < m"
  shows "\<exists>n<m. (of_nat n :: u64) \<notin> active"
proof (rule ccontr)
  assume "\<not> ?thesis"
  then have sub: "(of_nat :: nat \<Rightarrow> u64) ` {..<m} \<subseteq> active" by auto
  have "inj_on (of_nat :: nat \<Rightarrow> u64) {..<m}"
  proof (rule inj_onI)
    fix x y assume "x \<in> {..<m}" "y \<in> {..<m}" "(of_nat x :: u64) = of_nat y"
    then have "x < 2 ^ 64" "y < 2 ^ 64" "(of_nat x :: u64) = of_nat y" using assms(1) by auto
    then show "x = y" by (metis of_nat_inverse_u64)
  qed
  then have "card ((of_nat :: nat \<Rightarrow> u64) ` {..<m}) = m" by (simp only: card_image card_lessThan)
  then show False using card_mono [OF finite sub] assms(2) by linarith
qed

lemma find_free_ends:
  assumes "unat i < 2 ^ 40" and "card active < 2 ^ 40 - 1"
  shows "\<exists>j. find_free active i = Some j"
proof -
  define m where "m = (2 ^ 40 - 1 :: nat)"
  have "m < 2 ^ 64" by (simp add: m_def)
  moreover have "card active < m" using assms(2) by (simp only: m_def)
  ultimately obtain n where n: "n < m" "(of_nat n :: u64) \<notin> active"
    using some_id_free by blast
  define k where "k = n + 2 * m - unat i - 1"
  have "unat i < n + 2 * m" using assms(1) by (simp add: m_def)
  then have "unat i + Suc k = n + m * 2" by (simp add: k_def)
  then have "(unat i + Suc k) mod m = n" using n(1) by simp
  then have "of_nat ((unat i + Suc k) mod (2 ^ 40 - 1)) \<notin> active" using n(2) by (simp only: m_def not_False_eq_True)
  then show ?thesis by (rule find_free_steps [OF assms(1)])
qed

lemma find_free_free:
  assumes "find_free active i = Some j" shows "j \<notin> active"
proof (rule find_free.raw_induct [OF _ assms, where P = "\<lambda>active i j. j \<notin> active"])
  fix f :: "u64 set \<Rightarrow> u64 \<Rightarrow> u64 option" and active i j
  assume IH: "\<And>active i j. f active i = Some j \<Longrightarrow> j \<notin> active"
    and eq: "(if i \<notin> active then Some i else f active ((i + 1) mod MAX_AAA_ID)) = Some j"
  show "j \<notin> active" using eq IH by (cases "i \<in> active") auto
qed

lemma find_free_40_bits:
  assumes "find_free active i = Some j" and "unat i < 2 ^ 40" shows "unat j < 2 ^ 40"
proof -
  have "unat i < 2 ^ 40 \<longrightarrow> unat j < 2 ^ 40"
  proof (rule find_free.raw_induct [OF _ assms(1), where P = "\<lambda>_ i j. unat i < 2 ^ 40 \<longrightarrow> unat j < 2 ^ 40"], rule impI)
    fix f :: "u64 set \<Rightarrow> u64 \<Rightarrow> u64 option" and active i j
    assume IH: "\<And>active i j. f active i = Some j \<Longrightarrow> unat i < 2 ^ 40 \<longrightarrow> unat j < 2 ^ 40"
      and eq: "(if i \<notin> active then Some i else f active ((i + 1) mod MAX_AAA_ID)) = Some j"
      and lt: "unat i < 2 ^ 40"
    have "unat ((i + 1) mod MAX_AAA_ID) < 2 ^ 40" unfolding next_id [OF lt] by simp
    then show "unat j < 2 ^ 40"
      using IH [of active "(i + 1) mod MAX_AAA_ID" j] eq lt by (cases "i \<in> active") auto
  qed
  then show ?thesis using assms(2) by blast
qed

section \<open>Allocation and release\<close>

text \<open>
  A pool as the visa service configures it: a 16-byte network address of the AAA form, and
  identifiers of 40 bits.
\<close>

definition pool_ok :: "address_pool \<Rightarrow> bool" where
  "pool_ok pool \<longleftrightarrow> length (ap_net_addr pool) = 16 \<and> ap_net_addr pool ! 6 = 0x0a \<and>
     ap_net_addr pool ! 7 = 0xaa \<and> (\<forall>i\<in>ap_active pool. unat i < 2 ^ 40)"

lemma aaa_address_nth: "length base = 16 \<Longrightarrow> n < 11 \<Longrightarrow> aaa_address base i ! n = base ! n"
  by (simp add: aaa_address_eq nth_append)

lemma get_aaa_address_Some:
  assumes "get_aaa_address buf pool = Some (a, pool')" and "pool_ok pool"
  shows "\<exists>i. i \<notin> ap_active pool \<and> unat i < 2 ^ 40 \<and> a = aaa_address (ap_net_addr pool) i \<and>
    pool' = pool\<lparr>ap_active := insert i (ap_active pool)\<rparr>"
  using assms find_free_free find_free_40_bits and_40_bits
  unfolding get_aaa_address_def by (fastforce elim!: bind_SomeE)

lemma release_aaa_address:
  assumes "pool_ok pool" and "unat i < 2 ^ 40"
  shows "release_address (aaa_address (ap_net_addr pool) i) (pool\<lparr>ap_active := insert i act\<rparr>) =
    (Inr (), pool\<lparr>ap_active := act - {i}\<rparr>)"
  using assms by (simp add: release_address_def pool_ok_def aaa_address_nth aaa_id_address)

lemma get_aaa_address_ends:
  "card (ap_active pool) < 2 ^ 40 - 1 \<Longrightarrow> \<exists>a pool'. get_aaa_address buf pool = Some (a, pool')"
  using find_free_ends [OF and_40_bits, of "ap_active pool" "get64 buf"]
  by (auto simp: get_aaa_address_def)

text \<open>
  C33: As long as fewer than 2^40 - 1 identifiers are in use, allocating a temporary address
  ends, whatever the random bytes are; the address lies in the pool's network, belongs to no
  address that is in use, and releasing it restores the pool exactly.
\<close>

theorem aaa_allocate_release:
  assumes "pool_ok pool" and "card (ap_active pool) < 2 ^ 40 - 1"
  shows "\<exists>a pool'. get_aaa_address buf pool = Some (a, pool') \<and> pool_ok pool' \<and>
    length a = 16 \<and> take 11 a = take 11 (ap_net_addr pool) \<and>
    aaa_id a \<notin> ap_active pool \<and> ap_active pool' = insert (aaa_id a) (ap_active pool) \<and>
    release_address a pool' = (Inr (), pool)"
proof -
  obtain a pool' where get: "get_aaa_address buf pool = Some (a, pool')"
    using get_aaa_address_ends [OF assms(2)] by blast
  then obtain i where i: "i \<notin> ap_active pool" "unat i < 2 ^ 40"
    "a = aaa_address (ap_net_addr pool) i" "pool' = pool\<lparr>ap_active := insert i (ap_active pool)\<rparr>"
    using get_aaa_address_Some [OF _ assms(1)] by blast
  have len: "length (ap_net_addr pool) = 16" using assms(1) by (simp add: pool_ok_def)
  have "release_address a pool' = (Inr (), pool)"
    using release_aaa_address [OF assms(1) i(2), of "ap_active pool"] i by simp
  then show ?thesis
    using get i aaa_id_address [OF len i(2)] aaa_address_frame [OF len, of i] assms(1)
    by (auto simp: pool_ok_def)
qed

definition demo_pool :: address_pool where
  "demo_pool = \<lparr>ap_net_addr = [0xfd, 0x5a, 0x50, 0x52, 0, 0, 0x0a, 0xaa, 0, 0, 0, 0, 0, 0, 0, 0],
     ap_prefix_len = 64, ap_active = {7}\<rparr>"

theorem aaa_allocate_release_witness:
  "\<exists>a pool'. get_aaa_address [0, 0, 0, 0, 0, 0, 0, 7] demo_pool = Some (a, pool') \<and>
     aaa_id a \<notin> {7} \<and> release_address a pool' = (Inr (), demo_pool)"
  using aaa_allocate_release [of demo_pool "[0, 0, 0, 0, 0, 0, 0, 7]"]
  by (auto simp: demo_pool_def pool_ok_def)

end
