(* ===== verification/Link_State.thy ===== *)
theory Link_State
  imports Auth Address_Pool Sample_Ring
begin

text \<open>
  The link state machine (\<open>link_state.rs\<close>): its data, its timers and the renewal clock.
  A link is one record holding the fields of \<open>LinkStateWrapper\<close>, of the locked
  \<open>LinkStateMachine\<close> and of the locked \<open>LinkData\<close> (the time of the last state change,
  which is only printed, is left out).  Everything a handler does to the rest of the process
  is appended to \<open>lw_out\<close> as a \<open>link_action\<close>, in the order the code does it; the address
  pool, which handlers read back, is part of the state.  Everything a handler reads from
  the rest of the process is a field of the environment \<open>link_env\<close>, so that one handler run
  is a function of its environment, its arguments and the link.

  Handlers return \<open>None\<close> when they panic.  Times are nanoseconds: \<open>SystemTime\<close> and
  \<open>Instant\<close> an integer, \<open>Duration\<close> a natural number.  Message texts are abbreviated to
  their fixed part.
\<close>

section \<open>States and events\<close>

type_synonym ip = bytes
type_synonym system_time = int
type_synonym duration = nat

definition secs :: "nat \<Rightarrow> duration" where
  "secs n = n * 1000000000"

text \<open>\<open>ResponseCode\<close> and \<open>TerminateReason\<close> are open enumerations: any byte.\<close>

type_synonym response_code = u8
type_synonym terminate_reason = u8

abbreviation (input) RC_Success :: response_code where "RC_Success \<equiv> 0"
abbreviation (input) RC_Other :: response_code where "RC_Other \<equiv> 1"
abbreviation (input) RC_AuthFailed :: response_code where "RC_AuthFailed \<equiv> 2"
abbreviation (input) RC_PolicyDenied :: response_code where "RC_PolicyDenied \<equiv> 3"
abbreviation (input) RC_AuthUnavailable :: response_code where "RC_AuthUnavailable \<equiv> 4"

abbreviation (input) TR_Other :: terminate_reason where "TR_Other \<equiv> 0"
abbreviation (input) TR_RequestTimedOut :: terminate_reason where "TR_RequestTimedOut \<equiv> 2"
abbreviation (input) TR_Reset :: terminate_reason where "TR_Reset \<equiv> 3"
abbreviation (input) TR_Shutdown :: terminate_reason where "TR_Shutdown \<equiv> 4"

datatype link_state = Inactive | Keying | Helloing | Disconnecting terminate_reason | Closing
  | Resetting | Active | RegisterAA | WaitForInitAuth | WaitForAcquireZprAddress
  | WaitForUserAuth | ErrorState

datatype link_type = Internal | AdapterToNode | NodeToNode | NodeToAdapter

datatype link_status = Up | Down

datatype auth_failure_reason = NoAgent | UserDeclined | InteractionTimeout | IdpUnreachable string
  | AgentError string | VisaServiceRejected string | PolicyDenied | AuthUnavailable
  | DeviceBlobRejected | LinkFailed terminate_reason | GrantedAddressMismatch "ip list" "ip list"
  | ActivationFailed string

datatype renewal_start = Accepted | Coalesced | Ignored

datatype link_state_error = UnexpectedTransition link_state string | InvalidOperation string
  | NotFound nat | OperationNotSupportedYet

text \<open>The error codes of the visa service that the code tells apart.\<close>

datatype vs_error_code = Vs_InvalidSignature | Vs_AuthError | Vs_ParamError | Vs_PolicyDenied
  | Vs_TemporarilyUnavailable | Vs_OtherCode nat

datatype link_event = Start | KeyingDone | ReceivedHelloRequest | AssignedAAA ip
  | ReceivedHelloResponse response_code "ip option" "oidc_idp_info list option"
  | ReceivedInitAuth bool "init_auth_payload option" | ReceivedInitAuthAck | ReceivedInitAuthTimeout
  | ReceivedRenewAuthRequest init_auth_payload
  | ReceivedRenewAuthResponse bytes "response_code + string"
  | ReceivedAcquireZprAddressRequest "ip list option" string
  | ReceivedGrantZprAddressRequest "response_code + ip list"
  | AuthenticationSuccess "auth_blob list" | AuthenticationFailure auth_failure_reason
  | ReceivedAuthorizeResponse ip | ReceivedAuthorizeFailure vs_error_code string
  | ReceivedKeepAliveResponse | ReceivedTerminateLink terminate_reason | ReceivedTerminateAck
  | ReceivedDisconnectAck | Close terminate_reason | CloseDone | ErrorEvent | Timeout u64

record renewal_identity =
  ri_idp :: oidc_idp_info
  ri_nonce :: string

text \<open>Blobs and connect requests in the form the visa service takes.\<close>

datatype vst_blob = Vst_SS bytes string u64 bytes | Vst_Oidc string string string

record connect_request =
  cr_blobs :: "vst_blob list"
  cr_claims :: "(string \<times> string) list"
  cr_substrate_addr :: ip
  cr_public_key :: bytes

section \<open>Effects\<close>

datatype link_action =
    Arm_Timeout duration u64
  | Reset_Zdpr_Session
  | Km_Add_Adapter_Link | Km_Add_Node_Link | Km_Drop_Link_Then_CloseDone
  | Assign_Special_Name
  | Count_Handshake_Success | Count_Handshake_Failure
  | Send_Hello_Request
  | Send_Hello_Success "oidc_idp_info list" "ip option"
  | Send_Init_Authentication init_auth_payload
  | Send_Acquire_Zpr_Address "ip list" string
  | Send_Grant_Zpr_Address response_code "ip list"
  | Send_Echo
  | Send_Terminate terminate_reason
  | Send_Renew_Request init_auth_payload
  | Send_Renew_Response response_code bytes string
  | Authorize_Connect connect_request
  | Defer_Vs_Connect ip connect_request
  | Submit_Renewal "vst_blob list" | Reauthorize ip "vst_blob list"
  | Agent_Login oidc_idp_info string bytes "auth_blob list" u64
  | Agent_Renewal oidc_idp_info string duration
  | Agent_Adapter_Renewal oidc_idp_info string bytes "auth_blob option"
  | Abort_Adapter_Renewal
  | Renewal_Timer duration bytes
  | Tun_Clear_Address ip | Tun_Add_Address ip | Tun_Add_Route | Tun_Set_Carrier bool
  | Set_Local_Zpr_Addrs "ip list"
  | Signal_Fatal_Error
  | Restart_Vsconn | Stop_Vsconn
  | Clear_Peer_State | Clear_Flow_Tables | Deregister_Actor ip
  | Drop_Peer | Schedule_Restart

section \<open>The link\<close>

record link =
  ls_id :: nat
  ls_uid :: nat
  ls_type :: link_type
  ls_state :: link_state
  ls_status :: link_status
  ls_silent :: bool
  ls_actor_addresses :: "ip list"
  ls_clock :: u64
  ls_timeout :: "u64 option"
  ls_timeout_count :: nat
  ls_stowed_init_auth :: "(bool \<times> init_auth_payload option) option"
  ls_echo :: "system_time option"
  ls_keep_alive_misses :: nat
  ls_shutting_down :: bool
  ld_echo_success :: nat
  ld_echo_timeout :: nat
  ld_latency :: "duration sample_ring"
  ld_aaa_address :: "ip option"
  ld_oidc_idps :: "oidc_idp_info list option"
  ld_auth_agent :: "nat option"
  ld_last_auth_failure :: "auth_failure_reason option"
  ld_auth_expires :: "system_time option"
  ld_renewal_deadline :: "system_time option"
  ld_renewal_identity :: "renewal_identity option"
  ld_namespaces :: "auth_namespace set option"
  ld_renewal_in_flight :: bool
  ld_renewal_challenge :: "bytes option"
  ld_adapter_renewal_task :: bool
  ld_renewal_no_agent_warned :: bool
  lw_pool :: "address_pool option"
  lw_out :: "link_action list"

text \<open>
  The rest of the process as one handler run sees it: the peer table entry of the link
  (\<open>None\<close> once the peer is gone) with its authentication key, its Diffie-Hellman key and
  its established security association (the peer's certificate and whether it was
  verified); the link of the visa service adapter; configuration; the results of the
  operations on the TUN device; which agent channels are open; the advertised
  authentication services; time and randomness.
\<close>

record peer_view =
  pv_auth_key :: bytes
  pv_a2a_dh_pubkey :: "bytes option"
  pv_association :: "(bytes \<times> bool) option option"

record auth_service =
  as_is_oidc :: bool
  as_oidc :: "oidc_idp_info option"

record link_env =
  e_auth :: auth_lib
  e_now :: system_time
  e_random :: bytes
  e_peer :: "peer_view option"
  e_vs_link :: "nat option"
  e_subject_der :: "bytes \<Rightarrow> bytes option"
  e_visa_service_dn :: bytes
  e_ip_to_string :: "ip \<Rightarrow> string"
  e_ip_to_std :: "ip \<Rightarrow> ip"
  e_auto_connect :: bool
  e_renewal_lead :: duration
  e_bootstrap :: "rsa_bootstrap_auth option"
  e_addr_demand :: "ip list"
  e_local_zpr_addrs :: "ip list"
  e_dock_addr :: ip
  e_vsconn :: bool
  e_auth_services :: "auth_service list option"
  e_agent_open :: "nat \<Rightarrow> bool"
  e_keys_loaded :: bool
  e_km_accepts :: bool
  e_tun_add_address_ok :: bool
  e_route_conflict :: "unit + bool"
  e_route_conflict_after :: "unit + bool"
  e_tun_add_route_ok :: bool
  e_tun_carrier_ok :: bool

definition now_secs :: "link_env \<Rightarrow> u64" where
  "now_secs e = of_int (e_now e div 1000000000)"

type_synonym handler_result = "(link \<times> (link_state_error + unit)) option"

abbreviation (input) ok :: "link \<Rightarrow> handler_result" where
  "ok s \<equiv> Some (s, Inr ())"

abbreviation (input) err :: "link_state_error \<Rightarrow> link \<Rightarrow> handler_result" where
  "err x s \<equiv> Some (s, Inl x)"

definition emit :: "link_action \<Rightarrow> link \<Rightarrow> link" where
  "emit a s = s\<lparr>lw_out := lw_out s @ [a]\<rparr>"

definition new_link :: "nat \<Rightarrow> nat \<Rightarrow> link_type \<Rightarrow> address_pool option \<Rightarrow> link" where
  "new_link new_id uid new_link_type pool = \<lparr>
     ls_id = new_id, ls_uid = uid, ls_type = new_link_type,
     ls_state = (if new_link_type = Internal then Active else Inactive),
     ls_status = (if new_link_type = Internal then Up else Down),
     ls_silent = False, ls_actor_addresses = [], ls_clock = 0, ls_timeout = None,
     ls_timeout_count = 0, ls_stowed_init_auth = None, ls_echo = None,
     ls_keep_alive_misses = 0, ls_shutting_down = False,
     ld_echo_success = 0, ld_echo_timeout = 0, ld_latency = new_ring 100 0,
     ld_aaa_address = None, ld_oidc_idps = None, ld_auth_agent = None,
     ld_last_auth_failure = None, ld_auth_expires = None, ld_renewal_deadline = None,
     ld_renewal_identity = None, ld_namespaces = None, ld_renewal_in_flight = False,
     ld_renewal_challenge = None, ld_adapter_renewal_task = False,
     ld_renewal_no_agent_warned = False, lw_pool = pool, lw_out = []\<rparr>"

section \<open>Timers and state changes\<close>

definition cancel_timeout :: "link \<Rightarrow> link" where
  "cancel_timeout s = s\<lparr>ls_timeout := None, ls_clock := ls_clock s + 1\<rparr>"

definition set_state :: "link_state \<Rightarrow> link \<Rightarrow> link" where
  "set_state new_state s = (cancel_timeout (s\<lparr>ls_state := new_state\<rparr>))\<lparr>ls_timeout_count := 0\<rparr>"

definition set_timeout :: "duration \<Rightarrow> link \<Rightarrow> link" where
  "set_timeout d s = (let s = cancel_timeout s in
     emit (Arm_Timeout d (ls_clock s)) (s\<lparr>ls_timeout := Some (ls_clock s)\<rparr>))"

lemmas timer_defs = cancel_timeout_def set_state_def set_timeout_def emit_def Let_def

abbreviation (input) LINK_HELLO_TIMEOUT :: duration where "LINK_HELLO_TIMEOUT \<equiv> secs 3"
abbreviation (input) DEFAULT_TERMINATE_TIMEOUT :: duration where "DEFAULT_TERMINATE_TIMEOUT \<equiv> secs 1"
abbreviation (input) NODE_KEYING_TIMEOUT :: duration where "NODE_KEYING_TIMEOUT \<equiv> secs 60"
abbreviation (input) VS_GRANT_REQUEST_TIMEOUT :: duration where "VS_GRANT_REQUEST_TIMEOUT \<equiv> secs 60"
abbreviation (input) ACTOR_AUTHENTICATION_TIMEOUT :: duration where "ACTOR_AUTHENTICATION_TIMEOUT \<equiv> secs 330"
abbreviation (input) OIDC_USER_INTERACTION_TIMEOUT :: duration where "OIDC_USER_INTERACTION_TIMEOUT \<equiv> secs 300"
abbreviation (input) VS_AUTHENTICATION_TIMEOUT :: duration where "VS_AUTHENTICATION_TIMEOUT \<equiv> secs 30"
abbreviation (input) DEFAULT_KEEP_ALIVE_PERIOD :: duration where "DEFAULT_KEEP_ALIVE_PERIOD \<equiv> secs 3"
abbreviation (input) DEFAULT_KEEP_ALIVE_TIMEOUT :: duration where "DEFAULT_KEEP_ALIVE_TIMEOUT \<equiv> secs 3"
abbreviation (input) KEEP_ALIVE_MAX_MISSES :: nat where "KEEP_ALIVE_MAX_MISSES \<equiv> 3"

end
