(* ===== verification/Link_Close.thy ===== *)
theory Link_Close
  imports Link_State
begin

text \<open>
  Closing a link (\<open>link_state.rs\<close>): the terminate exchange, the disconnection from the
  visa service, the clean-up of the link's state and what follows it (restart, idling, or
  removal of the peer).  Tasks that the code spawns and that later feed an event back
  (the acknowledgement of a terminate request, of the disconnection, the end of the key
  manager) are actions here; the events are arguments of later handler runs.
\<close>

section \<open>Handlers\<close>

definition is_internal :: "link \<Rightarrow> bool" where
  "is_internal s \<longleftrightarrow> ls_type s = Internal"

definition is_ready :: "link \<Rightarrow> bool" where
  "is_ready s \<longleftrightarrow> ls_status s = Up \<and> (ls_state s = Active \<or> ls_state s = RegisterAA)"

definition record_auth_failure :: "auth_failure_reason \<Rightarrow> link \<Rightarrow> link" where
  "record_auth_failure reason s = s\<lparr>ld_last_auth_failure := Some reason\<rparr>"

definition is_activation_failure :: "auth_failure_reason option \<Rightarrow> bool" where
  "is_activation_failure r \<longleftrightarrow> (case r of Some (ActivationFailed _) \<Rightarrow> True | _ \<Rightarrow> False)"

definition is_vs_link :: "link_env \<Rightarrow> link \<Rightarrow> bool" where
  "is_vs_link e s \<longleftrightarrow> e_vs_link e = Some (ls_id s)"

text \<open>Continue the close after the disconnection from the visa service, if there was one.\<close>

definition continue_close :: "terminate_reason \<Rightarrow> link \<Rightarrow> handler_result" where
  "continue_close reason s = (
     let s = set_state Closing s;
         s = set_timeout DEFAULT_TERMINATE_TIMEOUT s
     in ok (emit (Send_Terminate reason) s))"

definition maybe_disconnect_visa_service_client :: "link_env \<Rightarrow> terminate_reason \<Rightarrow> link \<Rightarrow> handler_result" where
  "maybe_disconnect_visa_service_client e reason s = (
     let s = (if reason = TR_Shutdown then s\<lparr>ls_shutting_down := True\<rparr> else s) in
     if ls_type s = NodeToAdapter \<and> is_vs_link e s then
       if reason \<noteq> TR_Shutdown then
         continue_close reason (if e_vsconn e then emit Restart_Vsconn s else s)
       else if e_vsconn e then
         ok (emit Stop_Vsconn (set_state (Disconnecting reason) s))
       else continue_close reason s
     else continue_close reason s)"

definition initiate_close :: "link_env \<Rightarrow> terminate_reason \<Rightarrow> link \<Rightarrow> handler_result" where
  "initiate_close e reason s = (
     if ls_type s = Internal then err (InvalidOperation ''cannot shutdown internal link'') s
     else
       let s = (if ls_type s = AdapterToNode \<and> \<not> e_auto_connect e \<and> ls_state s = ErrorState \<and>
                   ld_last_auth_failure s = None
                then record_auth_failure (LinkFailed reason) s else s)
       in maybe_disconnect_visa_service_client e reason s)"

text \<open>The failure exit that most handlers share: park in \<open>Error\<close> and start to close.\<close>

definition fail_link :: "link_env \<Rightarrow> terminate_reason \<Rightarrow> link \<Rightarrow> handler_result" where
  "fail_link e reason s = initiate_close e reason (set_state ErrorState s)"

definition process_disconnect_ack :: "link \<Rightarrow> handler_result" where
  "process_disconnect_ack s = (case (ls_type s, ls_state s) of
     (NodeToAdapter, Disconnecting reason) \<Rightarrow> continue_close reason s
   | (_, _) \<Rightarrow> err (InvalidOperation ''Discarded unsolicited init auth ack'') s)"

text \<open>
  Tell the visa service that the actors of this link are gone, unless this is the link to
  the visa service adapter, whose addresses are kept.
\<close>

definition deregister_actor_addresses :: "link_env \<Rightarrow> link \<Rightarrow> link" where
  "deregister_actor_addresses e s = (if is_vs_link e s then s
     else (fold (\<lambda>addr. emit (Deregister_Actor addr)) (ls_actor_addresses s) s)\<lparr>ls_actor_addresses := []\<rparr>)"

definition release_aaa :: "link \<Rightarrow> link" where
  "release_aaa s = (case ld_aaa_address s of
     None \<Rightarrow> s
   | Some aaa_addr \<Rightarrow>
       let s = s\<lparr>ld_aaa_address := None\<rparr> in
       (case lw_pool s of
          None \<Rightarrow> s
        | Some pool \<Rightarrow> s\<lparr>lw_pool := Some (snd (release_address aaa_addr pool))\<rparr>))"

definition clean_up_link_state :: "link_env \<Rightarrow> link \<Rightarrow> link option" where
  "clean_up_link_state e s = (
     if ls_state s = Closing \<or> ls_state s = Resetting then do {
       let s = emit Clear_Peer_State (release_aaa s);
       s \<leftarrow> (case ls_type s of
          AdapterToNode \<Rightarrow> do {
            ensure (e_tun_carrier_ok e);
            Some (emit Clear_Flow_Tables (emit (Tun_Set_Carrier False) s))
          }
        | NodeToAdapter \<Rightarrow> Some (deregister_actor_addresses e s)
        | _ \<Rightarrow> Some s);
       Some (emit Km_Drop_Link_Then_CloseDone s)
     } else Some s)"

definition complete_close :: "link_env \<Rightarrow> link \<Rightarrow> link" where
  "complete_close e s = (
     if (ls_state s = Closing \<and> ls_type s = NodeToAdapter) \<or> ls_state s = Resetting then emit Drop_Peer s
     else if ls_state s = Closing then
       let s = set_state Inactive (s\<lparr>ls_silent := False\<rparr>) in
       if \<not> ls_shutting_down s then
         if ls_type s = AdapterToNode \<and> \<not> e_auto_connect e then s
         else if ls_type s = AdapterToNode \<and> is_activation_failure (ld_last_auth_failure s) then s
         else emit Schedule_Restart s
       else emit Drop_Peer s
     else s)"

text \<open>
  The holddown task of \<open>setup_restart\<close>, when its timer fires: whether it raises
  \<open>Start\<close>.
\<close>

definition restart_raises_start :: "link_env \<Rightarrow> link \<Rightarrow> bool" where
  "restart_raises_start e s \<longleftrightarrow>
     \<not> (e_peer e \<noteq> None \<and> is_activation_failure (ld_last_auth_failure s))"

definition reset_link :: "link_env \<Rightarrow> link \<Rightarrow> link option" where
  "reset_link e s = clean_up_link_state e (emit (Send_Terminate TR_Reset) (set_state Resetting s))"

definition process_terminate_ack :: "link_env \<Rightarrow> link \<Rightarrow> handler_result" where
  "process_terminate_ack e s = (
     if ls_state s = Closing then do { s \<leftarrow> clean_up_link_state e (cancel_timeout s); ok s }
     else err (UnexpectedTransition (ls_state s) ''ReceivedTerminateAck'') s)"

definition process_terminate_link :: "link_env \<Rightarrow> link \<Rightarrow> handler_result" where
  "process_terminate_link e s = do { s \<leftarrow> clean_up_link_state e (set_state Closing s); ok s }"

definition process_error_response :: "link_env \<Rightarrow> link \<Rightarrow> handler_result" where
  "process_error_response e s = initiate_close e TR_Other (emit Count_Handshake_Failure s)"

definition process_authentication_failure :: "link_env \<Rightarrow> auth_failure_reason \<Rightarrow> link \<Rightarrow> handler_result" where
  "process_authentication_failure e reason s = fail_link e TR_Other (record_auth_failure reason s)"

lemmas close_defs = continue_close_def maybe_disconnect_visa_service_client_def initiate_close_def
  fail_link_def process_disconnect_ack_def record_auth_failure_def process_error_response_def
  process_authentication_failure_def

lemmas cleanup_defs = clean_up_link_state_def release_aaa_def deregister_actor_addresses_def
  process_terminate_ack_def process_terminate_link_def complete_close_def reset_link_def

end
