(* ===== verification/Link_Handshake.thy ===== *)
theory Link_Handshake
  imports Link_Close
begin

text \<open>
  Bringing a link up (\<open>link_state.rs\<close>, with the request builders of
  \<open>visa_mgmt.rs\<close>): start, keying, hello, authentication on either side of the hop, the
  acquire and grant of a ZPR address, and the entry into \<open>Active\<close>.
\<close>

section \<open>Start, keying and hello\<close>

definition process_start :: "link_env \<Rightarrow> link \<Rightarrow> handler_result" where
  "process_start e s = do {
     ensure (ls_id s \<noteq> 0);
     if ls_state s \<noteq> Inactive then err (UnexpectedTransition (ls_state s) ''Start'') s
     else do {
       let s = set_state Keying (s\<lparr>ls_status := Up\<rparr>);
       let s = s\<lparr>ld_last_auth_failure := None\<rparr>;
       let s = (if e_peer e \<noteq> None then emit Reset_Zdpr_Session s else s);
       (case ls_type s of
          AdapterToNode \<Rightarrow> do {
            ensure (e_keys_loaded e \<and> e_km_accepts e);
            ok (emit Km_Add_Adapter_Link s)
          }
        | NodeToNode \<Rightarrow> err OperationNotSupportedYet (set_state ErrorState s)
        | NodeToAdapter \<Rightarrow> do {
            ensure (e_keys_loaded e \<and> e_km_accepts e);
            ok (set_timeout NODE_KEYING_TIMEOUT (emit Km_Add_Node_Link s))
          }
        | Internal \<Rightarrow> err (InvalidOperation ''coding error'') s)
     }
   }"

text \<open>
  Special names by the subject of a certificate.  The names are assigned only if the
  certificate was verified; a subject that cannot be encoded counts as empty.
\<close>

datatype special_peer_name = VisaServiceAdapter

definition special_peer_names_from_subject_der :: "link_env \<Rightarrow> bytes \<Rightarrow> special_peer_name list" where
  "special_peer_names_from_subject_der e dn_der =
     (if dn_der = e_visa_service_dn e then [VisaServiceAdapter] else [])"

definition assign_special_names :: "link_env \<Rightarrow> (bytes \<times> bool) option \<Rightarrow> link \<Rightarrow> link" where
  "assign_special_names e peer_cert s = (case peer_cert of
     None \<Rightarrow> s
   | Some (cert, is_verified) \<Rightarrow>
       let subject_der = (case e_subject_der e cert of Some der \<Rightarrow> der | None \<Rightarrow> [])
       in if \<not> is_verified then s
          else fold (\<lambda>name. emit Assign_Special_Name) (special_peer_names_from_subject_der e subject_der) s)"

definition process_keying_done :: "link_env \<Rightarrow> link \<Rightarrow> handler_result" where
  "process_keying_done e s = (
     if ls_state s \<noteq> Keying then err (UnexpectedTransition (ls_state s) ''KeyingDone'') s
     else (case e_peer e of
       None \<Rightarrow> err (NotFound (ls_id s)) s
     | Some peer_state \<Rightarrow> (case pv_association peer_state of
         None \<Rightarrow> err (UnexpectedTransition (ls_state s) ''KeyingDone when SA not established'') s
       | Some peer_cert \<Rightarrow>
           let s = assign_special_names e peer_cert s;
               s = set_state Helloing s
           in ok (if ls_type s = AdapterToNode
                  then set_timeout LINK_HELLO_TIMEOUT (emit Send_Hello_Request s) else s))))"

definition process_assigned_aaa :: "ip \<Rightarrow> link \<Rightarrow> handler_result" where
  "process_assigned_aaa aaa_addr s = ok (s\<lparr>ld_aaa_address := Some aaa_addr\<rparr>)"

text \<open>The advertised OIDC identity providers, if the list of services is valid.\<close>

definition get_available_oidc_idps :: "link_env \<Rightarrow> oidc_idp_info list" where
  "get_available_oidc_idps e = (case e_auth_services e of
     None \<Rightarrow> []
   | Some services \<Rightarrow> List.map_filter (\<lambda>svc. if as_is_oidc svc then as_oidc svc else None) services)"

text \<open>
  The challenge goes out with the peer's key.  Without a peer entry the error event that
  the code raises finds no peer either, so nothing happens.
\<close>

definition send_init_authentication_request :: "link_env \<Rightarrow> link \<Rightarrow> link" where
  "send_init_authentication_request e s = (case e_peer e of
     Some peer \<Rightarrow> emit (Send_Init_Authentication
       (new_payload (e_auth e) (now_secs e) (e_random e) (pv_auth_key peer))) s
   | None \<Rightarrow> s)"

definition allocate_aaa :: "link_env \<Rightarrow> link \<Rightarrow> (ip option \<times> link) option" where
  "allocate_aaa e s = (case lw_pool s of
     None \<Rightarrow> Some (None, s)
   | Some pool \<Rightarrow> do {
       (aaa_address, pool) \<leftarrow> get_aaa_address (e_random e) pool;
       (s, _) \<leftarrow> process_assigned_aaa aaa_address (s\<lparr>lw_pool := Some pool\<rparr>);
       Some (Some aaa_address, s)
     })"

definition process_hello_request :: "link_env \<Rightarrow> link \<Rightarrow> handler_result" where
  "process_hello_request e s = (case (ls_type s, ls_state s) of
     (NodeToNode, Helloing) \<Rightarrow> ok (set_state Active s)
   | (NodeToAdapter, Helloing) \<Rightarrow> do {
       (maybe_aaa_address, s) \<leftarrow> allocate_aaa e s;
       let s = emit (Send_Hello_Success (get_available_oidc_idps e) maybe_aaa_address) s;
       let s = set_state WaitForAcquireZprAddress s;
       ok (send_init_authentication_request e s)
     }
   | (AdapterToNode, _) \<Rightarrow> err (InvalidOperation ''Discarded unsolicited Hello Request'') s
   | (_, _) \<Rightarrow> err (UnexpectedTransition (ls_state s) ''ReceivedHelloRequest'') s)"

section \<open>Authentication on the adapter\<close>

text \<open>
  Hand the login to the agent.  If its channel is closed the failure is processed at once;
  otherwise a task waits for the answer and delivers it only if the logical clock is still
  \<open>attempt_clock\<close> (see \<open>agent_completion\<close>).
\<close>

definition do_oidc_authenticate ::
  "link_env \<Rightarrow> nat \<Rightarrow> oidc_idp_info \<Rightarrow> init_auth_payload \<Rightarrow> auth_blob list \<Rightarrow> u64 \<Rightarrow> link \<Rightarrow> link option" where
  "do_oidc_authenticate e agent idp challenge_payload base_blobs attempt_clock s = (
     let challenge = challenge_of challenge_payload;
         nonce = oidc_nonce_for_challenge (e_auth e) challenge
     in if \<not> e_agent_open e agent then
          (if e_peer e = None then Some s
           else map_option fst (process_authentication_failure e NoAgent s))
        else Some (emit (Agent_Login idp nonce challenge base_blobs attempt_clock) s))"

definition auth_attempt_is_current :: "u64 \<Rightarrow> link \<Rightarrow> bool" where
  "auth_attempt_is_current attempt_clock s \<longleftrightarrow> ls_clock s = attempt_clock"

text \<open>The task of \<open>do_oidc_authenticate\<close>: the event it raises when the agent has answered.\<close>

definition agent_completion :: "link_env \<Rightarrow> oidc_idp_info \<Rightarrow> bytes \<Rightarrow> auth_blob list \<Rightarrow> u64 \<Rightarrow>
    (auth_failure_reason + string) option \<Rightarrow> link \<Rightarrow> link_event option" where
  "agent_completion e idp challenge base_blobs attempt_clock outcome s = (
     if e_peer e = None \<or> \<not> auth_attempt_is_current attempt_clock s then None
     else Some (case outcome of
       Some (Inr id_token) \<Rightarrow> AuthenticationSuccess (base_blobs @ [Oidc
         \<lparr>oidc_blob_type = BLOB_TYPE_OIDC, oidc_issuer = idp_issuer idp, oidc_id_token = id_token,
          oidc_challenge = b64_encode (e_auth e) challenge\<rparr>])
     | Some (Inl reason) \<Rightarrow> AuthenticationFailure reason
     | None \<Rightarrow> AuthenticationFailure (AgentError ''AuthAgent dropped the request'')))"

text \<open>The self-signed blob that rides along with an OIDC login when a device key is configured.\<close>

definition device_blobs :: "link_env \<Rightarrow> init_auth_payload \<Rightarrow> auth_error + auth_blob list" where
  "device_blobs e challenge = (case e_bootstrap e of
     None \<Rightarrow> Inr []
   | Some bs \<Rightarrow> (case authenticate_blob (e_auth e) (now_secs e) bs challenge of
       Inl x \<Rightarrow> Inl x
     | Inr ss_blob \<Rightarrow> Inr [SelfSigned ss_blob]))"

definition set_authenticated_namespaces :: "auth_namespace set \<Rightarrow> link \<Rightarrow> link" where
  "set_authenticated_namespaces ns s = s\<lparr>ld_namespaces := Some ns\<rparr>"

text \<open>Device-only bootstrap, when the peer allows it and a key is configured.\<close>

definition bootstrap_auth :: "link_env \<Rightarrow> bool \<Rightarrow> init_auth_payload option \<Rightarrow> link \<Rightarrow> handler_result" where
  "bootstrap_auth e bootstrap challenge s = (
     case (bootstrap, e_bootstrap e) of
       (True, Some bs) \<Rightarrow> (case challenge of
         None \<Rightarrow> fail_link e TR_Other s
       | Some challenge \<Rightarrow> (case authenticate (e_auth e) (now_secs e) bs challenge of
           Inr blobstr \<Rightarrow>
             let s = set_authenticated_namespaces {Device} s;
                 s = emit (Send_Acquire_Zpr_Address (e_local_zpr_addrs e) blobstr) s;
                 s = set_state RegisterAA s
             in ok (set_timeout VS_GRANT_REQUEST_TIMEOUT s)
         | Inl _ \<Rightarrow> fail_link e TR_Other s))
     | (_, _) \<Rightarrow> process_authentication_failure e AuthUnavailable s)"

definition oidc_auth :: "link_env \<Rightarrow> nat \<Rightarrow> oidc_idp_info \<Rightarrow> init_auth_payload \<Rightarrow> link \<Rightarrow> handler_result" where
  "oidc_auth e agent idp challenge s = (case device_blobs e challenge of
     Inl _ \<Rightarrow> fail_link e TR_Other s
   | Inr blobs \<Rightarrow> do {
       let s = set_timeout OIDC_USER_INTERACTION_TIMEOUT (set_state WaitForUserAuth s);
       s \<leftarrow> do_oidc_authenticate e agent idp challenge blobs (ls_clock s) s;
       ok s
     })"

definition process_init_auth :: "link_env \<Rightarrow> bool \<Rightarrow> init_auth_payload option \<Rightarrow> link \<Rightarrow> handler_result" where
  "process_init_auth e bootstrap challenge s = (
     let oidc_idps = (case ld_oidc_idps s of Some idps \<Rightarrow> idps | None \<Rightarrow> []) in
     case (ls_type s, ls_state s) of
       (AdapterToNode, WaitForInitAuth) \<Rightarrow>
         if oidc_idps \<noteq> [] then
           (case challenge of
              None \<Rightarrow> fail_link e TR_Other s
            | Some c \<Rightarrow> (case ld_auth_agent s of
                Some agent \<Rightarrow> oidc_auth e agent (hd oidc_idps) c s
              | None \<Rightarrow> if e_bootstrap e = None then process_authentication_failure e NoAgent s
                  else bootstrap_auth e bootstrap challenge s))
         else bootstrap_auth e bootstrap challenge s
     | (AdapterToNode, Helloing) \<Rightarrow> ok (s\<lparr>ls_stowed_init_auth := Some (bootstrap, challenge)\<rparr>)
     | (_, _) \<Rightarrow> err (UnexpectedTransition (ls_state s) ''ReceivedInitAuth'') s)"

definition process_hello_response ::
  "link_env \<Rightarrow> response_code \<Rightarrow> ip option \<Rightarrow> oidc_idp_info list option \<Rightarrow> link \<Rightarrow> handler_result" where
  "process_hello_response e code maybe_aaa_addr maybe_oidc_idps s = (
     if code = RC_Other then process_error_response e s
     else case (ls_type s, ls_state s) of
       (AdapterToNode, Helloing) \<Rightarrow>
         let s = s\<lparr>ld_oidc_idps := maybe_oidc_idps, ld_aaa_address := maybe_aaa_addr\<rparr>;
             s = set_state WaitForInitAuth s;
             stowed_init_auth = ls_stowed_init_auth s;
             s = s\<lparr>ls_stowed_init_auth := None\<rparr>
         in (case stowed_init_auth of
               Some (bootstrap, challenge) \<Rightarrow> process_init_auth e bootstrap challenge s
             | None \<Rightarrow> ok s)
     | (NodeToNode, Helloing) \<Rightarrow> ok (set_state Active s)
     | (NodeToAdapter, _) \<Rightarrow> err (InvalidOperation ''Discarded unsolicited Hello Response'') s
     | (_, _) \<Rightarrow> err (UnexpectedTransition (ls_state s) ''ReceivedHelloRespone'') s)"

definition process_authentication_success :: "link_env \<Rightarrow> auth_blob list \<Rightarrow> link \<Rightarrow> handler_result" where
  "process_authentication_success e blobs s = (
     if ls_state s \<noteq> RegisterAA \<and> ls_state s \<noteq> WaitForUserAuth then ok s
     else
       let s = set_authenticated_namespaces (blob_namespaces blobs) s;
           blobstr = encode_blobs (e_auth e) blobs;
           s = emit (Send_Acquire_Zpr_Address (e_local_zpr_addrs e) blobstr) s;
           s = set_state RegisterAA s
       in ok (set_timeout VS_AUTHENTICATION_TIMEOUT s))"

section \<open>Authentication on the node\<close>

definition process_init_auth_ack :: "link \<Rightarrow> handler_result" where
  "process_init_auth_ack s = (case (ls_type s, ls_state s) of
     (NodeToAdapter, WaitForAcquireZprAddress) \<Rightarrow> ok (set_timeout ACTOR_AUTHENTICATION_TIMEOUT s)
   | (_, _) \<Rightarrow> err (InvalidOperation ''Discarded unsolicited init auth ack'') s)"

definition process_init_auth_timeout :: "link_env \<Rightarrow> link \<Rightarrow> handler_result" where
  "process_init_auth_timeout e s = (case (ls_type s, ls_state s) of
     (NodeToAdapter, WaitForAcquireZprAddress) \<Rightarrow> fail_link e TR_RequestTimedOut s
   | (_, _) \<Rightarrow> err (InvalidOperation ''Discarded unsolicited init auth timeout'') s)"

definition check_self_signed_blob :: "link_env \<Rightarrow> self_signed_blob \<Rightarrow> u64 \<Rightarrow> bool option" where
  "check_self_signed_blob e ss_blob max_age_seconds = (case e_peer e of
     None \<Rightarrow> Some False
   | Some peer_state \<Rightarrow> (case pv_association peer_state of
       None \<Rightarrow> Some False
     | Some peer_cert \<Rightarrow> do {
         r \<leftarrow> verify_blob_challenge (e_auth e) (now_secs e) ss_blob (map_option fst peer_cert)
                (pv_auth_key peer_state) max_age_seconds;
         Some (case r of Inl _ \<Rightarrow> False | Inr _ \<Rightarrow> True)
       }))"

definition check_oidc_blob :: "link_env \<Rightarrow> oidc_blob \<Rightarrow> bool option" where
  "check_oidc_blob e blob = (case e_peer e of
     None \<Rightarrow> Some False
   | Some peer_state \<Rightarrow> do {
       r \<leftarrow> verify_oidc_challenge (e_auth e) (now_secs e) blob (pv_auth_key peer_state);
       Some (case r of Inl _ \<Rightarrow> False | Inr _ \<Rightarrow> True)
     })"

text \<open>Whether every blob passes its check; the first one that does not ends the loop.\<close>

fun check_blobs :: "link_env \<Rightarrow> auth_blob list \<Rightarrow> bool option" where
  "check_blobs e [] = Some True"
| "check_blobs e (d_blob # d_blobs) = do {
     good \<leftarrow> (case d_blob of
        SelfSigned ss_blob \<Rightarrow> check_self_signed_blob e ss_blob MAX_BLOB_AGE_SECONDS
      | Oidc blob \<Rightarrow> check_oidc_blob e blob);
     if good then check_blobs e d_blobs else Some False
   }"

fun first_oidc :: "auth_blob list \<Rightarrow> oidc_blob option" where
  "first_oidc [] = None"
| "first_oidc (Oidc oidc # bs) = Some oidc"
| "first_oidc (SelfSigned _ # bs) = first_oidc bs"

fun first_self_signed :: "auth_blob list \<Rightarrow> self_signed_blob option" where
  "first_self_signed [] = None"
| "first_self_signed (SelfSigned ss # bs) = Some ss"
| "first_self_signed (Oidc _ # bs) = first_self_signed bs"

text \<open>A decoded challenge of another length counts as 48 zero bytes.\<close>

definition challenge_48 :: "auth_lib \<Rightarrow> string \<Rightarrow> bytes" where
  "challenge_48 A str = (let challenge_bytes = (case b64_decode A str of Some b \<Rightarrow> b | None \<Rightarrow> [])
     in if length challenge_bytes = 48 then challenge_bytes else replicate 48 0)"

definition stash_renewal_identity :: "link_env \<Rightarrow> oidc_blob \<Rightarrow> link \<Rightarrow> link" where
  "stash_renewal_identity e blob s =
     (case find (\<lambda>idp. idp_issuer idp = oidc_issuer blob) (get_available_oidc_idps e) of
        None \<Rightarrow> s
      | Some idp \<Rightarrow>
          let nonce = oidc_nonce_for_challenge (e_auth e) (challenge_48 (e_auth e) (oidc_challenge blob))
          in s\<lparr>ld_renewal_identity := Some \<lparr>ri_idp = idp, ri_nonce = nonce\<rparr>\<rparr>)"

fun vst_blob_of :: "auth_lib \<Rightarrow> auth_blob \<Rightarrow> vst_blob" where
  "vst_blob_of A (SelfSigned ss) = Vst_SS
     (case b64_decode A (ss_challenge ss) of Some b \<Rightarrow> b | None \<Rightarrow> []) (ss_cn ss) (ss_ts ss)
     (case b64_decode A (ss_sig ss) of Some b \<Rightarrow> b | None \<Rightarrow> [])"
| "vst_blob_of A (Oidc oidc) = Vst_Oidc (oidc_issuer oidc) (oidc_id_token oidc)
     (oidc_nonce_for_challenge A (challenge_48 A (oidc_challenge oidc)))"

abbreviation (input) UNSPECIFIED :: ip where "UNSPECIFIED \<equiv> replicate 16 0"

definition build_connect_request ::
  "link_env \<Rightarrow> ip \<Rightarrow> auth_blob list \<Rightarrow> bytes option \<Rightarrow> link_state_error + connect_request" where
  "build_connect_request e addr blobs a2a_dh_public_key = (
     let vsapi_blobs = map (vst_blob_of (e_auth e)) blobs;
         request_claims = (if addr \<noteq> UNSPECIFIED then [(''zpr.addr'', e_ip_to_string e addr)] else [])
           @ (case first_self_signed blobs of Some ss \<Rightarrow> [(''device.zpr.adapter.cn'', ss_cn ss)] | None \<Rightarrow> [])
     in Inr \<lparr>cr_blobs = vsapi_blobs, cr_claims = request_claims, cr_substrate_addr = e_dock_addr e,
          cr_public_key = (case a2a_dh_public_key of Some key \<Rightarrow> key | None \<Rightarrow> [])\<rparr>)"

text \<open>Entering \<open>Active\<close> and starting the keep-alive mechanism.\<close>

definition run_active :: "link \<Rightarrow> handler_result" where
  "run_active s = (
     let s = emit Count_Handshake_Success (set_state Active s);
         s = s\<lparr>ls_echo := None, ls_keep_alive_misses := 0\<rparr>
     in ok (set_timeout DEFAULT_KEEP_ALIVE_TIMEOUT s))"

definition process_authorize_response :: "ip \<Rightarrow> link \<Rightarrow> handler_result" where
  "process_authorize_response zpr_addr s = (case (ls_type s, ls_state s) of
     (NodeToAdapter, RegisterAA) \<Rightarrow>
       let s = s\<lparr>ls_actor_addresses := [zpr_addr]\<rparr>;
           s = emit (Send_Grant_Zpr_Address RC_Success (ls_actor_addresses s)) s
       in run_active s
   | (_, _) \<Rightarrow> err (InvalidOperation ''Discarded unsolicited authorize response'') s)"

fun response_code_for_vs_error :: "vs_error_code \<Rightarrow> response_code option" where
  "response_code_for_vs_error Vs_InvalidSignature = Some RC_AuthFailed"
| "response_code_for_vs_error Vs_AuthError = Some RC_AuthFailed"
| "response_code_for_vs_error Vs_ParamError = Some RC_AuthFailed"
| "response_code_for_vs_error Vs_PolicyDenied = Some RC_PolicyDenied"
| "response_code_for_vs_error Vs_TemporarilyUnavailable = Some RC_AuthUnavailable"
| "response_code_for_vs_error (Vs_OtherCode _) = None"

text \<open>A failed authorize call: a coded error of the visa service, or any other failure.\<close>

definition authorize_failure_event :: "(vs_error_code \<times> string) option \<Rightarrow> link_event" where
  "authorize_failure_event coded = (case coded of
     Some (code, msg) \<Rightarrow> if response_code_for_vs_error code \<noteq> None
       then ReceivedAuthorizeFailure code msg else ErrorEvent
   | None \<Rightarrow> ErrorEvent)"

definition grant_code_for_vs_error :: "vs_error_code \<Rightarrow> response_code" where
  "grant_code_for_vs_error code = (case response_code_for_vs_error code of Some c \<Rightarrow> c | None \<Rightarrow> RC_Other)"

definition process_authorize_failure :: "link_env \<Rightarrow> vs_error_code \<Rightarrow> link \<Rightarrow> handler_result" where
  "process_authorize_failure e code s = (case (ls_type s, ls_state s) of
     (NodeToAdapter, RegisterAA) \<Rightarrow>
       let s = emit (Send_Grant_Zpr_Address (grant_code_for_vs_error code) []) s;
           s = emit Count_Handshake_Failure s
       in fail_link e TR_Other s
   | (_, _) \<Rightarrow> err (InvalidOperation ''Discarded unsolicited authorize failure'') s)"

text \<open>The address to ask the visa service for; \<open>None\<close> when several were requested.\<close>

definition requested_address :: "ip list option \<Rightarrow> ip option" where
  "requested_address addrs = (case addrs of
     Some [addr] \<Rightarrow> Some addr | Some [] \<Rightarrow> Some UNSPECIFIED | Some _ \<Rightarrow> None | None \<Rightarrow> Some UNSPECIFIED)"

text \<open>What follows the checks: remember the identity and the namespaces, and authorize.\<close>

definition register_actor :: "link_env \<Rightarrow> ip \<Rightarrow> auth_blob list \<Rightarrow> link \<Rightarrow> handler_result" where
  "register_actor e requested_addr d_blobs s = (
     let s = (case first_oidc d_blobs of Some blob \<Rightarrow> stash_renewal_identity e blob s | None \<Rightarrow> s);
         s = set_authenticated_namespaces (blob_namespaces d_blobs) s;
         s = set_state RegisterAA s
     in case build_connect_request e requested_addr d_blobs (Option.bind (e_peer e) pv_a2a_dh_pubkey) of
          Inl x \<Rightarrow> err x s
        | Inr conn_req \<Rightarrow>
            if \<not> is_vs_link e s then ok (emit (Authorize_Connect conn_req) s)
            else do {
              let s = emit (Defer_Vs_Connect requested_addr conn_req) s;
              s \<leftarrow> (if e_peer e = None then Some s
                    else map_option fst (process_authorize_response requested_addr s));
              ok s
            })"

definition process_acquire_zpr_address_request ::
  "link_env \<Rightarrow> ip list option \<Rightarrow> string \<Rightarrow> link \<Rightarrow> handler_result" where
  "process_acquire_zpr_address_request e addrs blob s = (case (ls_type s, ls_state s) of
     (NodeToAdapter, WaitForAcquireZprAddress) \<Rightarrow>
       (case requested_address addrs of
          None \<Rightarrow> process_error_response e s
        | Some requested_addr \<Rightarrow> (case decode_blobs (e_auth e) blob of
            Inl _ \<Rightarrow> process_error_response e s
          | Inr d_blobs \<Rightarrow> do {
              good \<leftarrow> check_blobs e d_blobs;
              if \<not> good then process_error_response e s
              else register_actor e requested_addr d_blobs s
            }))
   | (_, _) \<Rightarrow> err (InvalidOperation ''Discarded unsolicited acquire ZPR address request'') s)"

end
