(* ===== verification/Link_Grant.thy ===== *)
theory Link_Grant
  imports Link_Handshake "HOL-Library.Multiset"
begin

text \<open>
  The grant of a ZPR address as the adapter processes it (\<open>link_state.rs\<close>,
  \<open>process_grant_zpr_address_request\<close>): a configured address is a demand, the steps that
  activate the granted address on the TUN device may fail, and another adapter on the host
  may own the ZPR route.
\<close>

section \<open>The handler\<close>

text \<open>
  Two address lists that are equal after sorting are equal as multisets, which is how the
  comparison is written here.
\<close>

text \<open>
  Every local step that fails records why and closes the link.
\<close>

definition fail_activation :: "link_env \<Rightarrow> string \<Rightarrow> link \<Rightarrow> handler_result" where
  "fail_activation e what s = fail_link e TR_Other (record_auth_failure (ActivationFailed what) s)"

text \<open>A probe that finds another owner of the route is fatal only if no address was demanded.\<close>

definition route_conflict_is_fatal :: "link_env \<Rightarrow> unit + bool \<Rightarrow> bool" where
  "route_conflict_is_fatal e probe \<longleftrightarrow> probe = Inr True \<and> e_addr_demand e = []"

definition after_carrier_up :: "link_env \<Rightarrow> link \<Rightarrow> handler_result" where
  "after_carrier_up e s = (
     if route_conflict_is_fatal e (e_route_conflict_after e)
     then do {
       ensure (e_tun_carrier_ok e);
       fail_activation e ''route conflict after carrier-up'' (emit (Tun_Set_Carrier False) s)
     }
     else run_active s)"

definition install_route :: "link_env \<Rightarrow> ip list \<Rightarrow> link \<Rightarrow> handler_result" where
  "install_route e addrs s = (
     let s = emit Tun_Add_Route s in
     if \<not> e_tun_add_route_ok e \<and> e_addr_demand e = []
     then fail_activation e ''failed to install ZPR internal-network route'' s
     else do {
       let s = emit (Set_Local_Zpr_Addrs addrs) s;
       ensure (e_tun_carrier_ok e);
       after_carrier_up e (emit (Tun_Set_Carrier True) s)
     })"

definition activate_address :: "link_env \<Rightarrow> ip list \<Rightarrow> link \<Rightarrow> handler_result" where
  "activate_address e addrs s = do {
     let s = (case ld_aaa_address s of Some aaa_addr \<Rightarrow> emit (Tun_Clear_Address aaa_addr) s | None \<Rightarrow> s);
     ensure (addrs \<noteq> []);
     let s = emit (Tun_Add_Address (hd addrs)) s;
     if \<not> e_tun_add_address_ok e then fail_activation e ''failed to set ZPR address'' s
     else if route_conflict_is_fatal e (e_route_conflict e) then fail_activation e ''route conflict'' s
     else install_route e addrs s
   }"

definition grant_failure_reason :: "response_code \<Rightarrow> auth_failure_reason" where
  "grant_failure_reason code =
     (if code = RC_PolicyDenied then PolicyDenied
      else if code = RC_AuthUnavailable then AuthUnavailable
      else if code = RC_AuthFailed then VisaServiceRejected ''visa service rejected authentication''
      else VisaServiceRejected ''grant failed with code'')"

definition process_grant_zpr_address_request :: "link_env \<Rightarrow> response_code + ip list \<Rightarrow> link \<Rightarrow> handler_result" where
  "process_grant_zpr_address_request e result s = (case (ls_type s, ls_state s) of
     (AdapterToNode, RegisterAA) \<Rightarrow>
       (case result of
          Inr addrs \<Rightarrow>
            let configured = e_addr_demand e;
                granted_std = map (e_ip_to_std e) addrs
            in if configured \<noteq> [] \<and> mset configured \<noteq> mset granted_std
            then
              let s = record_auth_failure (GrantedAddressMismatch configured granted_std) s;
                  s = emit Signal_Fatal_Error (set_state ErrorState s)
              in initiate_close e TR_Other s
            else activate_address e addrs s
        | Inl code \<Rightarrow> fail_link e TR_Other (record_auth_failure (grant_failure_reason code) s))
   | (AdapterToNode, Active) \<Rightarrow> ok s
   | (_, _) \<Rightarrow> err (InvalidOperation ''Discarded unsolicited Grant Zpr Address request'') s)"

end
