(* ===== verification/Link_Renewal.thy ===== *)
theory Link_Renewal
  imports Link_Handshake
begin

text \<open>
  Renewing an authentication before it expires (\<open>link_state.rs\<close>): the renewal clock, the
  tick on every keep-alive response, the request over the link and its answer, and the
  submission to the visa service.
\<close>

section \<open>The renewal clock\<close>

definition duration_since :: "system_time \<Rightarrow> system_time \<Rightarrow> duration" where
  "duration_since later earlier = nat (later - earlier)"

definition renewal_lead :: "duration \<Rightarrow> duration \<Rightarrow> duration" where
  "renewal_lead configured granted_lifetime = min configured (granted_lifetime div 2)"

definition renewal_deadline :: "system_time \<Rightarrow> system_time \<Rightarrow> duration \<Rightarrow> system_time" where
  "renewal_deadline granted_at auth_expires configured_lead = (
     let lifetime = duration_since auth_expires granted_at;
         lead = renewal_lead configured_lead lifetime
     in auth_expires - int lead)"

abbreviation (input) RENEWAL_ATTEMPT_TIMEOUT_FLOOR :: duration where
  "RENEWAL_ATTEMPT_TIMEOUT_FLOOR \<equiv> secs 5"

definition clamp :: "nat \<Rightarrow> nat \<Rightarrow> nat \<Rightarrow> nat" where
  "clamp x lo hi = (if x < lo then lo else if x > hi then hi else x)"

definition renewal_attempt_timeout :: "system_time \<Rightarrow> system_time \<Rightarrow> duration" where
  "renewal_attempt_timeout now auth_expires =
     clamp (duration_since auth_expires now div 2) RENEWAL_ATTEMPT_TIMEOUT_FLOOR OIDC_USER_INTERACTION_TIMEOUT"

definition set_auth_expires :: "system_time \<Rightarrow> system_time \<Rightarrow> duration \<Rightarrow> link \<Rightarrow> link" where
  "set_auth_expires granted_at auth_expires configured_lead s =
     s\<lparr>ld_auth_expires := Some auth_expires,
       ld_renewal_deadline := Some (renewal_deadline granted_at auth_expires configured_lead),
       ld_renewal_in_flight := False, ld_renewal_no_agent_warned := False\<rparr>"

text \<open>\<open>UNIX_EPOCH + Duration::from_secs(n)\<close> panics beyond the range of \<open>SystemTime\<close>.\<close>

definition epoch_plus :: "u64 \<Rightarrow> system_time option" where
  "epoch_plus n = (if unat n < 2 ^ 63 then Some (int (unat n) * 1000000000) else None)"

definition record_auth_expires :: "link_env \<Rightarrow> u64 \<Rightarrow> link \<Rightarrow> link option" where
  "record_auth_expires e auth_expires_epoch_secs s = (if e_peer e = None then Some s
     else do {
       expires \<leftarrow> epoch_plus auth_expires_epoch_secs;
       Some (set_auth_expires (e_now e) expires (e_renewal_lead e) s)
     })"

section \<open>The agent slot and the stashed challenge\<close>

definition set_auth_agent :: "nat \<Rightarrow> link \<Rightarrow> link" where
  "set_auth_agent agent s = s\<lparr>ld_auth_agent := Some agent\<rparr>"

definition clear_auth_agent_if :: "nat \<Rightarrow> link \<Rightarrow> bool \<times> link" where
  "clear_auth_agent_if handle s = (if ld_auth_agent s = Some handle
     then (True, s\<lparr>ld_auth_agent := None\<rparr>) else (False, s))"

definition stash_renewal_challenge :: "bytes \<Rightarrow> link \<Rightarrow> link" where
  "stash_renewal_challenge challenge s = s\<lparr>ld_renewal_challenge := Some challenge\<rparr>"

definition take_renewal_challenge_if :: "bytes \<Rightarrow> link \<Rightarrow> bool \<times> link" where
  "take_renewal_challenge_if challenge s = (if ld_renewal_challenge s = Some challenge
     then (True, s\<lparr>ld_renewal_challenge := None\<rparr>) else (False, s))"

definition finish_renewal_failure :: "auth_failure_reason \<Rightarrow> link \<Rightarrow> link" where
  "finish_renewal_failure reason s =
     s\<lparr>ld_renewal_in_flight := False, ld_last_auth_failure := Some reason\<rparr>"

section \<open>The node asks for a renewed credential\<close>

definition send_renewal_credential_request :: "link_env \<Rightarrow> system_time \<Rightarrow> link \<Rightarrow> link" where
  "send_renewal_credential_request e auth_expires s = (case e_peer e of
     None \<Rightarrow> finish_renewal_failure (AgentError ''no auth key to mint a renewal challenge'') s
   | Some peer \<Rightarrow>
       let payload = new_payload (e_auth e) (now_secs e) (e_random e) (pv_auth_key peer);
           challenge = challenge_of payload;
           s = stash_renewal_challenge challenge s;
           s = emit (Send_Renew_Request payload) s;
           attempt_timeout = renewal_attempt_timeout (e_now e) auth_expires
       in emit (Renewal_Timer attempt_timeout challenge) s)"

text \<open>
  The timer of an attempt.  A completed or newer attempt has taken or replaced the
  challenge; a link that reuses the identifier of a closed one has another \<open>uid\<close>.
\<close>

definition renewal_timer_fires :: "link_env \<Rightarrow> bytes \<Rightarrow> nat \<Rightarrow> link \<Rightarrow> link" where
  "renewal_timer_fires e challenge link_uid s = (
     if e_peer e = None \<or> ls_uid s \<noteq> link_uid then s
     else (case take_renewal_challenge_if challenge s of
       (True, s) \<Rightarrow> finish_renewal_failure (AgentError ''renewal credential request timed out'') s
     | (False, s) \<Rightarrow> s))"

definition warn_no_agent :: "link \<Rightarrow> link" where
  "warn_no_agent s = (if ld_renewal_no_agent_warned s then s
     else s\<lparr>ld_renewal_no_agent_warned := True, ld_last_auth_failure := Some NoAgent\<rparr>)"

definition maybe_renew_auth :: "link_env \<Rightarrow> link \<Rightarrow> link option" where
  "maybe_renew_auth e s = (case ld_renewal_deadline s of
     None \<Rightarrow> Some s
   | Some deadline \<Rightarrow>
       if e_now e < deadline \<or> ld_renewal_in_flight s then Some s
       else (case ld_renewal_identity s of
         None \<Rightarrow> Some (warn_no_agent s)
       | Some identity \<Rightarrow> (case ld_auth_agent s of
           None \<Rightarrow>
             if ls_type s = NodeToAdapter then do {
               let s = s\<lparr>ld_renewal_in_flight := True\<rparr>;
               auth_expires \<leftarrow> ld_auth_expires s;
               Some (send_renewal_credential_request e auth_expires s)
             } else Some (warn_no_agent s)
         | Some agent \<Rightarrow> do {
             let s = s\<lparr>ld_renewal_in_flight := True\<rparr>;
             auth_expires \<leftarrow> ld_auth_expires s;
             Some (if \<not> e_agent_open e agent
               then s\<lparr>ld_auth_agent := None, ld_renewal_in_flight := False,
                      ld_last_auth_failure := Some (AgentError ''AuthAgent bridge is gone'')\<rparr>
               else emit (Agent_Renewal (ri_idp identity) (ri_nonce identity)
                      (renewal_attempt_timeout (e_now e) auth_expires)) s)
           })))"

definition request_renewal_now :: "link_env \<Rightarrow> link \<Rightarrow> renewal_start \<times> link" where
  "request_renewal_now e s = (
     if ls_type s \<noteq> NodeToAdapter then (Ignored, s)
     else if ls_state s \<noteq> Active then (Ignored, s)
     else if ld_renewal_in_flight s then (Coalesced, s)
     else
       let s = s\<lparr>ld_renewal_in_flight := True\<rparr>;
           auth_expires = (case ld_auth_expires s of Some t \<Rightarrow> t
             | None \<Rightarrow> e_now e + 2 * int OIDC_USER_INTERACTION_TIMEOUT)
       in (Accepted, send_renewal_credential_request e auth_expires s))"

section \<open>Submission to the visa service\<close>

text \<open>
  \<open>submit_renewal_reauthorize\<close> is one request to the visa service; \<open>answer\<close> is what it
  returns, the new expiry or an error.  The code checks that the link is still there, that
  there is a connection and an address to renew before it sends.
\<close>

definition get_actor_addresses :: "link \<Rightarrow> ip list" where
  "get_actor_addresses s = ls_actor_addresses s @ (case ld_aaa_address s of Some a \<Rightarrow> [a] | None \<Rightarrow> [])"

definition has_actor_address :: "ip \<Rightarrow> link \<Rightarrow> bool" where
  "has_actor_address addr s \<longleftrightarrow> list_ex (\<lambda>a. a = addr) (ls_actor_addresses s) \<or> ld_aaa_address s = Some addr"

text \<open>Only the links that the process has to itself get their addresses this way.\<close>

definition add_internal_actor_address :: "ip \<Rightarrow> link \<Rightarrow> link option" where
  "add_internal_actor_address addr s = do {
     ensure (is_internal s);
     Some (s\<lparr>ls_actor_addresses := ls_actor_addresses s @ [addr]\<rparr>)
   }"

definition submit_renewal_reauthorize ::
  "link_env \<Rightarrow> nat \<Rightarrow> vst_blob list \<Rightarrow> (string + u64) \<Rightarrow> link \<Rightarrow> link option" where
  "submit_renewal_reauthorize e link_uid blobs answer s = (
     if e_peer e = None \<or> ls_uid s \<noteq> link_uid then Some s
     else if \<not> e_vsconn e then
       Some (finish_renewal_failure (AgentError ''no visa service connection for renewal'') s)
     else if get_actor_addresses s = [] then
       Some (finish_renewal_failure (AgentError ''no actor address to renew'') s)
     else let s = emit (Reauthorize (hd (get_actor_addresses s)) blobs) s in
       (case answer of
          Inr auth_expires \<Rightarrow> do {
            expires \<leftarrow> epoch_plus auth_expires;
            Some (set_auth_expires (e_now e) expires (e_renewal_lead e) s)
          }
        | Inl msg \<Rightarrow> Some (finish_renewal_failure (VisaServiceRejected msg) s)))"

text \<open>The task of the agent-direct path, when the agent has answered or the wait timed out.\<close>

definition handle_renewal_reply :: "link_env \<Rightarrow> nat \<Rightarrow> string \<Rightarrow> string \<Rightarrow>
    auth_failure_reason + string \<Rightarrow> (string + u64) \<Rightarrow> link \<Rightarrow> link option" where
  "handle_renewal_reply e link_uid issuer nonce outcome answer s = (
     if e_peer e = None \<or> ls_uid s \<noteq> link_uid then Some s
     else (case outcome of
       Inl reason \<Rightarrow> Some (finish_renewal_failure reason s)
     | Inr id_token \<Rightarrow>
         submit_renewal_reauthorize e link_uid [Vst_Oidc issuer id_token nonce] answer s))"

definition vst_blobs_for_renewal :: "auth_lib \<Rightarrow> auth_blob list \<Rightarrow> vst_blob list" where
  "vst_blobs_for_renewal A blobs = map (vst_blob_of A) blobs"

section \<open>The adapter answers\<close>

definition answer_unavailable :: "bytes \<Rightarrow> link \<Rightarrow> link" where
  "answer_unavailable challenge s = emit (Send_Renew_Response RC_AuthUnavailable challenge []) s"

text \<open>The user leg of the answer goes through the agent, without interaction.\<close>

definition renew_with_agent :: "link_env \<Rightarrow> bytes \<Rightarrow> auth_blob option \<Rightarrow> link \<Rightarrow> link" where
  "renew_with_agent e challenge ss_blob s = (
     case (ld_auth_agent s, Option.bind (ld_oidc_idps s) (\<lambda>v. if v = [] then None else Some (hd v))) of
       (Some agent, Some idp) \<Rightarrow>
         let nonce = oidc_nonce_for_challenge (e_auth e) challenge in
         if \<not> e_agent_open e agent then answer_unavailable challenge (snd (clear_auth_agent_if agent s))
         else (emit (Agent_Adapter_Renewal idp nonce challenge ss_blob) s)\<lparr>ld_adapter_renewal_task := True\<rparr>
     | (_, _) \<Rightarrow> answer_unavailable challenge s)"

definition recorded_namespaces :: "link \<Rightarrow> auth_namespace set" where
  "recorded_namespaces s = (case ld_namespaces s of Some ns \<Rightarrow> ns | None \<Rightarrow> {User})"

definition device_leg :: "link_env \<Rightarrow> init_auth_payload \<Rightarrow> auth_blob option" where
  "device_leg e challenge_payload = (case e_bootstrap e of
     None \<Rightarrow> None
   | Some bs \<Rightarrow> (case authenticate_blob (e_auth e) (now_secs e) bs challenge_payload of
       Inr blob \<Rightarrow> Some (SelfSigned blob)
     | Inl _ \<Rightarrow> None))"

definition process_renew_auth_request :: "link_env \<Rightarrow> init_auth_payload \<Rightarrow> link \<Rightarrow> handler_result" where
  "process_renew_auth_request e challenge_payload s = (
     if ls_type s \<noteq> AdapterToNode \<or> ls_state s \<noteq> Active
     then err (UnexpectedTransition (ls_state s) ''ReceivedRenewAuthRequest'') s
     else
       let challenge = challenge_of challenge_payload;
           s = (if ld_adapter_renewal_task s
                then emit Abort_Adapter_Renewal (s\<lparr>ld_adapter_renewal_task := False\<rparr>) else s);
           namespaces = recorded_namespaces s;
           need_ss = (Device \<in> namespaces);
           need_oidc = (User \<in> namespaces);
           ss_blob = (if need_ss then device_leg e challenge_payload else None)
       in if need_ss \<and> ss_blob = None then ok (answer_unavailable challenge s)
          else if \<not> need_oidc then do {
            blob \<leftarrow> ss_blob;
            ok (emit (Send_Renew_Response RC_Success challenge (encode_blobs (e_auth e) [blob])) s)
          }
          else ok (renew_with_agent e challenge ss_blob s))"

text \<open>The task that waits for the agent, when it has answered or dropped the request.\<close>

definition adapter_renewal_completion :: "link_env \<Rightarrow> nat \<Rightarrow> oidc_idp_info \<Rightarrow> bytes \<Rightarrow> auth_blob option \<Rightarrow>
    (auth_failure_reason + string) option \<Rightarrow> link \<Rightarrow> link" where
  "adapter_renewal_completion e link_uid idp challenge ss_blob outcome s = (
     if e_peer e = None \<or> ls_uid s \<noteq> link_uid then s
     else (case outcome of
       Some (Inr id_token) \<Rightarrow>
         let oidc = Oidc \<lparr>oidc_blob_type = BLOB_TYPE_OIDC, oidc_issuer = idp_issuer idp,
               oidc_id_token = id_token, oidc_challenge = b64_encode (e_auth e) challenge\<rparr>;
             blobs = (case ss_blob of Some ss \<Rightarrow> [ss] | None \<Rightarrow> []) @ [oidc]
         in emit (Send_Renew_Response RC_Success challenge (encode_blobs (e_auth e) blobs)) s
     | _ \<Rightarrow> answer_unavailable challenge s))"

section \<open>The node checks the answer\<close>

definition blob_challenge :: "auth_blob \<Rightarrow> string" where
  "blob_challenge b = (case b of SelfSigned ss \<Rightarrow> ss_challenge ss | Oidc oidc \<Rightarrow> oidc_challenge oidc)"

text \<open>
  The loop over the blobs of an answer: the first failure, if any.  The self-signed leg is
  held to the longer window of the OIDC leg it shares its challenge with.
\<close>

fun check_renewal_blobs :: "link_env \<Rightarrow> bytes \<Rightarrow> auth_blob list \<Rightarrow> (auth_failure_reason + unit) option" where
  "check_renewal_blobs e challenge [] = Some (Inr ())"
| "check_renewal_blobs e challenge (d_blob # blobs) = do {
     good \<leftarrow> (case d_blob of
        SelfSigned ss_blob \<Rightarrow> check_self_signed_blob e ss_blob MAX_OIDC_BLOB_AGE_SECONDS
      | Oidc blob \<Rightarrow> check_oidc_blob e blob);
     if \<not> good then Some (Inl (AgentError ''renewal blob challenge failed verification''))
     else
       let returned_challenge =
         (case b64_decode (e_auth e) (blob_challenge d_blob) of Some b \<Rightarrow> b | None \<Rightarrow> [])
       in if returned_challenge \<noteq> challenge
          then Some (Inl (AgentError ''renewal blob is bound to a different challenge''))
          else check_renewal_blobs e challenge blobs
   }"

text \<open>The checks on the decoded answer, in the order of the code.\<close>

definition check_renewal_answer :: "link_env \<Rightarrow> bytes \<Rightarrow> auth_blob list \<Rightarrow> link \<Rightarrow> (auth_failure_reason + unit) option" where
  "check_renewal_answer e challenge blobs s = (
     let expected = recorded_namespaces s;
         got = blob_namespaces blobs
     in if length blobs \<noteq> card got
        then Some (Inl (AgentError ''renewal blob array carries a duplicate namespace''))
        else if got \<noteq> expected
        then Some (Inl (AgentError ''renewal blob namespace set does not match the authenticated set''))
        else do {
          r \<leftarrow> check_renewal_blobs e challenge blobs;
          Some (case r of Inl x \<Rightarrow> Inl x
            | Inr _ \<Rightarrow> (case first_oidc blobs of
                None \<Rightarrow> Inr ()
              | Some oidc \<Rightarrow>
                  if map_option (\<lambda>i. idp_issuer (ri_idp i)) (ld_renewal_identity s) \<noteq> Some (oidc_issuer oidc)
                  then Inl (AgentError ''renewed credential from unexpected issuer'') else Inr ()))
        })"

definition process_renew_auth_response :: "link_env \<Rightarrow> bytes \<Rightarrow> response_code + string \<Rightarrow> link \<Rightarrow> handler_result" where
  "process_renew_auth_response e echoed_challenge result s = (
     if ls_type s \<noteq> NodeToAdapter \<or> ls_state s \<noteq> Active
     then err (UnexpectedTransition (ls_state s) ''ReceivedRenewAuthResponse'') s
     else (case take_renewal_challenge_if echoed_challenge s of
       (False, s) \<Rightarrow> ok s
     | (True, s) \<Rightarrow> (case result of
         Inl code \<Rightarrow> ok (finish_renewal_failure (if code = RC_AuthUnavailable then AuthUnavailable
             else AgentError ''adapter answered renewal with code'') s)
       | Inr blob_str \<Rightarrow> (case decode_blobs (e_auth e) blob_str of
           Inl _ \<Rightarrow> ok (finish_renewal_failure (AgentError ''invalid renewal blob'') s)
         | Inr blobs \<Rightarrow> do {
             r \<leftarrow> check_renewal_answer e echoed_challenge blobs s;
             (case r of
                Inl reason \<Rightarrow> ok (finish_renewal_failure reason s)
              | Inr _ \<Rightarrow> ok (emit (Submit_Renewal (vst_blobs_for_renewal (e_auth e) blobs)) s))
           }))))"

end
