(* ===== verification/Link_Machine.thy ===== *)
theory Link_Machine
  imports Link_Grant Link_Renewal
begin

text \<open>
  The keep-alive mechanism, the timeouts and the dispatch of events of the link state
  machine (\<open>link_state.rs\<close>).
\<close>

section \<open>Keep-alive and timeouts\<close>

definition process_keep_alive_response :: "link_env \<Rightarrow> link \<Rightarrow> handler_result" where
  "process_keep_alive_response e s = (
     if ls_state s \<noteq> Active then err (UnexpectedTransition (ls_state s) ''ReceivedKeepAliveResponse'') s
     else (case ls_echo s of
       None \<Rightarrow> err (UnexpectedTransition (ls_state s) ''ReceivedKeepAliveResponse'') s
     | Some start_time \<Rightarrow> do {
         let s = s\<lparr>ls_echo := None, ls_keep_alive_misses := 0, ld_echo_success := ld_echo_success s + 1\<rparr>;
         latency \<leftarrow> add_sample (duration_since (e_now e) start_time) (ld_latency s);
         let s = s\<lparr>ld_latency := latency\<rparr>;
         s \<leftarrow> maybe_renew_auth e (set_timeout DEFAULT_KEEP_ALIVE_PERIOD s);
         ok s
       }))"

definition send_keep_alive :: "link_env \<Rightarrow> link \<Rightarrow> handler_result" where
  "send_keep_alive e s = ok (set_timeout DEFAULT_KEEP_ALIVE_TIMEOUT ((emit Send_Echo s)\<lparr>ls_echo := Some (e_now e)\<rparr>))"

definition keep_alive_timeout :: "link_env \<Rightarrow> link \<Rightarrow> handler_result" where
  "keep_alive_timeout e s = (case ls_echo s of
     None \<Rightarrow> send_keep_alive e s
   | Some _ \<Rightarrow>
       let s = s\<lparr>ls_echo := None, ld_echo_timeout := ld_echo_timeout s + 1,
                 ls_keep_alive_misses := ls_keep_alive_misses s + 1\<rparr>
       in if ls_keep_alive_misses s \<ge> KEEP_ALIVE_MAX_MISSES then fail_link e TR_RequestTimedOut s
          else send_keep_alive e s)"

definition process_timeout :: "link_env \<Rightarrow> u64 \<Rightarrow> link \<Rightarrow> handler_result" where
  "process_timeout e logical_clock s = (
     if logical_clock \<noteq> ls_clock s then ok s
     else case (ls_type s, ls_state s) of
       (AdapterToNode, WaitForUserAuth) \<Rightarrow> process_authentication_failure e InteractionTimeout s
     | (AdapterToNode, RegisterAA) \<Rightarrow> fail_link e TR_RequestTimedOut s
     | (AdapterToNode, Helloing) \<Rightarrow> fail_link e TR_RequestTimedOut s
     | (NodeToAdapter, Keying) \<Rightarrow> fail_link e TR_RequestTimedOut s
     | (_, Active) \<Rightarrow> keep_alive_timeout e s
     | (_, Closing) \<Rightarrow> do { s \<leftarrow> clean_up_link_state e s; ok s }
     | (_, _) \<Rightarrow> err (InvalidOperation ''Ignoring unexpected timeout'') s)"

section \<open>Dispatch\<close>

fun process_event :: "link_env \<Rightarrow> link_event \<Rightarrow> link \<Rightarrow> handler_result" where
  "process_event e Start s = process_start e s"
| "process_event e KeyingDone s = process_keying_done e s"
| "process_event e ReceivedHelloRequest s = process_hello_request e s"
| "process_event e (AssignedAAA addr) s = process_assigned_aaa addr s"
| "process_event e (ReceivedHelloResponse code aaa_addr idps) s = process_hello_response e code aaa_addr idps s"
| "process_event e (ReceivedAcquireZprAddressRequest addrs blob) s = process_acquire_zpr_address_request e addrs blob s"
| "process_event e (ReceivedInitAuth bootstrap challenge) s = process_init_auth e bootstrap challenge s"
| "process_event e ReceivedInitAuthAck s = process_init_auth_ack s"
| "process_event e ReceivedInitAuthTimeout s = process_init_auth_timeout e s"
| "process_event e (ReceivedRenewAuthRequest challenge) s = process_renew_auth_request e challenge s"
| "process_event e (ReceivedRenewAuthResponse challenge result) s = process_renew_auth_response e challenge result s"
| "process_event e (ReceivedGrantZprAddressRequest result) s = process_grant_zpr_address_request e result s"
| "process_event e (AuthenticationFailure reason) s = process_authentication_failure e reason s"
| "process_event e (AuthenticationSuccess blobs) s = process_authentication_success e blobs s"
| "process_event e (ReceivedAuthorizeResponse zpr_addr) s = process_authorize_response zpr_addr s"
| "process_event e (ReceivedAuthorizeFailure code msg) s = process_authorize_failure e code s"
| "process_event e ReceivedKeepAliveResponse s = process_keep_alive_response e s"
| "process_event e (ReceivedTerminateLink code) s = process_terminate_link e s"
| "process_event e ReceivedTerminateAck s = process_terminate_ack e s"
| "process_event e ReceivedDisconnectAck s = process_disconnect_ack s"
| "process_event e (Close code) s = initiate_close e code s"
| "process_event e CloseDone s = ok (complete_close e s)"
| "process_event e ErrorEvent s = process_error_response e s"
| "process_event e (Timeout logical_clock) s = process_timeout e logical_clock s"

text \<open>\<open>Assembly::process_link_state_event\<close>: the event goes to the peer's link, if the peer exists.\<close>

definition process_link_state_event :: "link_env \<Rightarrow> link_event \<Rightarrow> link \<Rightarrow> handler_result" where
  "process_link_state_event e ev s = (if e_peer e = None then err (NotFound (ls_id s)) s else process_event e ev s)"

end
