(* ===== verification/Link_Invariant.thy ===== *)
theory Link_Invariant
  imports Link_Machine
begin

text \<open>
  The invariant of a link: every event and every other operation on a link keeps it, so it
  holds of every reachable link.
\<close>

section \<open>The invariant\<close>

definition running :: "link_state \<Rightarrow> bool" where
  "running st \<longleftrightarrow> st \<in> {Keying, Helloing, Active, RegisterAA, WaitForInitAuth,
     WaitForAcquireZprAddress, WaitForUserAuth}"

definition link_wf :: "link \<Rightarrow> bool" where
  "link_wf s \<longleftrightarrow>
     (ls_timeout s = None \<or> ls_timeout s = Some (ls_clock s)) \<and>
     (running (ls_state s) \<longrightarrow> ls_status s = Up \<and> ls_type s \<noteq> NodeToNode) \<and>
     (ls_state s = Active \<longrightarrow> ls_keep_alive_misses s < KEEP_ALIVE_MAX_MISSES) \<and>
     ld_namespaces s \<noteq> Some {} \<and>
     (ld_renewal_challenge s \<noteq> None \<longrightarrow> ls_type s = NodeToAdapter) \<and>
     (ld_renewal_deadline s = None \<longleftrightarrow> ld_auth_expires s = None) \<and>
     (\<exists>h. has_seen 100 h (ld_latency s)) \<and>
     (\<forall>p. lw_pool s = Some p \<longrightarrow> pool_ok p)"

lemma link_wf_new: "(\<forall>p. pool = Some p \<longrightarrow> pool_ok p) \<Longrightarrow> link_wf (new_link i u t pool)"
  using has_seen_new [of 100 0] by (auto simp: link_wf_def new_link_def running_def)

text \<open>The building blocks of the handlers.\<close>

named_theorems link_frame

lemma set_state_fields [link_frame]:
  "ls_state (set_state x s) = x" "ls_type (set_state x s) = ls_type s" "ls_id (set_state x s) = ls_id s"
  "ls_uid (set_state x s) = ls_uid s" "ls_clock (set_state x s) = ls_clock s + 1"
  "ls_timeout (set_state x s) = None" "lw_out (set_state x s) = lw_out s"
  "ls_status (set_state x s) = ls_status s" "ls_shutting_down (set_state x s) = ls_shutting_down s"
  "ld_last_auth_failure (set_state x s) = ld_last_auth_failure s"
  "ls_keep_alive_misses (set_state x s) = ls_keep_alive_misses s" "ls_echo (set_state x s) = ls_echo s"
  "ls_stowed_init_auth (set_state x s) = ls_stowed_init_auth s"
  "ls_actor_addresses (set_state x s) = ls_actor_addresses s"
  "ld_aaa_address (set_state x s) = ld_aaa_address s" "lw_pool (set_state x s) = lw_pool s"
  "ld_oidc_idps (set_state x s) = ld_oidc_idps s" "ld_auth_agent (set_state x s) = ld_auth_agent s"
  by (simp_all add: set_state_def cancel_timeout_def)

lemma set_timeout_fields [link_frame]:
  "ls_state (set_timeout d s) = ls_state s" "ls_type (set_timeout d s) = ls_type s"
  "ls_id (set_timeout d s) = ls_id s" "ls_uid (set_timeout d s) = ls_uid s"
  "ls_clock (set_timeout d s) = ls_clock s + 1" "ls_timeout (set_timeout d s) = Some (ls_clock s + 1)"
  "lw_out (set_timeout d s) = lw_out s @ [Arm_Timeout d (ls_clock s + 1)]"
  "ls_status (set_timeout d s) = ls_status s" "ls_shutting_down (set_timeout d s) = ls_shutting_down s"
  "ld_last_auth_failure (set_timeout d s) = ld_last_auth_failure s"
  "ls_keep_alive_misses (set_timeout d s) = ls_keep_alive_misses s" "ls_echo (set_timeout d s) = ls_echo s"
  "ls_actor_addresses (set_timeout d s) = ls_actor_addresses s"
  "ld_aaa_address (set_timeout d s) = ld_aaa_address s" "lw_pool (set_timeout d s) = lw_pool s"
  "ld_renewal_deadline (set_timeout d s) = ld_renewal_deadline s"
  "ld_renewal_in_flight (set_timeout d s) = ld_renewal_in_flight s"
  by (simp_all add: set_timeout_def cancel_timeout_def emit_def Let_def)

lemma emit_fields [link_frame]:
  "ls_state (emit a s) = ls_state s" "ls_type (emit a s) = ls_type s" "ls_id (emit a s) = ls_id s"
  "ls_uid (emit a s) = ls_uid s" "ls_clock (emit a s) = ls_clock s" "ls_timeout (emit a s) = ls_timeout s"
  "lw_out (emit a s) = lw_out s @ [a]" "ls_status (emit a s) = ls_status s"
  "ls_shutting_down (emit a s) = ls_shutting_down s"
  "ld_last_auth_failure (emit a s) = ld_last_auth_failure s"
  "ls_keep_alive_misses (emit a s) = ls_keep_alive_misses s" "ls_echo (emit a s) = ls_echo s"
  "ls_stowed_init_auth (emit a s) = ls_stowed_init_auth s"
  "ls_actor_addresses (emit a s) = ls_actor_addresses s"
  "ld_aaa_address (emit a s) = ld_aaa_address s" "lw_pool (emit a s) = lw_pool s"
  by (simp_all add: emit_def)

declare link_frame [simp]

text \<open>The building blocks keep the invariant.\<close>

named_theorems link_wf_intros

lemma link_wf_emit [simp]: "link_wf (emit a s) = link_wf s"
  by (simp add: link_wf_def emit_def)

lemma link_wf_cancel [link_wf_intros]: "link_wf s \<Longrightarrow> link_wf (cancel_timeout s)"
  by (simp add: link_wf_def cancel_timeout_def)

lemma link_wf_set_timeout [link_wf_intros]: "link_wf s \<Longrightarrow> link_wf (set_timeout d s)"
  by (simp add: link_wf_def timer_defs)

lemma link_wf_set_state:
  "link_wf s \<Longrightarrow> (running x \<Longrightarrow> ls_status s = Up \<and> ls_type s \<noteq> NodeToNode) \<Longrightarrow> x \<noteq> Active \<Longrightarrow> link_wf (set_state x s)"
  by (simp add: link_wf_def timer_defs)

text \<open>Updates of fields that the invariant does not constrain.\<close>

lemma link_wf_frames [simp]:
  "link_wf (s\<lparr>ld_last_auth_failure := x1\<rparr>) = link_wf s"
  "link_wf (s\<lparr>ls_shutting_down := x2\<rparr>) = link_wf s"
  "link_wf (s\<lparr>ld_aaa_address := x3\<rparr>) = link_wf s"
  "link_wf (s\<lparr>ls_actor_addresses := x4\<rparr>) = link_wf s"
  "link_wf (s\<lparr>ls_silent := x5\<rparr>) = link_wf s"
  "link_wf (s\<lparr>ls_stowed_init_auth := x6\<rparr>) = link_wf s"
  "link_wf (s\<lparr>ld_oidc_idps := x7\<rparr>) = link_wf s"
  "link_wf (s\<lparr>ld_auth_agent := x8\<rparr>) = link_wf s"
  "link_wf (s\<lparr>ld_renewal_identity := x9\<rparr>) = link_wf s"
  "link_wf (s\<lparr>ld_renewal_in_flight := x10\<rparr>) = link_wf s"
  "link_wf (s\<lparr>ld_adapter_renewal_task := x11\<rparr>) = link_wf s"
  "link_wf (s\<lparr>ld_renewal_no_agent_warned := x12\<rparr>) = link_wf s"
  "link_wf (s\<lparr>ls_echo := x13\<rparr>) = link_wf s"
  "link_wf (s\<lparr>ld_echo_success := x14\<rparr>) = link_wf s"
  "link_wf (s\<lparr>ld_echo_timeout := x15\<rparr>) = link_wf s"
  by (simp_all add: link_wf_def)


section \<open>Every handler keeps the invariant\<close>

named_theorems keeps_wf

lemma not_running [simp]: "\<not> running Closing" "\<not> running Inactive" "\<not> running Resetting"
    "\<not> running ErrorState" "\<not> running (Disconnecting r)"
  by (simp_all add: running_def)

lemma is_running [simp]: "running Keying" "running Helloing" "running Active" "running RegisterAA"
    "running WaitForInitAuth" "running WaitForAcquireZprAddress" "running WaitForUserAuth"
  by (simp_all add: running_def)

lemma link_wf_up: "link_wf s \<Longrightarrow> running (ls_state s) \<Longrightarrow> ls_status s = Up \<and> ls_type s \<noteq> NodeToNode"
  by (simp add: link_wf_def)

lemma continue_close_wf [keeps_wf]: "continue_close r s = Some (s', x) \<Longrightarrow> link_wf s \<Longrightarrow> link_wf s'"
  by (auto simp: continue_close_def Let_def intro!: link_wf_intros link_wf_set_state)

lemma maybe_disconnect_wf [keeps_wf]:
  "maybe_disconnect_visa_service_client e r s = Some (s', x) \<Longrightarrow> link_wf s \<Longrightarrow> link_wf s'"
  by (auto simp: maybe_disconnect_visa_service_client_def Let_def split: if_splits
      intro!: link_wf_set_state elim!: continue_close_wf)

lemma initiate_close_wf [keeps_wf]: "initiate_close e r s = Some (s', x) \<Longrightarrow> link_wf s \<Longrightarrow> link_wf s'"
  by (auto simp: initiate_close_def record_auth_failure_def Let_def split: if_splits
      elim!: maybe_disconnect_wf)

lemma fail_link_wf [keeps_wf]: "fail_link e r s = Some (s', x) \<Longrightarrow> link_wf s \<Longrightarrow> link_wf s'"
  by (auto simp: fail_link_def elim!: initiate_close_wf intro!: link_wf_set_state)

lemma process_error_response_wf [keeps_wf]:
  "process_error_response e s = Some (s', x) \<Longrightarrow> link_wf s \<Longrightarrow> link_wf s'"
  by (auto simp: process_error_response_def elim!: initiate_close_wf)

lemma process_authentication_failure_wf [keeps_wf]:
  "process_authentication_failure e r s = Some (s', x) \<Longrightarrow> link_wf s \<Longrightarrow> link_wf s'"
  by (auto simp: process_authentication_failure_def record_auth_failure_def elim!: fail_link_wf)

lemma process_disconnect_ack_wf [keeps_wf]:
  "process_disconnect_ack s = Some (s', x) \<Longrightarrow> link_wf s \<Longrightarrow> link_wf s'"
  by (auto simp: process_disconnect_ack_def split: link_type.splits link_state.splits elim!: continue_close_wf)

lemma pool_ok_release: "pool_ok p \<Longrightarrow> pool_ok (snd (release_address a p))"
  by (auto simp: pool_ok_def release_address_def)

lemma release_aaa_wf [link_wf_intros]: "link_wf s \<Longrightarrow> link_wf (release_aaa s)"
  using pool_ok_release
  by (auto simp: release_aaa_def link_wf_def Let_def split: option.splits)

lemma release_aaa_frame [simp]: "ls_type (release_aaa s) = ls_type s" "ls_state (release_aaa s) = ls_state s"
    "ls_clock (release_aaa s) = ls_clock s" "ls_uid (release_aaa s) = ls_uid s" "ls_id (release_aaa s) = ls_id s"
  by (simp_all add: release_aaa_def Let_def split: option.split)

lemma fold_emit: "fold (\<lambda>a. emit (f a)) xs s = s\<lparr>lw_out := lw_out s @ map f xs\<rparr>"
  by (induction xs arbitrary: s) (simp_all add: emit_def)

lemma link_wf_out [simp]: "link_wf (s\<lparr>lw_out := x\<rparr>) = link_wf s"
  by (simp add: link_wf_def)

lemma deregister_frame [simp]: "link_wf (deregister_actor_addresses e s) = link_wf s"
  "ls_type (deregister_actor_addresses e s) = ls_type s" "ls_state (deregister_actor_addresses e s) = ls_state s"
  "ls_clock (deregister_actor_addresses e s) = ls_clock s" "ls_uid (deregister_actor_addresses e s) = ls_uid s"
  "ls_id (deregister_actor_addresses e s) = ls_id s"
  by (simp_all add: deregister_actor_addresses_def fold_emit)

lemma clean_up_wf [keeps_wf]: "clean_up_link_state e s = Some s' \<Longrightarrow> link_wf s \<Longrightarrow> link_wf s'"
  by (auto simp: clean_up_link_state_def Let_def split: if_splits link_type.splits
      intro!: link_wf_intros elim!: bind_SomeE)

lemma clean_up_total: "e_tun_carrier_ok e \<Longrightarrow> \<exists>s'. clean_up_link_state e s = Some s'"
  by (auto simp: clean_up_link_state_def Let_def split: link_type.splits)

lemma complete_close_wf [link_wf_intros]: "link_wf s \<Longrightarrow> link_wf (complete_close e s)"
  by (auto simp: complete_close_def Let_def intro!: link_wf_set_state)

lemma process_terminate_ack_wf [keeps_wf]:
  "process_terminate_ack e s = Some (s', x) \<Longrightarrow> link_wf s \<Longrightarrow> link_wf s'"
  by (auto simp: process_terminate_ack_def split: if_splits intro!: link_wf_intros elim!: bind_SomeE clean_up_wf)

lemma process_terminate_link_wf [keeps_wf]:
  "process_terminate_link e s = Some (s', x) \<Longrightarrow> link_wf s \<Longrightarrow> link_wf s'"
  by (auto simp: process_terminate_link_def intro!: link_wf_set_state elim!: bind_SomeE clean_up_wf)

lemma reset_link_wf [keeps_wf]: "reset_link e s = Some s' \<Longrightarrow> link_wf s \<Longrightarrow> link_wf s'"
  by (auto simp: reset_link_def intro!: link_wf_set_state elim!: clean_up_wf)

lemma link_wf_status [simp]: "link_wf s \<Longrightarrow> link_wf (s\<lparr>ls_status := Up\<rparr>)"
  by (simp add: link_wf_def)

lemma process_start_wf [keeps_wf]:
  assumes "process_start e s = Some (s', x)" and "link_wf s" shows "link_wf s'"
proof (cases "ls_type s = NodeToNode")
  case True
  then show ?thesis
    using assms by (auto simp: process_start_def timer_defs link_wf_def split: if_splits)
next
  case False
  then show ?thesis
    using assms by (auto simp: process_start_def Let_def split: if_splits link_type.splits
        intro!: link_wf_intros link_wf_set_state elim!: bind_SomeE)
qed

lemma assign_special_names_frame [simp]: "link_wf (assign_special_names e c s) = link_wf s"
  "ls_type (assign_special_names e c s) = ls_type s" "ls_state (assign_special_names e c s) = ls_state s"
  "ls_status (assign_special_names e c s) = ls_status s" "ls_clock (assign_special_names e c s) = ls_clock s"
  "ls_uid (assign_special_names e c s) = ls_uid s" "ls_id (assign_special_names e c s) = ls_id s"
  by (simp_all add: assign_special_names_def fold_emit Let_def split: option.split prod.split)

lemma process_keying_done_wf [keeps_wf]:
  "process_keying_done e s = Some (s', x) \<Longrightarrow> link_wf s \<Longrightarrow> link_wf s'"
  using link_wf_up [of s]
  by (auto simp: process_keying_done_def Let_def split: if_splits option.splits
      intro!: link_wf_intros link_wf_set_state)


lemma pool_ok_get: "get_aaa_address buf p = Some (a, p') \<Longrightarrow> pool_ok p \<Longrightarrow> pool_ok p'"
  using get_aaa_address_Some [of buf p a p'] by (auto simp: pool_ok_def)

lemma allocate_aaa_wf:
  "allocate_aaa e s = Some (a, s') \<Longrightarrow> link_wf s \<Longrightarrow>
     link_wf s' \<and> ls_type s' = ls_type s \<and> ls_state s' = ls_state s \<and> ls_status s' = ls_status s \<and>
     ls_clock s' = ls_clock s"
  using pool_ok_get
  by (auto simp: allocate_aaa_def process_assigned_aaa_def link_wf_def split: option.splits
      elim!: bind_SomeE; fastforce)

lemma send_init_frame [simp]: "link_wf (send_init_authentication_request e s) = link_wf s"
  "ls_state (send_init_authentication_request e s) = ls_state s"
  "ls_clock (send_init_authentication_request e s) = ls_clock s"
  "ls_type (send_init_authentication_request e s) = ls_type s"
  by (simp_all add: send_init_authentication_request_def split: option.split)

lemma process_hello_request_wf [keeps_wf]:
  "process_hello_request e s = Some (s', x) \<Longrightarrow> link_wf s \<Longrightarrow> link_wf s'"
  using link_wf_up [of s]
  by (auto simp: process_hello_request_def Let_def split: link_type.splits link_state.splits
      intro!: link_wf_set_state elim!: bind_SomeE dest!: allocate_aaa_wf)

lemma do_oidc_authenticate_wf [keeps_wf]:
  "do_oidc_authenticate e a i c b k s = Some s' \<Longrightarrow> link_wf s \<Longrightarrow> link_wf s'"
  by (auto simp: do_oidc_authenticate_def Let_def split: if_splits elim: process_authentication_failure_wf)

lemma set_authenticated_namespaces_wf: "ns \<noteq> {} \<Longrightarrow> link_wf s \<Longrightarrow> link_wf (set_authenticated_namespaces ns s)"
  by (simp add: set_authenticated_namespaces_def link_wf_def)

lemma set_authenticated_namespaces_frame [simp]:
  "ls_state (set_authenticated_namespaces ns s) = ls_state s"
  "ls_type (set_authenticated_namespaces ns s) = ls_type s"
  "ls_status (set_authenticated_namespaces ns s) = ls_status s"
  "ls_clock (set_authenticated_namespaces ns s) = ls_clock s"
  "ls_id (set_authenticated_namespaces ns s) = ls_id s"
  by (simp_all add: set_authenticated_namespaces_def)

lemma bootstrap_auth_wf [keeps_wf]:
  "bootstrap_auth e b c s = Some (s', x) \<Longrightarrow> running (ls_state s) \<Longrightarrow> link_wf s \<Longrightarrow> link_wf s'"
  using link_wf_up [of s]
  by (auto simp: bootstrap_auth_def Let_def split: bool.splits option.splits sum.splits
      intro!: link_wf_intros link_wf_set_state set_authenticated_namespaces_wf
      elim!: fail_link_wf process_authentication_failure_wf)

lemma oidc_auth_wf [keeps_wf]:
  "oidc_auth e a i c s = Some (s', x) \<Longrightarrow> running (ls_state s) \<Longrightarrow> link_wf s \<Longrightarrow> link_wf s'"
  using link_wf_up [of s]
  by (auto simp: oidc_auth_def Let_def split: sum.splits
      intro!: link_wf_intros link_wf_set_state elim!: bind_SomeE fail_link_wf do_oidc_authenticate_wf)

lemma process_init_auth_wf [keeps_wf]:
  "process_init_auth e b c s = Some (s', x) \<Longrightarrow> link_wf s \<Longrightarrow> link_wf s'"
  by (auto simp: process_init_auth_def Let_def
      split: link_type.splits link_state.splits option.splits if_splits
      elim!: keeps_wf)

lemma process_hello_response_wf [keeps_wf]:
  "process_hello_response e c a i s = Some (s', x) \<Longrightarrow> link_wf s \<Longrightarrow> link_wf s'"
  using link_wf_up [of s]
  by (auto simp: process_hello_response_def Let_def
      split: link_type.splits link_state.splits option.splits if_splits
      intro!: link_wf_set_state elim!: process_error_response_wf process_init_auth_wf)

lemma process_authentication_success_wf [keeps_wf]:
  "process_authentication_success e b s = Some (s', x) \<Longrightarrow> b \<noteq> [] \<Longrightarrow> link_wf s \<Longrightarrow> link_wf s'"
  using link_wf_up [of s]
  by (auto simp: process_authentication_success_def Let_def blob_namespaces_def split: if_splits
      intro!: link_wf_intros link_wf_set_state set_authenticated_namespaces_wf)

lemma process_init_auth_ack_wf [keeps_wf]:
  "process_init_auth_ack s = Some (s', x) \<Longrightarrow> link_wf s \<Longrightarrow> link_wf s'"
  by (auto simp: process_init_auth_ack_def split: link_type.splits link_state.splits intro!: link_wf_intros)

lemma process_init_auth_timeout_wf [keeps_wf]:
  "process_init_auth_timeout e s = Some (s', x) \<Longrightarrow> link_wf s \<Longrightarrow> link_wf s'"
  by (auto simp: process_init_auth_timeout_def split: link_type.splits link_state.splits elim!: fail_link_wf)

lemma link_wf_misses: "link_wf s \<Longrightarrow> link_wf (s\<lparr>ls_keep_alive_misses := 0\<rparr>)"
  by (simp add: link_wf_def)

lemma run_active_wf [keeps_wf]:
  "run_active s = Some (s', x) \<Longrightarrow> running (ls_state s) \<Longrightarrow> link_wf s \<Longrightarrow> link_wf s'"
  by (auto simp: run_active_def timer_defs link_wf_def)

lemma process_authorize_response_wf [keeps_wf]:
  "process_authorize_response a s = Some (s', x) \<Longrightarrow> link_wf s \<Longrightarrow> link_wf s'"
  by (auto simp: process_authorize_response_def Let_def split: link_type.splits link_state.splits
      elim!: run_active_wf)

lemma process_authorize_failure_wf [keeps_wf]:
  "process_authorize_failure e c s = Some (s', x) \<Longrightarrow> link_wf s \<Longrightarrow> link_wf s'"
  by (auto simp: process_authorize_failure_def Let_def split: link_type.splits link_state.splits
      elim!: fail_link_wf)

lemma stash_renewal_identity_frame [simp]: "link_wf (stash_renewal_identity e b s) = link_wf s"
  "ls_status (stash_renewal_identity e b s) = ls_status s" "ls_type (stash_renewal_identity e b s) = ls_type s"
  "ls_id (stash_renewal_identity e b s) = ls_id s" "ls_clock (stash_renewal_identity e b s) = ls_clock s"
  "ls_state (stash_renewal_identity e b s) = ls_state s"
  by (simp_all add: stash_renewal_identity_def Let_def split: option.split)

lemma decode_all_length: "decode_all A vs = Inr bs \<Longrightarrow> length bs = length vs"
  by (induction vs arbitrary: bs) (auto split: sum.splits)

lemma decode_blobs_nonempty: "decode_blobs A str = Inr bs \<Longrightarrow> bs \<noteq> []"
  using decode_all_length
  by (auto simp: decode_blobs_def split: option.splits json.splits if_splits sum.splits; fastforce)

lemma register_actor_wf [keeps_wf]:
  "register_actor e a bs s = Some (s', x) \<Longrightarrow> bs \<noteq> [] \<Longrightarrow> running (ls_state s) \<Longrightarrow> link_wf s \<Longrightarrow> link_wf s'"
  using link_wf_up [of s]
  by (auto simp: register_actor_def build_connect_request_def Let_def blob_namespaces_def
      split: option.splits if_splits
      intro!: link_wf_intros link_wf_set_state set_authenticated_namespaces_wf
      elim!: bind_SomeE process_authorize_response_wf)

lemma process_acquire_wf [keeps_wf]:
  "process_acquire_zpr_address_request e a b s = Some (s', x) \<Longrightarrow> link_wf s \<Longrightarrow> link_wf s'"
  using decode_blobs_nonempty [of "e_auth e" b]
  by (auto simp: process_acquire_zpr_address_request_def
      split: link_type.splits link_state.splits option.splits sum.splits if_splits
      elim!: bind_SomeE process_error_response_wf register_actor_wf)


lemma fail_activation_wf [keeps_wf]: "fail_activation e w s = Some (s', x) \<Longrightarrow> link_wf s \<Longrightarrow> link_wf s'"
  by (auto simp: fail_activation_def record_auth_failure_def elim!: fail_link_wf)

lemma after_carrier_up_wf [keeps_wf]:
  "after_carrier_up e s = Some (s', x) \<Longrightarrow> running (ls_state s) \<Longrightarrow> link_wf s \<Longrightarrow> link_wf s'"
  by (auto simp: after_carrier_up_def split: if_splits elim!: bind_SomeE fail_activation_wf run_active_wf)

lemma install_route_wf [keeps_wf]:
  "install_route e a s = Some (s', x) \<Longrightarrow> running (ls_state s) \<Longrightarrow> link_wf s \<Longrightarrow> link_wf s'"
  by (auto simp: install_route_def Let_def split: if_splits
      elim!: bind_SomeE fail_activation_wf after_carrier_up_wf)

lemma activate_address_wf [keeps_wf]:
  "activate_address e a s = Some (s', x) \<Longrightarrow> running (ls_state s) \<Longrightarrow> link_wf s \<Longrightarrow> link_wf s'"
  by (auto simp: activate_address_def Let_def split: if_splits option.splits
      elim!: bind_SomeE fail_activation_wf install_route_wf)

lemma process_grant_wf [keeps_wf]:
  "process_grant_zpr_address_request e r s = Some (s', x) \<Longrightarrow> link_wf s \<Longrightarrow> link_wf s'"
  by (auto simp: process_grant_zpr_address_request_def record_auth_failure_def Let_def
      split: link_type.splits link_state.splits sum.splits if_splits
      intro!: link_wf_set_state elim!: initiate_close_wf activate_address_wf fail_link_wf)

subsection \<open>Renewal and keep-alive\<close>

lemma finish_renewal_failure_wf [simp]: "link_wf (finish_renewal_failure r s) = link_wf s"
  by (simp add: finish_renewal_failure_def link_wf_def)

lemma set_auth_expires_wf [link_wf_intros]: "link_wf s \<Longrightarrow> link_wf (set_auth_expires g a l s)"
  by (simp add: set_auth_expires_def link_wf_def)

lemma send_renewal_credential_request_wf [link_wf_intros]:
  "link_wf s \<Longrightarrow> ls_type s = NodeToAdapter \<Longrightarrow> link_wf (send_renewal_credential_request e a s)"
  by (auto simp: send_renewal_credential_request_def stash_renewal_challenge_def Let_def split: option.split)
    (simp add: link_wf_def)

lemma take_renewal_challenge_wf:
  "take_renewal_challenge_if c s = (b, s') \<Longrightarrow> link_wf s \<Longrightarrow> link_wf s' \<and> ls_state s' = ls_state s \<and> ls_type s' = ls_type s"
  by (auto simp: take_renewal_challenge_if_def link_wf_def split: if_splits)

lemma renewal_timer_fires_wf [link_wf_intros]: "link_wf s \<Longrightarrow> link_wf (renewal_timer_fires e c u s)"
  by (auto simp: renewal_timer_fires_def split: prod.split bool.split dest!: take_renewal_challenge_wf)

lemma warn_no_agent_wf [simp]: "link_wf (warn_no_agent s) = link_wf s"
  by (simp add: warn_no_agent_def)

lemma maybe_renew_auth_wf [keeps_wf]: "maybe_renew_auth e s = Some s' \<Longrightarrow> link_wf s \<Longrightarrow> link_wf s'"
  by (auto simp: maybe_renew_auth_def Let_def split: option.splits if_splits
      intro!: link_wf_intros elim!: bind_SomeE)

lemma request_renewal_now_wf [link_wf_intros]: "link_wf s \<Longrightarrow> link_wf (snd (request_renewal_now e s))"
  by (auto simp: request_renewal_now_def Let_def intro!: link_wf_intros split: option.split)

lemma submit_renewal_reauthorize_wf [keeps_wf]:
  "submit_renewal_reauthorize e u b a s = Some s' \<Longrightarrow> link_wf s \<Longrightarrow> link_wf s'"
  by (auto simp: submit_renewal_reauthorize_def Let_def split: if_splits sum.splits
      intro!: link_wf_intros elim!: bind_SomeE)

lemma handle_renewal_reply_wf [keeps_wf]:
  "handle_renewal_reply e u i n oc a s = Some s' \<Longrightarrow> link_wf s \<Longrightarrow> link_wf s'"
  by (auto simp: handle_renewal_reply_def split: if_splits sum.splits elim!: submit_renewal_reauthorize_wf)

lemma answer_unavailable_wf [simp]: "link_wf (answer_unavailable c s) = link_wf s"
  by (simp add: answer_unavailable_def)

lemma clear_auth_agent_wf [simp]: "link_wf (snd (clear_auth_agent_if a s)) = link_wf s"
  by (simp add: clear_auth_agent_if_def)

lemma renew_with_agent_wf [simp]: "link_wf (renew_with_agent e c b s) = link_wf s"
  by (simp add: renew_with_agent_def Let_def split: option.split)

lemma process_renew_auth_request_wf [keeps_wf]:
  "process_renew_auth_request e c s = Some (s', x) \<Longrightarrow> link_wf s \<Longrightarrow> link_wf s'"
  by (auto simp: process_renew_auth_request_def Let_def split: if_splits elim!: bind_SomeE)

lemma adapter_renewal_completion_wf [simp]: "link_wf (adapter_renewal_completion e u i c b oc s) = link_wf s"
  by (simp add: adapter_renewal_completion_def Let_def split: option.split sum.split)

lemma process_renew_auth_response_wf [keeps_wf]:
  "process_renew_auth_response e c r s = Some (s', x) \<Longrightarrow> link_wf s \<Longrightarrow> link_wf s'"
  by (auto simp: process_renew_auth_response_def split: if_splits prod.splits bool.splits sum.splits
      elim!: bind_SomeE dest!: take_renewal_challenge_wf)

lemma link_wf_latency: "link_wf s \<Longrightarrow> add_sample d (ld_latency s) = Some l \<Longrightarrow> link_wf (s\<lparr>ld_latency := l\<rparr>)"
  using has_seen_add [of 100 _ "ld_latency s" d] by (fastforce simp: link_wf_def)

lemma process_keep_alive_response_wf [keeps_wf]:
  assumes "process_keep_alive_response e s = Some (s', x)" and "link_wf s" shows "link_wf s'"
proof -
  let ?s = "s\<lparr>ls_echo := None, ls_keep_alive_misses := 0, ld_echo_success := ld_echo_success s + 1\<rparr>"
  have "link_wf ?s" using assms(2) by (simp add: link_wf_def)
  then show ?thesis
    using assms link_wf_latency [of ?s]
    by (auto simp: process_keep_alive_response_def Let_def split: if_splits option.splits
        intro!: link_wf_intros elim!: bind_SomeE maybe_renew_auth_wf)
qed

lemma send_keep_alive_wf [keeps_wf]: "send_keep_alive e s = Some (s', x) \<Longrightarrow> link_wf s \<Longrightarrow> link_wf s'"
  by (auto simp: send_keep_alive_def intro!: link_wf_intros)

lemma keep_alive_timeout_wf [keeps_wf]:
  assumes "keep_alive_timeout e s = Some (s', x)" and "link_wf s" shows "link_wf s'"
proof (cases "ls_echo s")
  case None
  then show ?thesis using assms send_keep_alive_wf by (simp add: keep_alive_timeout_def)
next
  case (Some t)
  let ?s = "s\<lparr>ls_echo := None, ld_echo_timeout := ld_echo_timeout s + 1,
    ls_keep_alive_misses := ls_keep_alive_misses s + 1\<rparr>"
  have "link_wf (set_state ErrorState ?s)" using assms(2) by (simp add: link_wf_def timer_defs)
  moreover have "ls_keep_alive_misses s + 1 < 3 \<Longrightarrow> link_wf ?s" using assms(2) by (simp add: link_wf_def)
  ultimately show ?thesis
    using Some assms send_keep_alive_wf [of e ?s] initiate_close_wf [of e TR_RequestTimedOut "set_state ErrorState ?s"]
    by (auto simp: keep_alive_timeout_def fail_link_def Let_def split: if_splits)
qed

lemma process_timeout_wf [keeps_wf]: "process_timeout e c s = Some (s', x) \<Longrightarrow> link_wf s \<Longrightarrow> link_wf s'"
  by (auto simp: process_timeout_def split: if_splits link_type.splits link_state.splits
      elim!: bind_SomeE process_authentication_failure_wf fail_link_wf keep_alive_timeout_wf clean_up_wf)


section \<open>Reachable links\<close>

text \<open>
  Everything that can happen to a link: an event, and the operations that other parts of the
  process call directly or that run in the tasks which the handlers spawned.
\<close>

datatype link_op = Raise link_env link_event
  | Set_Agent nat | Clear_Agent nat | Add_Internal_Address ip
  | Expires link_env u64
  | Renew_Now link_env
  | Renewal_Timeout link_env bytes nat
  | Agent_Reply link_env nat string string "auth_failure_reason + string" "string + u64"
  | Submit link_env nat "vst_blob list" "string + u64"
  | Adapter_Reply link_env nat oidc_idp_info bytes "auth_blob option" "(auth_failure_reason + string) option"
  | Reset link_env

fun apply_op :: "link_op \<Rightarrow> link \<Rightarrow> link option" where
  "apply_op (Raise e ev) s = map_option fst (process_event e ev s)"
| "apply_op (Set_Agent a) s = Some (set_auth_agent a s)"
| "apply_op (Clear_Agent a) s = Some (snd (clear_auth_agent_if a s))"
| "apply_op (Add_Internal_Address a) s = add_internal_actor_address a s"
| "apply_op (Expires e t) s = record_auth_expires e t s"
| "apply_op (Renew_Now e) s = Some (snd (request_renewal_now e s))"
| "apply_op (Renewal_Timeout e c u) s = Some (renewal_timer_fires e c u s)"
| "apply_op (Agent_Reply e u i n outcome answer) s = handle_renewal_reply e u i n outcome answer s"
| "apply_op (Submit e u blobs answer) s = submit_renewal_reauthorize e u blobs answer s"
| "apply_op (Adapter_Reply e u idp c b outcome) s = Some (adapter_renewal_completion e u idp c b outcome s)"
| "apply_op (Reset e) s = reset_link e s"

text \<open>
  Authentication successes carry at least one blob and grants at least one address; the
  task that raises the former and the packet handler that raises the latter see to it.
\<close>

fun event_ok :: "link_event \<Rightarrow> bool" where
  "event_ok (AuthenticationSuccess blobs) \<longleftrightarrow> blobs \<noteq> []"
| "event_ok (ReceivedGrantZprAddressRequest (Inr addrs)) \<longleftrightarrow> addrs \<noteq> []"
| "event_ok _ \<longleftrightarrow> True"

lemma agent_completion_event_ok: "agent_completion e i c b k oc s = Some ev \<Longrightarrow> event_ok ev"
  by (auto simp: agent_completion_def split: if_splits option.splits sum.splits)

fun op_ok :: "link_op \<Rightarrow> bool" where
  "op_ok (Raise e ev) \<longleftrightarrow> event_ok ev"
| "op_ok _ \<longleftrightarrow> True"

inductive link_step :: "link \<Rightarrow> link \<Rightarrow> bool" where
  link_step: "op_ok op \<Longrightarrow> apply_op op s = Some t \<Longrightarrow> link_step s t"

inductive_cases link_stepE: "link_step s t"

definition initial_link :: "link \<Rightarrow> bool" where
  "initial_link s \<longleftrightarrow> (\<exists>i u t pool. s = new_link i u t pool \<and> (\<forall>p. pool = Some p \<longrightarrow> pool_ok p))"

lemma process_event_wf:
  assumes "process_event e ev s = Some (s', r)" and "event_ok ev" and "link_wf s"
  shows "link_wf s'"
  using assms
  by (cases ev) (auto simp: process_assigned_aaa_def intro!: link_wf_intros elim!: keeps_wf)

lemma apply_op_wf: "apply_op op s = Some t \<Longrightarrow> op_ok op \<Longrightarrow> link_wf s \<Longrightarrow> link_wf t"
  using process_event_wf
  by (cases op) (auto simp: set_auth_agent_def record_auth_expires_def add_internal_actor_address_def split: if_splits
      intro!: link_wf_intros elim!: bind_SomeE elim: keeps_wf)

interpretation link_system: invariant_system initial_link link_step link_wf
  using link_wf_new apply_op_wf by unfold_locales (auto simp: initial_link_def elim!: link_stepE)

end
