(* ===== verification/Link_Diagram.thy ===== *)
theory Link_Diagram
  imports Link_Invariant
begin

text \<open>
  The transition diagram of the link state machine as an abstract machine, and that the
  handlers refine it: whatever a handler does, the state changes along an edge of the
  diagram, and every change of state moves the logical clock.
\<close>

section \<open>The diagram\<close>

definition closing_states :: "link_type \<Rightarrow> terminate_reason \<Rightarrow> link_state set" where
  "closing_states ty reason = (if ty = Internal then {}
     else insert Closing (if ty = NodeToAdapter \<and> reason = TR_Shutdown then {Disconnecting reason} else {}))"

definition failing_states :: "link_type \<Rightarrow> link_state set" where
  "failing_states ty = (if ty = Internal then {ErrorState} else {Closing})"

definition init_auth_states :: "link_state set" where
  "init_auth_states = {WaitForUserAuth, RegisterAA, Closing}"

fun diagram :: "link_type \<Rightarrow> link_event \<Rightarrow> link_state \<Rightarrow> link_state set" where
  "diagram ty Start st = (if st = Inactive then (if ty = NodeToNode then {ErrorState} else {Keying}) else {})"
| "diagram ty KeyingDone st = (if st = Keying then {Helloing} else {})"
| "diagram ty ReceivedHelloRequest st = (if st = Helloing
     then (case ty of NodeToNode \<Rightarrow> {Active} | NodeToAdapter \<Rightarrow> {WaitForAcquireZprAddress} | _ \<Rightarrow> {}) else {})"
| "diagram ty (ReceivedHelloResponse code a i) st = (if code = RC_Other then closing_states ty TR_Other
     else if st = Helloing then (case ty of NodeToNode \<Rightarrow> {Active}
       | AdapterToNode \<Rightarrow> insert WaitForInitAuth init_auth_states | _ \<Rightarrow> {}) else {})"
| "diagram ty (ReceivedInitAuth b c) st =
     (if ty = AdapterToNode \<and> st = WaitForInitAuth then init_auth_states else {})"
| "diagram ty ReceivedInitAuthTimeout st =
     (if ty = NodeToAdapter \<and> st = WaitForAcquireZprAddress then {Closing} else {})"
| "diagram ty (ReceivedAcquireZprAddressRequest a b) st =
     (if ty = NodeToAdapter \<and> st = WaitForAcquireZprAddress then {RegisterAA, Active, Closing} else {})"
| "diagram ty (ReceivedGrantZprAddressRequest r) st =
     (if ty = AdapterToNode \<and> st = RegisterAA then {Active, Closing} else {})"
| "diagram ty (AuthenticationFailure f) st = failing_states ty"
| "diagram ty (AuthenticationSuccess b) st = (if st = WaitForUserAuth then {RegisterAA} else {})"
| "diagram ty (ReceivedAuthorizeResponse a) st = (if ty = NodeToAdapter \<and> st = RegisterAA then {Active} else {})"
| "diagram ty (ReceivedAuthorizeFailure c m) st = (if ty = NodeToAdapter \<and> st = RegisterAA then {Closing} else {})"
| "diagram ty (ReceivedTerminateLink r) st = {Closing}"
| "diagram ty ReceivedDisconnectAck st = (case st of Disconnecting r \<Rightarrow>
     (if ty = NodeToAdapter then {Closing} else {}) | _ \<Rightarrow> {})"
| "diagram ty (Close r) st = closing_states ty r"
| "diagram ty CloseDone st = (if st = Closing \<and> ty \<noteq> NodeToAdapter then {Inactive} else {})"
| "diagram ty ErrorEvent st = closing_states ty TR_Other"
| "diagram ty (Timeout c) st =
     (if st = Active then failing_states ty
      else if ty = AdapterToNode \<and> st \<in> {WaitForUserAuth, RegisterAA, Helloing} then {Closing}
      else if ty = NodeToAdapter \<and> st = Keying then {Closing} else {})"
| "diagram ty _ st = {}"

section \<open>Moves\<close>

definition moved :: "link_state set \<Rightarrow> link \<Rightarrow> link \<Rightarrow> bool" where
  "moved X s s' \<longleftrightarrow> ls_type s' = ls_type s \<and> ls_id s' = ls_id s \<and> ls_uid s' = ls_uid s \<and>
     unat (ls_clock s' - ls_clock s) \<le> 8 \<and> (ls_clock s' = ls_clock s \<longrightarrow> ls_state s' = ls_state s) \<and>
     (ls_state s' = ls_state s \<or> ls_state s' \<in> X)"

lemma moved_refl [simp]: "moved X s s"
  by (simp add: moved_def)

lemma continue_close_result:
  "continue_close r s = Some (s', x) \<Longrightarrow> ls_type s' = ls_type s \<and> ls_id s' = ls_id s \<and> ls_uid s' = ls_uid s \<and>
     ls_clock s' = ls_clock s + 2 \<and> ls_state s' = Closing"
  by (auto simp: continue_close_def Let_def)

lemma initiate_close_result:
  "initiate_close e r s = Some (s', x) \<Longrightarrow>
     ls_type s' = ls_type s \<and> ls_id s' = ls_id s \<and> ls_uid s' = ls_uid s \<and>
     (if ls_type s = Internal then s' = s
      else ls_clock s' = ls_clock s + 2 \<and> ls_state s' = Closing \<or>
        ls_type s = NodeToAdapter \<and> r = TR_Shutdown \<and> ls_clock s' = ls_clock s + 1 \<and> ls_state s' = Disconnecting r)"
  by (auto simp: initiate_close_def maybe_disconnect_visa_service_client_def record_auth_failure_def Let_def
      split: if_splits dest!: continue_close_result)

lemma fail_link_result:
  "fail_link e r s = Some (s', x) \<Longrightarrow> r \<noteq> TR_Shutdown \<Longrightarrow>
     ls_type s' = ls_type s \<and> ls_id s' = ls_id s \<and> ls_uid s' = ls_uid s \<and>
     (if ls_type s = Internal then ls_clock s' = ls_clock s + 1 \<and> ls_state s' = ErrorState
      else ls_clock s' = ls_clock s + 3 \<and> ls_state s' = Closing)"
  by (auto simp: fail_link_def dest!: initiate_close_result split: if_splits)

lemma process_error_response_result:
  "process_error_response e s = Some (s', x) \<Longrightarrow>
     ls_type s' = ls_type s \<and> ls_id s' = ls_id s \<and> ls_uid s' = ls_uid s \<and>
     (if ls_type s = Internal then ls_clock s' = ls_clock s \<and> ls_state s' = ls_state s
      else ls_clock s' = ls_clock s + 2 \<and> ls_state s' = Closing)"
  by (auto simp: process_error_response_def dest!: initiate_close_result split: if_splits)

lemma process_authentication_failure_result:
  "process_authentication_failure e f s = Some (s', x) \<Longrightarrow>
     ls_type s' = ls_type s \<and> ls_id s' = ls_id s \<and> ls_uid s' = ls_uid s \<and>
     (if ls_type s = Internal then ls_clock s' = ls_clock s + 1 \<and> ls_state s' = ErrorState
      else ls_clock s' = ls_clock s + 3 \<and> ls_state s' = Closing)"
  by (auto simp: process_authentication_failure_def record_auth_failure_def dest!: fail_link_result split: if_splits)

lemmas close_results = initiate_close_result fail_link_result process_error_response_result
  process_authentication_failure_result

lemma clean_up_frame:
  "clean_up_link_state e s = Some s' \<Longrightarrow> ls_type s' = ls_type s \<and> ls_id s' = ls_id s \<and> ls_uid s' = ls_uid s \<and>
     ls_clock s' = ls_clock s \<and> ls_state s' = ls_state s"
  by (auto simp: clean_up_link_state_def Let_def split: if_splits link_type.splits elim!: bind_SomeE)

lemma process_start_moved: "process_start e s = Some (s', x) \<Longrightarrow> moved (diagram (ls_type s) Start (ls_state s)) s s'"
  by (auto simp: process_start_def moved_def Let_def split: if_splits link_type.splits elim!: bind_SomeE)

lemma process_keying_done_moved:
  "process_keying_done e s = Some (s', x) \<Longrightarrow> moved (diagram (ls_type s) KeyingDone (ls_state s)) s s'"
  by (auto simp: process_keying_done_def moved_def Let_def split: if_splits option.splits)

lemma allocate_aaa_frame:
  "allocate_aaa e s = Some (a, s') \<Longrightarrow> ls_type s' = ls_type s \<and> ls_id s' = ls_id s \<and> ls_uid s' = ls_uid s \<and>
     ls_clock s' = ls_clock s \<and> ls_state s' = ls_state s"
  by (auto simp: allocate_aaa_def process_assigned_aaa_def split: option.splits elim!: bind_SomeE)

lemma send_init_kept' [simp]: "ls_id (send_init_authentication_request e s) = ls_id s"
  "ls_uid (send_init_authentication_request e s) = ls_uid s"
  by (simp_all add: send_init_authentication_request_def split: option.split)

lemma process_hello_request_moved:
  "process_hello_request e s = Some (s', x) \<Longrightarrow> moved (diagram (ls_type s) ReceivedHelloRequest (ls_state s)) s s'"
  by (auto simp: process_hello_request_def moved_def Let_def split: link_type.splits link_state.splits
      elim!: bind_SomeE dest!: allocate_aaa_frame)


text \<open>
  A stowed or direct init-auth on the adapter: at most five ticks of the clock, into one of
  the authentication states or out through the close.
\<close>

definition init_auth_moved :: "link \<Rightarrow> link \<Rightarrow> bool" where
  "init_auth_moved s s' \<longleftrightarrow> ls_type s' = ls_type s \<and> ls_id s' = ls_id s \<and> ls_uid s' = ls_uid s \<and>
     (s' = s \<or> (\<exists>k. ls_clock s' = ls_clock s + k \<and> k \<in> {2, 3, 5}) \<and> ls_state s' \<in> init_auth_states)"

lemma set_authenticated_namespaces_uid [simp]: "ls_uid (set_authenticated_namespaces ns s) = ls_uid s"
  by (simp add: set_authenticated_namespaces_def)

lemma bootstrap_auth_result:
  "bootstrap_auth e b c s = Some (s', x) \<Longrightarrow> ls_type s = AdapterToNode \<Longrightarrow> init_auth_moved s s'"
  by (auto simp: bootstrap_auth_def init_auth_moved_def init_auth_states_def Let_def
      split: bool.splits option.splits sum.splits dest!: close_results)

lemma oidc_auth_result:
  "oidc_auth e a i c s = Some (s', x) \<Longrightarrow> ls_type s = AdapterToNode \<Longrightarrow> init_auth_moved s s'"
  by (auto simp: oidc_auth_def do_oidc_authenticate_def init_auth_moved_def init_auth_states_def Let_def
      split: sum.splits if_splits elim!: bind_SomeE dest!: close_results)

lemma process_init_auth_result:
  "process_init_auth e b c s = Some (s', x) \<Longrightarrow> ls_type s = AdapterToNode \<Longrightarrow> ls_state s = WaitForInitAuth \<Longrightarrow>
     init_auth_moved s s'"
  by (auto simp: process_init_auth_def Let_def split: option.splits if_splits
      intro: bootstrap_auth_result oidc_auth_result)
    (auto simp: init_auth_moved_def init_auth_states_def dest!: close_results)

lemma init_auth_moved_moved: "init_auth_moved s s' \<Longrightarrow> moved init_auth_states s s'"
  by (auto simp: init_auth_moved_def moved_def)

lemma process_init_auth_moved:
  assumes "process_init_auth e b c s = Some (s', x)"
  shows "moved (diagram (ls_type s) (ReceivedInitAuth b c) (ls_state s)) s s'"
proof (cases "ls_type s = AdapterToNode \<and> ls_state s = WaitForInitAuth")
  case True
  then show ?thesis
    using process_init_auth_result [OF assms] by (simp add: init_auth_moved_moved)
next
  case False
  then show ?thesis
    using assms by (auto simp: process_init_auth_def moved_def Let_def split: link_type.splits link_state.splits)
qed

lemma moved_after_tick:
  assumes "init_auth_moved t s'" and "ls_clock t = ls_clock s + 1" and "ls_state t = WaitForInitAuth"
    and "ls_type t = ls_type s" "ls_id t = ls_id s" "ls_uid t = ls_uid s"
  shows "moved (insert WaitForInitAuth init_auth_states) s s'"
  using assms by (auto simp: init_auth_moved_def moved_def)

lemma process_hello_response_moved:
  assumes "process_hello_response e c a i s = Some (s', x)"
  shows "moved (diagram (ls_type s) (ReceivedHelloResponse c a i) (ls_state s)) s s'"
proof (cases "c \<noteq> RC_Other \<and> ls_type s = AdapterToNode \<and> ls_state s = Helloing")
  case True
  let ?t = "(set_state WaitForInitAuth (s\<lparr>ld_oidc_idps := i, ld_aaa_address := a\<rparr>))\<lparr>ls_stowed_init_auth := None\<rparr>"
  have "moved (insert WaitForInitAuth init_auth_states) s s'"
  proof (cases "ls_stowed_init_auth s")
    case None
    then show ?thesis using assms True by (auto simp: process_hello_response_def moved_def Let_def)
  next
    case (Some bc)
    then obtain b ch where "process_init_auth e b ch ?t = Some (s', x)"
      using assms True by (cases bc) (auto simp: process_hello_response_def Let_def)
    then have "init_auth_moved ?t s'" using True by (auto intro: process_init_auth_result)
    then show ?thesis by (rule moved_after_tick) simp_all
  qed
  then show ?thesis using True by simp
next
  case False
  then show ?thesis
    using assms by (auto simp: process_hello_response_def moved_def closing_states_def Let_def
        split: if_splits link_type.splits link_state.splits dest!: process_error_response_result)
qed

lemma run_active_result:
  "run_active s = Some (s', x) \<Longrightarrow> ls_type s' = ls_type s \<and> ls_id s' = ls_id s \<and> ls_uid s' = ls_uid s \<and>
     ls_clock s' = ls_clock s + 2 \<and> ls_state s' = Active"
  by (auto simp: run_active_def Let_def)

lemma process_authorize_response_moved:
  "process_authorize_response a s = Some (s', x) \<Longrightarrow> moved (diagram (ls_type s) (ReceivedAuthorizeResponse a) (ls_state s)) s s'"
  by (auto simp: process_authorize_response_def moved_def Let_def split: link_type.splits link_state.splits
      dest!: run_active_result)

lemma process_authorize_failure_moved:
  "process_authorize_failure e c s = Some (s', x) \<Longrightarrow> moved (diagram (ls_type s) (ReceivedAuthorizeFailure c m) (ls_state s)) s s'"
  by (auto simp: process_authorize_failure_def moved_def Let_def split: link_type.splits link_state.splits
      dest!: close_results)

lemma stash_renewal_identity_uid [simp]: "ls_uid (stash_renewal_identity e b s) = ls_uid s"
  by (simp add: stash_renewal_identity_def Let_def split: option.split)

lemma register_actor_result:
  assumes "register_actor e a bs s = Some (s', x)"
  shows "ls_type s' = ls_type s \<and> ls_id s' = ls_id s \<and> ls_uid s' = ls_uid s \<and>
    (ls_clock s' = ls_clock s + 1 \<and> ls_state s' = RegisterAA \<or> ls_clock s' = ls_clock s + 3 \<and> ls_state s' = Active)"
  using assms
  by (auto simp: register_actor_def build_connect_request_def process_authorize_response_def Let_def
      split: option.splits if_splits link_type.splits elim!: bind_SomeE dest!: run_active_result)

lemma process_acquire_moved:
  "process_acquire_zpr_address_request e a b s = Some (s', x) \<Longrightarrow>
     moved (diagram (ls_type s) (ReceivedAcquireZprAddressRequest a b) (ls_state s)) s s'"
  by (auto simp: process_acquire_zpr_address_request_def moved_def
      split: link_type.splits link_state.splits option.splits sum.splits if_splits
      elim!: bind_SomeE dest!: process_error_response_result register_actor_result)

lemma fail_activation_result:
  "fail_activation e w s = Some (s', x) \<Longrightarrow> ls_type s = AdapterToNode \<Longrightarrow>
     ls_type s' = ls_type s \<and> ls_id s' = ls_id s \<and> ls_uid s' = ls_uid s \<and>
     ls_clock s' = ls_clock s + 3 \<and> ls_state s' = Closing"
  by (auto simp: fail_activation_def record_auth_failure_def dest!: fail_link_result)

lemma activate_address_result:
  "activate_address e a s = Some (s', x) \<Longrightarrow> ls_type s = AdapterToNode \<Longrightarrow>
     ls_type s' = ls_type s \<and> ls_id s' = ls_id s \<and> ls_uid s' = ls_uid s \<and>
     (ls_clock s' = ls_clock s + 3 \<and> ls_state s' = Closing \<or> ls_clock s' = ls_clock s + 2 \<and> ls_state s' = Active)"
  by (auto simp: activate_address_def install_route_def after_carrier_up_def Let_def
      split: if_splits option.splits elim!: bind_SomeE dest!: fail_activation_result run_active_result)

lemma process_grant_moved:
  "process_grant_zpr_address_request e r s = Some (s', x) \<Longrightarrow>
     moved (diagram (ls_type s) (ReceivedGrantZprAddressRequest r) (ls_state s)) s s'"
  by (auto simp: process_grant_zpr_address_request_def record_auth_failure_def moved_def Let_def
      split: link_type.splits link_state.splits sum.splits if_splits
      dest!: activate_address_result close_results)


lemma small_handlers_moved:
  "process_assigned_aaa a s = Some (s', x) \<Longrightarrow> moved {} s s'"
  "process_init_auth_ack s = Some (s', x) \<Longrightarrow> moved {} s s'"
  "process_init_auth_timeout e s = Some (s', x) \<Longrightarrow> moved (diagram (ls_type s) ReceivedInitAuthTimeout (ls_state s)) s s'"
  "process_authentication_failure e f s = Some (s', x) \<Longrightarrow> moved (diagram (ls_type s) (AuthenticationFailure f) (ls_state s)) s s'"
  "process_authentication_success e b s = Some (s', x) \<Longrightarrow> moved (diagram (ls_type s) (AuthenticationSuccess b) (ls_state s)) s s'"
  "process_error_response e s = Some (s', x) \<Longrightarrow> moved (diagram (ls_type s) ErrorEvent (ls_state s)) s s'"
  "initiate_close e r s = Some (s', x) \<Longrightarrow> moved (diagram (ls_type s) (Close r) (ls_state s)) s s'"
  "process_disconnect_ack s = Some (s', x) \<Longrightarrow> moved (diagram (ls_type s) ReceivedDisconnectAck (ls_state s)) s s'"
  by (auto simp: process_assigned_aaa_def process_init_auth_ack_def process_init_auth_timeout_def
      process_authentication_success_def process_disconnect_ack_def moved_def failing_states_def closing_states_def Let_def
      split: link_type.splits link_state.splits if_splits dest!: close_results continue_close_result)

lemma termination_moved:
  "process_terminate_link e s = Some (s', x) \<Longrightarrow> moved {Closing} s s'"
  "process_terminate_ack e s = Some (s', x) \<Longrightarrow> moved {} s s'"
  by (auto simp: process_terminate_link_def process_terminate_ack_def cancel_timeout_def moved_def
      split: if_splits elim!: bind_SomeE dest!: clean_up_frame)

lemma complete_close_moved: "moved (diagram (ls_type s) CloseDone (ls_state s)) s (complete_close e s)"
  by (auto simp: complete_close_def moved_def Let_def)

lemma send_renewal_frame [simp]:
  "ls_state (send_renewal_credential_request e a s) = ls_state s"
  "ls_type (send_renewal_credential_request e a s) = ls_type s"
  "ls_id (send_renewal_credential_request e a s) = ls_id s"
  "ls_uid (send_renewal_credential_request e a s) = ls_uid s"
  "ls_clock (send_renewal_credential_request e a s) = ls_clock s"
  by (simp_all add: send_renewal_credential_request_def finish_renewal_failure_def stash_renewal_challenge_def
      Let_def split: option.split)

lemma maybe_renew_auth_frame:
  "maybe_renew_auth e s = Some s' \<Longrightarrow> ls_type s' = ls_type s \<and> ls_id s' = ls_id s \<and> ls_uid s' = ls_uid s \<and>
     ls_clock s' = ls_clock s \<and> ls_state s' = ls_state s"
  by (auto simp: maybe_renew_auth_def warn_no_agent_def Let_def split: option.splits if_splits elim!: bind_SomeE)

lemma process_keep_alive_response_moved: "process_keep_alive_response e s = Some (s', x) \<Longrightarrow> moved {} s s'"
  by (auto simp: process_keep_alive_response_def moved_def Let_def split: if_splits option.splits
      elim!: bind_SomeE dest!: maybe_renew_auth_frame)

lemma keep_alive_timeout_result:
  "keep_alive_timeout e s = Some (s', x) \<Longrightarrow> ls_state s = Active \<Longrightarrow> moved (failing_states (ls_type s)) s s'"
  by (auto simp: keep_alive_timeout_def send_keep_alive_def moved_def failing_states_def Let_def
      split: option.splits if_splits dest!: fail_link_result)

lemma process_timeout_moved:
  assumes "process_timeout e c s = Some (s', x)"
  shows "moved (diagram (ls_type s) (Timeout c) (ls_state s)) s s'"
proof (cases "c = ls_clock s \<and> ls_state s = Active")
  case True
  then show ?thesis
    using assms keep_alive_timeout_result [of e s] by (auto simp: process_timeout_def split: link_type.splits)
next
  case False
  then show ?thesis
    using assms by (auto simp: process_timeout_def moved_def split: if_splits link_type.splits link_state.splits
        elim!: bind_SomeE dest!: close_results clean_up_frame)
qed

lemma renewal_handlers_moved:
  "process_renew_auth_request e p s = Some (s', x) \<Longrightarrow> moved {} s s'"
  "process_renew_auth_response e ch r s = Some (s', x) \<Longrightarrow> moved {} s s'"
  by (auto simp: process_renew_auth_request_def process_renew_auth_response_def renew_with_agent_def
      answer_unavailable_def clear_auth_agent_if_def take_renewal_challenge_if_def finish_renewal_failure_def
      moved_def Let_def split: if_splits option.splits sum.splits prod.splits bool.splits elim!: bind_SomeE)

lemma process_event_moved:
  "process_event e ev s = Some (s', r) \<Longrightarrow> moved (diagram (ls_type s) ev (ls_state s)) s s'"
  by (cases ev)
    (auto simp del: diagram.simps intro: process_start_moved process_keying_done_moved process_hello_request_moved
      process_hello_response_moved process_init_auth_moved process_acquire_moved process_grant_moved
      process_authorize_response_moved process_authorize_failure_moved small_handlers_moved
      complete_close_moved process_timeout_moved
      simp: small_handlers_moved(1,2) termination_moved process_keep_alive_response_moved renewal_handlers_moved
        diagram.simps(13,19-))

end
