(* ===== verification/Link_Safety.thy ===== *)
theory Link_Safety
  imports Link_Invariant
begin

text \<open>
  No handler of the link state machine panics on a reachable link, given what the rest of
  the process provides.
\<close>

section \<open>No handler panics\<close>

text \<open>
  What the process provides: loaded keys, a key manager that takes the link, a TUN device
  whose carrier can be switched.
\<close>

definition env_ok :: "link_env \<Rightarrow> bool" where
  "env_ok e \<longleftrightarrow> e_keys_loaded e \<and> e_km_accepts e \<and> e_tun_carrier_ok e"

text \<open>
  The creation time of a challenge, if it is one, leaves room for the longest window; a
  pool that is not full.
\<close>

definition challenge_time_ok :: "auth_lib \<Rightarrow> string \<Rightarrow> bool" where
  "challenge_time_ok A str \<longleftrightarrow> (case b64_decode A str of
     Some b \<Rightarrow> unat (get64 (drop 8 b)) + 330 < 2 ^ 64 | None \<Rightarrow> True)"

definition blob_times_ok :: "auth_lib \<Rightarrow> string \<Rightarrow> bool" where
  "blob_times_ok A str \<longleftrightarrow> (case decode_blobs A str of
     Inr blobs \<Rightarrow> list_all (\<lambda>b. challenge_time_ok A (blob_challenge b)) blobs | Inl _ \<Rightarrow> True)"

definition pool_has_room :: "link \<Rightarrow> bool" where
  "pool_has_room s \<longleftrightarrow> (case lw_pool s of Some p \<Rightarrow> card (ap_active p) < 2 ^ 40 - 1 | None \<Rightarrow> True)"

fun event_safe :: "link_env \<Rightarrow> link_event \<Rightarrow> link \<Rightarrow> bool" where
  "event_safe e Start s \<longleftrightarrow> ls_id s \<noteq> 0"
| "event_safe e ReceivedHelloRequest s \<longleftrightarrow> pool_has_room s"
| "event_safe e (ReceivedAcquireZprAddressRequest addrs blob) s \<longleftrightarrow> blob_times_ok (e_auth e) blob"
| "event_safe e (ReceivedRenewAuthResponse c (Inr blob)) s \<longleftrightarrow> blob_times_ok (e_auth e) blob"
| "event_safe e ev s \<longleftrightarrow> event_ok ev"

lemma verify_challenge_bytes_total:
  "unat (get64 (drop 8 b)) + 330 < 2 ^ 64 \<Longrightarrow> unat m \<le> 330 \<Longrightarrow> verify_challenge_bytes A now b key m \<noteq> None"
  by (simp add: verify_challenge_bytes_def checked_add_u64_def payload_of_bytes_def Let_def)

lemma check_blob_total:
  "challenge_time_ok (e_auth e) (ss_challenge ss) \<Longrightarrow> unat m \<le> 330 \<Longrightarrow> check_self_signed_blob e ss m \<noteq> None"
  "challenge_time_ok (e_auth e) (oidc_challenge oidc) \<Longrightarrow> check_oidc_blob e oidc \<noteq> None"
  using verify_challenge_bytes_total
  by (auto simp: check_self_signed_blob_def verify_blob_challenge_def check_oidc_blob_def challenge_time_ok_def
      verify_oidc_challenge_def bind_None_iff split: option.splits sum.splits simp del: not_None_eq; fastforce)+

lemma check_blobs_total:
  "list_all (\<lambda>b. challenge_time_ok (e_auth e) (blob_challenge b)) bs \<Longrightarrow> check_blobs e bs \<noteq> None"
  by (induction bs) (auto simp: blob_challenge_def bind_None_iff check_blob_total simp del: not_None_eq
      split: auth_blob.splits)

lemma check_renewal_blobs_total:
  "list_all (\<lambda>b. challenge_time_ok (e_auth e) (blob_challenge b)) bs \<Longrightarrow> check_renewal_blobs e c bs \<noteq> None"
  by (induction bs) (auto simp: blob_challenge_def bind_None_iff check_blob_total Let_def simp del: not_None_eq
      split: auth_blob.splits)


named_theorems never_panics

lemma closing_total [never_panics]:
  "continue_close r s \<noteq> None" "maybe_disconnect_visa_service_client e r s \<noteq> None"
  "initiate_close e r s \<noteq> None" "fail_link e r s \<noteq> None" "process_error_response e s \<noteq> None"
  "process_authentication_failure e f s \<noteq> None" "run_active s \<noteq> None"
  by (simp_all add: close_defs run_active_def Let_def)

lemma process_disconnect_ack_total [never_panics]: "process_disconnect_ack s \<noteq> None"
  by (simp add: process_disconnect_ack_def closing_total del: not_None_eq split: link_type.split link_state.split)

lemma cleanup_total [never_panics]:
  assumes "env_ok e"
  shows "clean_up_link_state e s \<noteq> None" "process_terminate_ack e s \<noteq> None" "process_terminate_link e s \<noteq> None"
  using clean_up_total [of e] assms
  by (auto simp: env_ok_def process_terminate_ack_def process_terminate_link_def bind_None_iff; metis)+

lemma process_start_total [never_panics]: "env_ok e \<Longrightarrow> ls_id s \<noteq> 0 \<Longrightarrow> process_start e s \<noteq> None"
  by (simp add: process_start_def env_ok_def Let_def split: link_type.split)

lemma process_keying_done_total [never_panics]: "process_keying_done e s \<noteq> None"
  by (simp add: process_keying_done_def Let_def split: option.split)

lemma allocate_aaa_total:
  assumes "pool_has_room s" shows "allocate_aaa e s \<noteq> None"
proof (cases "lw_pool s")
  case (Some p)
  then have "card (ap_active p) < 2 ^ 40 - 1" using assms by (simp only: pool_has_room_def option.case)
  then obtain a p' where "get_aaa_address (e_random e) p = Some (a, p')"
    using get_aaa_address_ends by blast
  then show ?thesis using Some by (simp add: allocate_aaa_def process_assigned_aaa_def)
qed (simp add: allocate_aaa_def)

lemma process_hello_request_total [never_panics]:
  "pool_has_room s \<Longrightarrow> process_hello_request e s \<noteq> None"
  using allocate_aaa_total [of s e]
  by (auto simp: process_hello_request_def bind_None_iff Let_def split: link_type.split link_state.split)

lemma process_init_auth_total [never_panics]: "process_init_auth e b c s \<noteq> None"
  by (auto simp: process_init_auth_def bootstrap_auth_def oidc_auth_def do_oidc_authenticate_def Let_def
      bind_None_iff never_panics simp del: not_None_eq
      split: link_type.splits link_state.splits option.splits bool.splits sum.splits)

lemma process_hello_response_total [never_panics]: "process_hello_response e c a i s \<noteq> None"
  by (auto simp: process_hello_response_def Let_def never_panics simp del: not_None_eq
      split: link_type.splits link_state.splits option.splits)

lemma auth_steps_total [never_panics]:
  "process_authentication_success e b s \<noteq> None" "process_init_auth_ack s \<noteq> None"
  "process_init_auth_timeout e s \<noteq> None" "process_authorize_response a s \<noteq> None"
  "process_authorize_failure e c s \<noteq> None" "process_assigned_aaa a s \<noteq> None"
  by (auto simp: process_authentication_success_def process_init_auth_ack_def process_init_auth_timeout_def
      process_authorize_response_def process_authorize_failure_def process_assigned_aaa_def Let_def
      closing_total simp del: not_None_eq split: link_type.splits link_state.splits)

lemma register_actor_total: "register_actor e a bs s \<noteq> None"
  by (auto simp: register_actor_def build_connect_request_def Let_def bind_None_iff never_panics
      simp del: not_None_eq)

lemma process_acquire_total [never_panics]:
  "blob_times_ok (e_auth e) b \<Longrightarrow> process_acquire_zpr_address_request e a b s \<noteq> None"
  using check_blobs_total [of e]
  by (auto simp: process_acquire_zpr_address_request_def blob_times_ok_def bind_None_iff closing_total
      register_actor_total simp del: not_None_eq
      split: link_type.splits link_state.splits option.splits sum.splits)

lemma process_grant_total [never_panics]:
  "env_ok e \<Longrightarrow> event_ok (ReceivedGrantZprAddressRequest r) \<Longrightarrow> process_grant_zpr_address_request e r s \<noteq> None"
  by (cases r) (auto simp: process_grant_zpr_address_request_def activate_address_def install_route_def
      after_carrier_up_def fail_activation_def env_ok_def Let_def closing_total simp del: not_None_eq
      split: link_type.splits link_state.splits)

lemma process_renew_auth_request_total [never_panics]:
  assumes "link_wf s" shows "process_renew_auth_request e c s \<noteq> None"
proof -
  have "Device \<in> recorded_namespaces s \<or> User \<in> recorded_namespaces s"
  proof -
    have "ld_namespaces s \<noteq> Some {}" using assms by (simp add: link_wf_def)
    then show ?thesis
      by (cases "ld_namespaces s") (auto simp: recorded_namespaces_def, metis all_not_in_conv auth_namespace.exhaust)
  qed
  moreover have "recorded_namespaces (emit a (s\<lparr>ld_adapter_renewal_task := b\<rparr>)) = recorded_namespaces s" for a b
    by (simp add: recorded_namespaces_def emit_def)
  ultimately show ?thesis
    by (auto simp: process_renew_auth_request_def bind_None_iff Let_def)
qed

lemma process_renew_auth_response_total [never_panics]:
  "(\<forall>b. r = Inr b \<longrightarrow> blob_times_ok (e_auth e) b) \<Longrightarrow> process_renew_auth_response e c r s \<noteq> None"
  using check_renewal_blobs_total [of e]
  by (auto simp: process_renew_auth_response_def check_renewal_answer_def blob_times_ok_def bind_None_iff Let_def
      simp del: not_None_eq split: prod.splits bool.splits sum.splits option.splits)

lemma maybe_renew_auth_total: "link_wf s \<Longrightarrow> maybe_renew_auth e s \<noteq> None"
  by (auto simp: maybe_renew_auth_def link_wf_def bind_None_iff Let_def split: option.splits)

lemma process_keep_alive_response_total [never_panics]:
  assumes "link_wf s" shows "process_keep_alive_response e s \<noteq> None"
proof -
  let ?s = "s\<lparr>ls_echo := None, ls_keep_alive_misses := 0, ld_echo_success := ld_echo_success s + 1\<rparr>"
  have wf: "link_wf ?s" using assms by (simp add: link_wf_def)
  then have "add_sample d (ld_latency ?s) \<noteq> None" for d
    using has_seen_add [of 100 _ "ld_latency ?s" d] by (fastforce simp: link_wf_def)
  moreover have "maybe_renew_auth e (set_timeout d (?s\<lparr>ld_latency := l\<rparr>)) \<noteq> None"
    if "add_sample x (ld_latency ?s) = Some l" for d x l
    by (rule maybe_renew_auth_total) (intro link_wf_set_timeout link_wf_latency [OF wf that])
  ultimately show ?thesis
    by (auto simp: process_keep_alive_response_def Let_def bind_None_iff simp del: not_None_eq split: option.splits)
qed

lemma process_timeout_total [never_panics]: "env_ok e \<Longrightarrow> process_timeout e c s \<noteq> None"
  by (auto simp: process_timeout_def keep_alive_timeout_def send_keep_alive_def Let_def bind_None_iff
      never_panics simp del: not_None_eq split: link_type.splits link_state.splits option.splits)




text \<open>An adapter whose link has just been started, in an ordinary environment.\<close>

definition demo_env :: link_env where
  "demo_env = \<lparr>e_auth = demo_auth, e_now = 1000000000000, e_random = replicate 8 7,
     e_peer = Some \<lparr>pv_auth_key = replicate 32 1, pv_a2a_dh_pubkey = None, pv_association = Some None\<rparr>,
     e_vs_link = None, e_subject_der = (\<lambda>_. None), e_visa_service_dn = [1], e_ip_to_string = (\<lambda>_. []),
     e_ip_to_std = (\<lambda>a. a), e_auto_connect = False, e_renewal_lead = secs 300,
     e_bootstrap = Some \<lparr>bs_pkey = [1], bs_cn = ''adapter''\<rparr>,
     e_addr_demand = [], e_local_zpr_addrs = [], e_dock_addr = replicate 16 0, e_vsconn = True,
     e_auth_services = None, e_agent_open = (\<lambda>_. True), e_keys_loaded = True, e_km_accepts = True,
     e_tun_add_address_ok = True, e_route_conflict = Inr False, e_route_conflict_after = Inr False,
     e_tun_add_route_ok = True, e_tun_carrier_ok = True\<rparr>"

definition demo_link :: link where
  "demo_link = new_link 1 1 AdapterToNode None"

definition demo_keying :: link where
  "demo_keying = emit Km_Add_Adapter_Link (emit Reset_Zdpr_Session
     ((set_state Keying (demo_link\<lparr>ls_status := Up\<rparr>))\<lparr>ld_last_auth_failure := None\<rparr>))"

lemma demo_start: "apply_op (Raise demo_env Start) demo_link = Some demo_keying"
  by (simp add: process_start_def demo_link_def new_link_def demo_env_def demo_keying_def)


end
