(* ===== verification/Link_Guarantees.thy ===== *)
theory Link_Guarantees
  imports Link_Diagram Link_Safety
begin

text \<open>
  What the link state machine guarantees over whole runs: it follows its diagram, timers
  and logins of an earlier state have no effect, and a node makes an adapter's link ready
  only after it has verified the adapter's blobs.
\<close>

section \<open>Runs\<close>

fun op_targets :: "link_op \<Rightarrow> link \<Rightarrow> link_state set" where
  "op_targets (Raise e ev) s = diagram (ls_type s) ev (ls_state s)"
| "op_targets (Reset e) s = {Resetting}"
| "op_targets _ s = {}"

lemma apply_op_moved: "apply_op op s = Some t \<Longrightarrow> moved (op_targets op s) s t"
proof (cases op)
  case (Raise e ev)
  assume "apply_op op s = Some t"
  then show ?thesis using Raise process_event_moved by auto
qed (auto simp: set_auth_agent_def add_internal_actor_address_def clear_auth_agent_if_def record_auth_expires_def set_auth_expires_def
    request_renewal_now_def renewal_timer_fires_def take_renewal_challenge_if_def finish_renewal_failure_def
    handle_renewal_reply_def submit_renewal_reauthorize_def adapter_renewal_completion_def
    answer_unavailable_def reset_link_def moved_def Let_def
    split: if_splits option.splits sum.splits elim!: bind_SomeE dest!: clean_up_frame)

fun run_ops :: "link_op list \<Rightarrow> link \<Rightarrow> link option" where
  "run_ops [] s = Some s"
| "run_ops (op # ops) s = do { t \<leftarrow> apply_op op s; run_ops ops t }"

lemma run_ops_type: "run_ops ops s = Some t \<Longrightarrow> ls_type t = ls_type s"
proof (induction ops arbitrary: s)
  case (Cons op ops)
  then obtain u where "apply_op op s = Some u" "run_ops ops u = Some t" by (auto elim!: bind_SomeE)
  then show ?case using Cons.IH [of u] apply_op_moved [of op s u] by (simp add: moved_def)
qed simp

text \<open>The logical clock counts at most eight ticks per operation, and at least one per change of state.\<close>

lemma run_ops_clock:
  "run_ops ops s = Some t \<Longrightarrow>
     \<exists>k \<le> 8 * length ops. ls_clock t = ls_clock s + of_nat k \<and> (k = 0 \<longrightarrow> ls_state t = ls_state s)"
proof (induction ops arbitrary: s)
  case (Cons op ops)
  then obtain u where u: "apply_op op s = Some u" "run_ops ops u = Some t" by (auto elim!: bind_SomeE)
  obtain k where k: "k \<le> 8 * length ops" "ls_clock t = ls_clock u + of_nat k"
    "k = 0 \<longrightarrow> ls_state t = ls_state u" using Cons.IH [OF u(2)] by blast
  define d where "d = unat (ls_clock u - ls_clock s)"
  have d: "ls_clock u = ls_clock s + of_nat d" "d \<le> 8" "d = 0 \<longrightarrow> ls_state u = ls_state s"
    using apply_op_moved [OF u(1)] by (auto simp: d_def moved_def unat_eq_0)
  show ?case
    by (rule exI [of _ "d + k"]) (use k d in \<open>auto simp: algebra_simps\<close>)
qed simp

lemma clock_moved_on:
  assumes "run_ops ops1 s = Some u" and "ls_state u \<noteq> ls_state s" and "run_ops ops2 u = Some t"
    and "8 * (length ops1 + length ops2) < 2 ^ 64"
  shows "ls_clock t \<noteq> ls_clock s"
proof -
  obtain k where k: "k \<le> 8 * length ops1" "ls_clock u = ls_clock s + of_nat k" "k \<noteq> 0"
    using run_ops_clock [OF assms(1)] assms(2) by auto
  obtain j where j: "j \<le> 8 * length ops2" "ls_clock t = ls_clock u + of_nat j"
    using run_ops_clock [OF assms(3)] by auto
  have lt: "k + j < 2 ^ 64" using k(1) j(1) assms(4) by simp
  have "unat (of_nat (k + j) :: u64) = k + j" by (rule of_nat_inverse_u64 [OF lt])
  then have "(of_nat (k + j) :: u64) \<noteq> 0" using k(3) by (metis add_is_0 unat_0)
  then show ?thesis using k(2) j(2) by (simp add: add.assoc)
qed

text \<open>
  C21: A timer or login that was started in an earlier state has no effect.  After the state of a
  link has changed, and for the next 2^61 operations on it, a timeout that was armed before
  the change is ignored, and the answer of the authentication agent to a login that was
  started before the change raises no event, whatever states the link has gone through since.
\<close>

theorem stale_timers_and_logins_are_ignored:
  assumes "run_ops ops1 s = Some u" and "ls_state u \<noteq> ls_state s" and "run_ops ops2 u = Some t"
    and "length ops1 + length ops2 < 2 ^ 61"
  shows "process_event e (Timeout (ls_clock s)) t = Some (t, Inr ()) \<and>
    agent_completion e idp challenge blobs (ls_clock s) outcome t = None"
  using clock_moved_on [OF assms(1-3)] assms(4)
  by (simp_all add: process_timeout_def agent_completion_def auth_attempt_is_current_def)


theorem stale_timers_and_logins_are_ignored_witness:
  "process_event demo_env (Timeout (ls_clock demo_link)) demo_keying = Some (demo_keying, Inr ())"
proof -
  have "run_ops [Raise demo_env Start] demo_link = Some demo_keying"
    using demo_start by simp
  moreover have "ls_state demo_keying \<noteq> ls_state demo_link"
    by (simp add: demo_keying_def demo_link_def new_link_def)
  ultimately show ?thesis
    using stale_timers_and_logins_are_ignored [of "[Raise demo_env Start]" demo_link demo_keying "[]"] by simp
qed

section \<open>The diagram\<close>



section \<open>Authentication before readiness\<close>

lemma run_ops_append: "run_ops (xs @ ys) s = do { t \<leftarrow> run_ops xs s; run_ops ys t }"
proof (induction xs arbitrary: s)
  case (Cons x xs)
  then show ?case by (cases "apply_op x s") simp_all
qed simp

fun the_event :: "link_op \<Rightarrow> link_event" where
  "the_event (Raise e ev) = ev"
| "the_event _ = CloseDone"

fun verified_acquire :: "link_op \<Rightarrow> bool" where
  "verified_acquire (Raise e (ReceivedAcquireZprAddressRequest addrs blob)) \<longleftrightarrow>
     (case decode_blobs (e_auth e) blob of Inr bs \<Rightarrow> check_blobs e bs = Some True | Inl _ \<Rightarrow> False)"
| "verified_acquire _ \<longleftrightarrow> False"

definition ready :: "link_state \<Rightarrow> bool" where
  "ready st \<longleftrightarrow> st = RegisterAA \<or> st = Active"

lemma process_acquire_ready:
  "process_acquire_zpr_address_request e addrs blob s = Some (s', r) \<Longrightarrow> ls_type s = NodeToAdapter \<Longrightarrow>
     \<not> ready (ls_state s) \<Longrightarrow> ready (ls_state s') \<Longrightarrow>
     verified_acquire (Raise e (ReceivedAcquireZprAddressRequest addrs blob))"
  by (auto simp: process_acquire_zpr_address_request_def ready_def
      split: link_state.splits option.splits sum.splits if_splits
      elim!: bind_SomeE dest!: process_error_response_result)

lemma node_op_ready:
  assumes "apply_op op s = Some t" and "ls_type s = NodeToAdapter" and "ls_state s \<noteq> WaitForUserAuth"
  shows "ls_state t \<noteq> WaitForUserAuth \<and> (ready (ls_state t) \<longrightarrow> ready (ls_state s) \<or> verified_acquire op)"
proof (cases "\<exists>e addrs blob. op = Raise e (ReceivedAcquireZprAddressRequest addrs blob)")
  case True
  then obtain e addrs blob r where op: "op = Raise e (ReceivedAcquireZprAddressRequest addrs blob)"
    "process_acquire_zpr_address_request e addrs blob s = Some (t, r)" using assms(1) by auto
  show ?thesis
    using process_acquire_ready [OF op(2) assms(2)] process_acquire_moved [OF op(2)] assms(3) op(1)
    by (auto simp: moved_def split: if_splits)
next
  case False
  have "ls_state t = ls_state s \<or> ls_state t \<in> op_targets op s"
    using apply_op_moved [OF assms(1)] by (simp add: moved_def)
  then show ?thesis
    using assms(2,3) False
    by (cases "(op, s)" rule: op_targets.cases; cases "(ls_type s, the_event op, ls_state s)" rule: diagram.cases)
      (auto simp: ready_def closing_states_def failing_states_def split: if_splits link_state.splits)
qed


text \<open>What the checks establish: every blob carries a challenge with the keyed hash of this link.\<close>

definition bound_to_key :: "auth_lib \<Rightarrow> bytes \<Rightarrow> auth_blob \<Rightarrow> bool" where
  "bound_to_key A key b \<longleftrightarrow> (case b64_decode A (blob_challenge b) of
     Some c \<Rightarrow> length c = 48 \<and> drop 16 c = keyed_hash A key (take 16 c) | None \<Rightarrow> False)"

lemma is_ok_iff: "(case r of Inl _ \<Rightarrow> False | Inr _ \<Rightarrow> True) \<longleftrightarrow> (\<exists>y. r = Inr y)"
  by (cases r) simp_all

lemma check_self_signed_blob_bound:
  "check_self_signed_blob e ss lim = Some True \<Longrightarrow>
     \<exists>peer. e_peer e = Some peer \<and> bound_to_key (e_auth e) (pv_auth_key peer) (SelfSigned ss)"
  by (auto simp: check_self_signed_blob_def verify_blob_challenge_def bound_to_key_def blob_challenge_def
      verify_challenge_bytes_accepts panic_simps is_ok_iff split: option.splits sum.splits)

lemma check_oidc_blob_bound:
  "check_oidc_blob e oidc = Some True \<Longrightarrow>
     \<exists>peer. e_peer e = Some peer \<and> bound_to_key (e_auth e) (pv_auth_key peer) (Oidc oidc)"
  by (auto simp: check_oidc_blob_def verify_oidc_challenge_accepts bound_to_key_def blob_challenge_def
      verify_challenge_bytes_accepts panic_simps is_ok_iff split: option.splits)

lemma check_blobs_bound:
  "check_blobs e bs = Some True \<Longrightarrow> b \<in> set bs \<Longrightarrow>
     \<exists>peer. e_peer e = Some peer \<and> bound_to_key (e_auth e) (pv_auth_key peer) b"
  by (induction bs) (auto split: auth_blob.splits if_splits elim!: bind_SomeE
      dest: check_self_signed_blob_bound check_oidc_blob_bound)

lemma verified_acquire_bound:
  assumes "verified_acquire op"
  shows "\<exists>e addrs blob bs peer. op = Raise e (ReceivedAcquireZprAddressRequest addrs blob) \<and>
    decode_blobs (e_auth e) blob = Inr bs \<and> bs \<noteq> [] \<and> e_peer e = Some peer \<and>
    list_all (bound_to_key (e_auth e) (pv_auth_key peer)) bs"
proof -
  obtain e addrs blob bs where op: "op = Raise e (ReceivedAcquireZprAddressRequest addrs blob)"
    "decode_blobs (e_auth e) blob = Inr bs" "check_blobs e bs = Some True"
    using assms by (cases op rule: verified_acquire.cases) (auto split: sum.splits)
  have ne: "bs \<noteq> []" using op(2) by (rule decode_blobs_nonempty)
  then obtain peer where "e_peer e = Some peer"
    using check_blobs_bound [OF op(3), of "hd bs"] by auto
  moreover have "list_all (bound_to_key (e_auth e) (pv_auth_key peer)) bs"
    using check_blobs_bound [OF op(3)] calculation by (auto simp: list_all_iff)
  ultimately show ?thesis using op ne by blast
qed

lemma node_ready_verified:
  assumes "run_ops ops (new_link i u NodeToAdapter pool) = Some s"
  shows "ls_state s \<noteq> WaitForUserAuth \<and> (ready (ls_state s) \<longrightarrow> list_ex verified_acquire ops)"
  using assms
proof (induction ops arbitrary: s rule: rev_induct)
  case Nil
  then show ?case by (auto simp: new_link_def ready_def)
next
  case (snoc op ops)
  then obtain t where t: "run_ops ops (new_link i u NodeToAdapter pool) = Some t" "apply_op op t = Some s"
    by (auto simp: run_ops_append elim!: bind_SomeE)
  have "ls_type t = NodeToAdapter" using run_ops_type [OF t(1)] by (simp add: new_link_def)
  then show ?case using node_op_ready [OF t(2)] snoc.IH [OF t(1)] by auto
qed

text \<open>
  C11: A node makes the link of an adapter ready (registering its address, or active) only
  after an acquire request on this link whose blob array was not empty and in which every
  blob carried a challenge authenticated with the key of the link.  This holds after any sequence
  of events and other operations, with the environments changing arbitrarily in between.
\<close>

theorem node_link_ready_only_when_authenticated:
  assumes "run_ops ops (new_link i u NodeToAdapter pool) = Some s" and "is_ready s"
  shows "\<exists>e addrs blob bs peer. Raise e (ReceivedAcquireZprAddressRequest addrs blob) \<in> set ops \<and>
    decode_blobs (e_auth e) blob = Inr bs \<and> bs \<noteq> [] \<and> e_peer e = Some peer \<and>
    list_all (bound_to_key (e_auth e) (pv_auth_key peer)) bs"
proof -
  have "ready (ls_state s)" using assms(2) by (auto simp: is_ready_def ready_def)
  then obtain op where "op \<in> set ops" "verified_acquire op"
    using node_ready_verified [OF assms(1)] by (auto simp: list_ex_iff)
  then show ?thesis using verified_acquire_bound [of op] by blast
qed


text \<open>An adapter that docks with a self-signed blob and is authorized by the visa service.\<close>

lemma minted_blob_accepted:
  assumes "auth_lib_ok A" and "length rnd = 8"
    and "authenticate_blob A now' bs (new_payload A t rnd key) = Inr ss" and "check_link_cn A cert ss = Inr ()"
    and "unat t + unat lim < 2 ^ 64" and "unat now \<le> unat t + unat lim"
  shows "verify_blob_challenge A now ss cert key lim = Some (Inr ())"
proof -
  have "b64_decode A (ss_challenge ss) = Some (challenge_of (new_payload A t rnd key))"
    using assms(1,3) by (auto simp: authenticate_blob_def auth_lib_ok_def Let_def)
  moreover have "unat (t + lim) = unat t + unat lim"
    using assms(5) by (simp add: unat_word_ariths)
  ultimately show ?thesis
    using assms(4-6) verify_minted [OF assms(1,2)]
    by (simp add: verify_blob_challenge_def checked_add_u64_def word_less_nat_alt)
qed

definition demo_payload :: init_auth_payload where
  "demo_payload = new_payload demo_auth 1000 (replicate 8 7) (replicate 32 1)"

definition demo_blob :: self_signed_blob where
  "demo_blob = projr (authenticate_blob demo_auth 1000 \<lparr>bs_pkey = [1], bs_cn = ''adapter''\<rparr> demo_payload)"

definition demo_node_ops :: "link_op list" where
  "demo_node_ops = [Raise demo_env Start, Raise demo_env KeyingDone, Raise demo_env ReceivedHelloRequest,
     Raise demo_env (ReceivedAcquireZprAddressRequest None (encode_blobs demo_auth [SelfSigned demo_blob])),
     Raise demo_env (ReceivedAuthorizeResponse (replicate 16 1))]"

lemma demo_env_simps [simp]: "e_auth demo_env = demo_auth" "now_secs demo_env = 1000"
  "e_peer demo_env = Some \<lparr>pv_auth_key = replicate 32 1, pv_a2a_dh_pubkey = None, pv_association = Some None\<rparr>"
  "e_vs_link demo_env = None" "e_keys_loaded demo_env" "e_km_accepts demo_env"
  by (simp_all add: demo_env_def now_secs_def)

lemma demo_blob_tag: "well_tagged (SelfSigned demo_blob)"
  by (simp add: demo_blob_def authenticate_blob_def Let_def)

lemma demo_blob_checked: "check_blobs demo_env [SelfSigned demo_blob] = Some True"
proof -
  have "verify_blob_challenge demo_auth 1000 demo_blob None (replicate 32 1) 120 = Some (Inr ())"
    by (rule minted_blob_accepted [of _ "replicate 8 7" 1000 "\<lparr>bs_pkey = [1], bs_cn = ''adapter''\<rparr>" 1000])
      (simp_all add: demo_auth_ok demo_blob_def demo_payload_def check_link_cn_def authenticate_blob_def Let_def)
  then show ?thesis by (simp add: check_self_signed_blob_def)
qed

lemma demo_node_run: "\<exists>s. run_ops demo_node_ops (new_link 1 1 NodeToAdapter None) = Some s \<and> is_ready s"
  using demo_blob_tag demo_blob_checked
  by (simp add: demo_node_ops_def process_start_def process_keying_done_def process_hello_request_def
      allocate_aaa_def process_acquire_zpr_address_request_def register_actor_def process_authorize_response_def
      requested_address_def decode_encode_blobs [OF demo_auth_ok] build_connect_request_def is_vs_link_def
      run_active_def is_ready_def new_link_def assign_special_names_def send_init_authentication_request_def Let_def)

theorem node_link_ready_only_when_authenticated_witness:
  "\<exists>e addrs blob bs peer. Raise e (ReceivedAcquireZprAddressRequest addrs blob) \<in> set demo_node_ops \<and>
    decode_blobs (e_auth e) blob = Inr bs \<and> bs \<noteq> [] \<and> e_peer e = Some peer \<and>
    list_all (bound_to_key (e_auth e) (pv_auth_key peer)) bs"
proof -
  obtain s where "run_ops demo_node_ops (new_link 1 1 NodeToAdapter None) = Some s" "is_ready s"
    using demo_node_run by blast
  then show ?thesis by (rule node_link_ready_only_when_authenticated)
qed

end
