(* ===== verification/Link_Lifecycle.thy ===== *)
theory Link_Lifecycle
  imports Link_Guarantees
begin

text \<open>
  The life of an active link and its end: how many keep-alive misses are tolerated, that a
  close runs to its end and returns what the link held, and two places where a failed
  bring-up is not dealt with.
\<close>

section \<open>Keep-alive\<close>

text \<open>\<open>n\<close> timeouts in a row, each the current one, with no event in between.\<close>

fun timeouts :: "link_env \<Rightarrow> nat \<Rightarrow> link \<Rightarrow> link option" where
  "timeouts e 0 s = Some s"
| "timeouts e (Suc n) s = do { (t, r) \<leftarrow> process_event e (Timeout (ls_clock s)) s; timeouts e n t }"

lemma fail_link_closes:
  assumes "ls_type s \<noteq> Internal" and "r \<noteq> TR_Shutdown"
  shows "\<exists>t. fail_link e r s = Some (t, Inr ()) \<and> ls_state t = Closing \<and> Send_Terminate r \<in> set (lw_out t)"
  using assms
  by (auto simp: fail_link_def initiate_close_def maybe_disconnect_visa_service_client_def
      continue_close_def record_auth_failure_def Let_def)

lemma tolerated_miss:
  assumes "ls_state s = Active" and "ls_echo s \<noteq> None" and "ls_keep_alive_misses s + 1 < 3"
  shows "\<exists>t. process_event e (Timeout (ls_clock s)) s = Some (t, Inr ()) \<and> ls_state t = Active \<and>
    ls_echo t \<noteq> None \<and> ls_keep_alive_misses t = ls_keep_alive_misses s + 1 \<and> ls_type t = ls_type s"
  using assms
  by (auto simp: process_timeout_def keep_alive_timeout_def send_keep_alive_def Let_def split: link_type.splits)

lemma last_miss:
  assumes "ls_state s = Active" and "ls_echo s \<noteq> None" and "ls_keep_alive_misses s + 1 = 3"
    and "ls_type s \<noteq> Internal"
  shows "\<exists>t. process_event e (Timeout (ls_clock s)) s = Some (t, Inr ()) \<and> ls_state t = Closing \<and>
    Send_Terminate TR_RequestTimedOut \<in> set (lw_out t)"
  using assms fail_link_closes [of "s\<lparr>ls_echo := None, ld_echo_timeout := ld_echo_timeout s + 1,
      ls_keep_alive_misses := ls_keep_alive_misses s + 1\<rparr>" TR_RequestTimedOut e]
  by (auto simp: process_timeout_def keep_alive_timeout_def Let_def split: link_type.splits)

lemma misses_tolerated:
  "ls_state s = Active \<Longrightarrow> ls_echo s \<noteq> None \<Longrightarrow> ls_keep_alive_misses s + n < 3 \<Longrightarrow>
     \<exists>t. timeouts e n s = Some t \<and> ls_state t = Active \<and> ls_echo t \<noteq> None \<and>
       ls_keep_alive_misses t = ls_keep_alive_misses s + n \<and> ls_type t = ls_type s"
proof (induction n arbitrary: s)
  case (Suc n)
  then obtain u where u: "process_event e (Timeout (ls_clock s)) s = Some (u, Inr ())" "ls_state u = Active"
    "ls_echo u \<noteq> None" "ls_keep_alive_misses u = ls_keep_alive_misses s + 1" "ls_type u = ls_type s"
    using tolerated_miss [of s e] by auto
  then show ?case using Suc.IH [of u] Suc.prems(3) by simp
qed simp

lemma timeouts_Suc: "timeouts e (Suc n) s = do { t \<leftarrow> timeouts e n s; (u, r) \<leftarrow> process_event e (Timeout (ls_clock t)) t; Some u }"
proof (induction n arbitrary: s)
  case 0
  show ?case by (simp del: process_event.simps split: prod.split)
next
  case (Suc n)
  show ?case
  proof (cases "process_event e (Timeout (ls_clock s)) s")
    case (Some tr)
    then show ?thesis
      unfolding timeouts.simps(2) [of e "Suc n" s] timeouts.simps(2) [of e n s]
      by (cases tr) (simp del: process_event.simps timeouts.simps add: Suc.IH)
  qed (simp del: process_event.simps)
qed

text \<open>
  C22: An active link survives two keep-alive misses in a row and not a third one: as long as
  fewer than \<open>KEEP_ALIVE_MAX_MISSES\<close> echoes in a row have been missed the link stays active
  and tries again, with the last allowed miss it starts to close with the reason
  \<open>RequestTimedOut\<close>, and a response resets the count.
\<close>

theorem keep_alive_tolerance_exact:
  assumes "ls_state s = Active" and "ls_type s \<noteq> Internal" and "ls_echo s = Some t0"
    and "ls_keep_alive_misses s < KEEP_ALIVE_MAX_MISSES"
  shows "(\<forall>n. ls_keep_alive_misses s + n < KEEP_ALIVE_MAX_MISSES \<longrightarrow>
      (\<exists>t. timeouts e n s = Some t \<and> ls_state t = Active \<and> ls_keep_alive_misses t = ls_keep_alive_misses s + n)) \<and>
    (\<exists>t. timeouts e (KEEP_ALIVE_MAX_MISSES - ls_keep_alive_misses s) s = Some t \<and> ls_state t = Closing \<and>
      Send_Terminate TR_RequestTimedOut \<in> set (lw_out t)) \<and>
    (\<forall>t r. process_event e ReceivedKeepAliveResponse s = Some (t, r) \<longrightarrow>
      ls_state t = Active \<and> ls_keep_alive_misses t = 0)"
proof (intro conjI allI impI)
  fix n assume "ls_keep_alive_misses s + n < KEEP_ALIVE_MAX_MISSES"
  then show "\<exists>t. timeouts e n s = Some t \<and> ls_state t = Active \<and> ls_keep_alive_misses t = ls_keep_alive_misses s + n"
    using misses_tolerated [of s n e] assms by auto
next
  obtain n where n: "3 - ls_keep_alive_misses s = Suc n" "ls_keep_alive_misses s + n = 2"
    using assms(4) by (intro that [of "2 - ls_keep_alive_misses s"]) auto
  obtain u where u: "timeouts e n s = Some u" "ls_state u = Active" "ls_echo u \<noteq> None"
    "ls_keep_alive_misses u = 2" "ls_type u = ls_type s"
    using misses_tolerated [of s n e] assms n(2) by auto
  then show "\<exists>t. timeouts e (KEEP_ALIVE_MAX_MISSES - ls_keep_alive_misses s) s = Some t \<and> ls_state t = Closing \<and>
      Send_Terminate TR_RequestTimedOut \<in> set (lw_out t)"
    using last_miss [of u e] assms(2) unfolding n(1) timeouts_Suc by auto
next
  fix t r assume r: "process_event e ReceivedKeepAliveResponse s = Some (t, r)"
  then have "moved {} s t" using process_event_moved [OF r] by simp
  moreover have "ls_keep_alive_misses t = 0"
    using r assms(1,3) by (auto simp: process_keep_alive_response_def Let_def maybe_renew_auth_def warn_no_agent_def
        send_renewal_credential_request_def stash_renewal_challenge_def finish_renewal_failure_def
        split: option.splits if_splits elim!: bind_SomeE)
  ultimately show "ls_state t = Active" "ls_keep_alive_misses t = 0" using assms(1) by (auto simp: moved_def)
qed

definition demo_active :: link where
  "demo_active = demo_link\<lparr>ls_state := Active, ls_status := Up, ls_echo := Some 0, ls_keep_alive_misses := 1\<rparr>"

theorem keep_alive_tolerance_exact_witness:
  "(\<exists>t. timeouts demo_env 1 demo_active = Some t \<and> ls_state t = Active) \<and>
   (\<exists>t. timeouts demo_env 2 demo_active = Some t \<and> ls_state t = Closing)"
proof -
  have d: "ls_state demo_active = Active" "ls_type demo_active \<noteq> Internal" "ls_echo demo_active = Some 0"
    "ls_keep_alive_misses demo_active = 1"
    by (simp_all add: demo_active_def demo_link_def new_link_def)
  note tol = keep_alive_tolerance_exact [of demo_active 0 demo_env, OF d(1-3), unfolded d(4)]
  have "\<exists>t. timeouts demo_env 1 demo_active = Some t \<and> ls_state t = Active"
    using tol [THEN conjunct1] by (auto simp del: One_nat_def dest!: spec [of _ "1 :: nat"])
  moreover have "\<exists>t. timeouts demo_env 2 demo_active = Some t \<and> ls_state t = Closing"
    using tol by auto
  ultimately show ?thesis ..
qed


section \<open>Closing\<close>

lemma initiate_close_closes:
  assumes "ls_type s \<noteq> Internal"
  shows "\<exists>t. initiate_close e r s = Some (t, Inr ()) \<and> ls_type t = ls_type s \<and> lw_pool t = lw_pool s \<and>
    ld_aaa_address t = ld_aaa_address s \<and> ls_shutting_down t = (r = TR_Shutdown \<or> ls_shutting_down s) \<and>
    (ls_state t = Closing \<or> ls_type s = NodeToAdapter \<and> ls_state t = Disconnecting r)"
  using assms
  by (auto simp: initiate_close_def maybe_disconnect_visa_service_client_def continue_close_def
      record_auth_failure_def Let_def)

text \<open>What follows a close: the acknowledgement of the disconnection, if the link waits for it.\<close>

definition after_disconnect :: "link_env \<Rightarrow> link \<Rightarrow> link option" where
  "after_disconnect e s = (case ls_state s of
     Disconnecting _ \<Rightarrow> map_option fst (process_event e ReceivedDisconnectAck s)
   | _ \<Rightarrow> Some s)"

lemma after_disconnect_closing:
  assumes "ls_state t = Closing \<or> ls_type t = NodeToAdapter \<and> ls_state t = Disconnecting r"
  shows "\<exists>u. after_disconnect e t = Some u \<and> ls_state u = Closing \<and> ls_type u = ls_type t \<and>
    lw_pool u = lw_pool t \<and> ld_aaa_address u = ld_aaa_address t \<and> ls_shutting_down u = ls_shutting_down t"
  using assms
  by (auto simp: after_disconnect_def process_disconnect_ack_def continue_close_def Let_def)

definition released :: "ip option \<Rightarrow> address_pool option \<Rightarrow> address_pool option" where
  "released aaa pool = (case (aaa, pool) of
     (Some a, Some p) \<Rightarrow> Some (snd (release_address a p)) | (_, _) \<Rightarrow> pool)"

lemma release_aaa_released: "ld_aaa_address (release_aaa s) = None \<and>
    lw_pool (release_aaa s) = released (ld_aaa_address s) (lw_pool s) \<and>
    ls_shutting_down (release_aaa s) = ls_shutting_down s"
  by (simp add: release_aaa_def released_def Let_def split: option.split)

lemma deregister_frame2 [simp]:
  "ld_aaa_address (deregister_actor_addresses e s) = ld_aaa_address s"
  "lw_pool (deregister_actor_addresses e s) = lw_pool s"
  "ls_shutting_down (deregister_actor_addresses e s) = ls_shutting_down s"
  by (simp_all add: deregister_actor_addresses_def fold_emit)

lemma clean_up_releases:
  assumes "e_tun_carrier_ok e" and "ls_state s = Closing"
  shows "\<exists>u. clean_up_link_state e s = Some u \<and> ls_state u = Closing \<and> ls_type u = ls_type s \<and>
    ld_aaa_address u = None \<and> lw_pool u = released (ld_aaa_address s) (lw_pool s) \<and>
    ls_shutting_down u = ls_shutting_down s \<and> Km_Drop_Link_Then_CloseDone \<in> set (lw_out u)"
  using assms release_aaa_released [of s]
  by (auto simp: clean_up_link_state_def Let_def split: link_type.splits)

lemma complete_close_ends:
  assumes "ls_state s = Closing"
  shows "ld_aaa_address (complete_close e s) = ld_aaa_address s \<and> lw_pool (complete_close e s) = lw_pool s \<and>
    (Drop_Peer \<in> set (lw_out (complete_close e s)) \<or> ls_state (complete_close e s) = Inactive) \<and>
    (ls_type s \<noteq> NodeToAdapter \<longrightarrow> ls_state (complete_close e s) = Inactive) \<and>
    (ls_type s = NodeToAdapter \<or> ls_shutting_down s \<longrightarrow> Drop_Peer \<in> set (lw_out (complete_close e s)))"
  using assms by (auto simp: complete_close_def Let_def)

text \<open>
  C23: A close runs to its end from every state.  After a close request on a link that is not
  internal, the acknowledgement of the disconnection from the visa service where the link
  waits for it, the acknowledgement of the terminate request or its timeout, and the end of
  the key manager, the link is inactive or its peer is dropped; its temporary address is
  back in the pool, and a link that shuts down is dropped for good.
\<close>

theorem close_runs_to_its_end:
  assumes "ls_type s \<noteq> Internal" and "e_tun_carrier_ok e"
  shows "\<exists>t u v w. process_event e (Close r) s = Some (t, Inr ()) \<and> after_disconnect e t = Some u \<and>
    process_event e ReceivedTerminateAck u = Some (v, Inr ()) \<and>
    map_option lw_pool (map_option fst (process_event e (Timeout (ls_clock u)) u)) = Some (lw_pool v) \<and>
    process_event e CloseDone v = Some (w, Inr ()) \<and>
    ld_aaa_address w = None \<and> lw_pool w = released (ld_aaa_address s) (lw_pool s) \<and>
    (ls_state w = Inactive \<or> Drop_Peer \<in> set (lw_out w)) \<and>
    (r = TR_Shutdown \<longrightarrow> Drop_Peer \<in> set (lw_out w))"
proof -
  obtain t where t: "initiate_close e r s = Some (t, Inr ())" "ls_type t = ls_type s" "lw_pool t = lw_pool s"
    "ld_aaa_address t = ld_aaa_address s" "r = TR_Shutdown \<longrightarrow> ls_shutting_down t"
    "ls_state t = Closing \<or> ls_type t = NodeToAdapter \<and> ls_state t = Disconnecting r"
    using initiate_close_closes [OF assms(1), of e r] by auto
  obtain u where u: "after_disconnect e t = Some u" "ls_state u = Closing" "ls_type u = ls_type t"
    "lw_pool u = lw_pool t" "ld_aaa_address u = ld_aaa_address t" "ls_shutting_down u = ls_shutting_down t"
    using after_disconnect_closing [OF t(6)] by auto
  have c: "ls_state (cancel_timeout u) = Closing" "ld_aaa_address (cancel_timeout u) = ld_aaa_address u"
    "lw_pool (cancel_timeout u) = lw_pool u" "ls_shutting_down (cancel_timeout u) = ls_shutting_down u"
    using u(2) by (simp_all add: cancel_timeout_def)
  obtain v where v: "clean_up_link_state e (cancel_timeout u) = Some v" "ls_state v = Closing"
    "ld_aaa_address v = None" "lw_pool v = released (ld_aaa_address u) (lw_pool u)"
    "ls_shutting_down v = ls_shutting_down u"
    using clean_up_releases [OF assms(2) c(1)] c by auto
  have "process_event e ReceivedTerminateAck u = Some (v, Inr ())"
    using u(2) v(1) by (simp add: process_terminate_ack_def)
  moreover obtain v' where v': "clean_up_link_state e u = Some v'" "lw_pool v' = lw_pool v"
    using clean_up_releases [OF assms(2) u(2)] v(4) by auto
  have "map_option lw_pool (map_option fst (process_event e (Timeout (ls_clock u)) u)) = Some (lw_pool v)"
    using u(2) v' by (simp add: process_timeout_def split: link_type.split)
  ultimately show ?thesis
    using t u v complete_close_ends [OF v(2), of e] by auto
qed

theorem close_runs_to_its_end_witness:
  "\<exists>t u v w. process_event demo_env (Close TR_Shutdown) demo_active = Some (t, Inr ()) \<and>
    after_disconnect demo_env t = Some u \<and> process_event demo_env ReceivedTerminateAck u = Some (v, Inr ()) \<and>
    process_event demo_env CloseDone v = Some (w, Inr ()) \<and> Drop_Peer \<in> set (lw_out w)"
proof -
  have "ls_type demo_active \<noteq> Internal" "e_tun_carrier_ok demo_env"
    by (simp_all add: demo_active_def demo_link_def new_link_def demo_env_def)
  from close_runs_to_its_end [OF this, of TR_Shutdown] show ?thesis by blast
qed

section \<open>Bring-up failures that are not dealt with\<close>

text \<open>
  C40: A node that waits for an adapter's acquire request never gives up.  The timer that the
  acknowledgement of the init-authentication request arms is ignored when it fires: the link
  stays as it was, and no timer is armed any more.
\<close>

theorem node_waits_forever_for_acquire:
  "ls_type s = NodeToAdapter \<and> ls_state s = WaitForAcquireZprAddress \<Longrightarrow>
   \<exists>t. process_event e ReceivedInitAuthAck s = Some (t, Inr ()) \<and>
     Arm_Timeout ACTOR_AUTHENTICATION_TIMEOUT (ls_clock t) \<in> set (lw_out t) \<and>
     process_event e' (Timeout (ls_clock t)) t = Some (t, Inl (InvalidOperation ''Ignoring unexpected timeout''))"
  by (auto simp: process_init_auth_ack_def process_timeout_def)

theorem node_waits_forever_for_acquire_witness:
  "\<exists>t. process_event demo_env (Timeout (ls_clock t)) t = Some (t, Inl (InvalidOperation ''Ignoring unexpected timeout'')) \<and>
     ls_state t = WaitForAcquireZprAddress"
proof -
  let ?s = "(new_link 1 1 NodeToAdapter None)\<lparr>ls_state := WaitForAcquireZprAddress\<rparr>"
  obtain t where t: "process_event demo_env ReceivedInitAuthAck ?s = Some (t, Inr ())"
    "process_event demo_env (Timeout (ls_clock t)) t = Some (t, Inl (InvalidOperation ''Ignoring unexpected timeout''))"
    using node_waits_forever_for_acquire [of ?s demo_env demo_env] by (auto simp: new_link_def)
  moreover have "ls_state t = WaitForAcquireZprAddress"
    using t(1) by (auto simp: process_init_auth_ack_def new_link_def)
  ultimately show ?thesis by blast
qed

text \<open>
  A rejected hello closes the link of an adapter without a recorded reason, although the
  close is terminal when auto-connect is off: the failure path does not park the link in the
  error state, which is what the close takes as the sign of a failure.
\<close>

lemma rejected_hello_leaves_no_reason:
  assumes "ls_type s = AdapterToNode" and "ls_state s = Helloing" and "\<not> e_auto_connect e"
    and "ld_last_auth_failure s = None" and "e_tun_carrier_ok e" and "\<not> ls_shutting_down s"
  shows "\<exists>t u. process_event e (ReceivedHelloResponse RC_Other None None) s = Some (t, Inr ()) \<and>
    process_event e ReceivedTerminateAck t = Some (u, Inr ()) \<and>
    ls_state (complete_close e u) = Inactive \<and> ld_last_auth_failure (complete_close e u) = None \<and>
    Schedule_Restart \<notin> set (lw_out (complete_close e u)) - set (lw_out u)"
  using assms
  by (auto simp: process_hello_response_def process_error_response_def initiate_close_def Let_def
      maybe_disconnect_visa_service_client_def continue_close_def process_terminate_ack_def
      clean_up_link_state_def release_aaa_def complete_close_def cancel_timeout_def split: option.split)

text \<open>
  After a local activation failure the link stays down: completing the close schedules no
  restart, and a restart that an earlier close has scheduled does not start it.
\<close>

lemma activation_failure_stops_reconnecting:
  assumes "ls_type s = AdapterToNode" and "ls_state s = Closing" and "\<not> ls_shutting_down s"
    and "ld_last_auth_failure s = Some (ActivationFailed why)"
  shows "ls_state (complete_close e s) = Inactive \<and> lw_out (complete_close e s) = lw_out s \<and>
    (e_peer e \<noteq> None \<longrightarrow> \<not> restart_raises_start e (complete_close e s))"
  using assms by (auto simp: complete_close_def restart_raises_start_def is_activation_failure_def Let_def)

end
