(* ===== verification/Link_Renewal_Facts.thy ===== *)
theory Link_Renewal_Facts
  imports Link_Guarantees
begin

text \<open>
  Guarantees of the silent renewal: its timing, that a node submits only what answers its
  outstanding challenge and re-proves what the link was authenticated with, and that the
  exchange between a node and an adapter with a device key succeeds.
\<close>

section \<open>Timing\<close>



section \<open>Only verified answers are submitted\<close>

lemma check_renewal_blobs_bound:
  "check_renewal_blobs e c bs = Some (Inr ()) \<Longrightarrow> b \<in> set bs \<Longrightarrow>
     b64_decode (e_auth e) (blob_challenge b) = Some c \<and>
     (\<exists>peer. e_peer e = Some peer \<and> bound_to_key (e_auth e) (pv_auth_key peer) b)"
proof (induction bs)
  case (Cons a bs)
  have a: "\<exists>peer. e_peer e = Some peer \<and> bound_to_key (e_auth e) (pv_auth_key peer) a"
    using Cons.prems(1) check_self_signed_blob_bound check_oidc_blob_bound
    by (cases a) (auto elim!: bind_SomeE split: if_splits)
  then have "b64_decode (e_auth e) (blob_challenge a) = Some c"
    using Cons.prems(1) by (auto simp: bound_to_key_def Let_def elim!: bind_SomeE split: if_splits option.splits)
  then show ?case
    using Cons a by (auto simp: Let_def elim!: bind_SomeE split: if_splits)
qed simp

lemma first_oidc_only:
  "distinct (map namespace bs) \<Longrightarrow> Oidc oidc \<in> set bs \<Longrightarrow> first_oidc bs = Some oidc"
  by (induction bs rule: first_oidc.induct) (auto simp: image_iff)

lemma not_Inl_iff: "(\<forall>x. z \<noteq> Inl x) \<longleftrightarrow> (\<exists>y. z = Inr y)"
  by (cases z) auto

lemma check_renewal_answer_ok:
  assumes "check_renewal_answer e c bs s = Some (Inr ())"
  shows "blob_namespaces bs = recorded_namespaces s \<and> distinct (map namespace bs) \<and>
    check_renewal_blobs e c bs = Some (Inr ()) \<and>
    (\<forall>oidc. Oidc oidc \<in> set bs \<longrightarrow>
       (\<exists>i. ld_renewal_identity s = Some i \<and> idp_issuer (ri_idp i) = oidc_issuer oidc))"
proof -
  have len: "length bs = card (blob_namespaces bs)" "blob_namespaces bs = recorded_namespaces s"
    and blobs: "check_renewal_blobs e c bs = Some (Inr ())"
    and issuer: "\<forall>oidc. first_oidc bs = Some oidc \<longrightarrow>
       (\<exists>i. ld_renewal_identity s = Some i \<and> idp_issuer (ri_idp i) = oidc_issuer oidc)"
    using assms by (auto simp: check_renewal_answer_def Let_def not_Inl_iff
        split: if_splits sum.splits option.splits elim!: bind_SomeE)
  then have "distinct (map namespace bs)"
    by (intro card_distinct) (simp add: blob_namespaces_def)
  then show ?thesis using len(2) blobs issuer first_oidc_only by blast
qed

lemma check_renewal_answer_frame:
  "check_renewal_answer e c bs (s\<lparr>ld_renewal_challenge := x\<rparr>) = check_renewal_answer e c bs s"
  by (simp add: check_renewal_answer_def recorded_namespaces_def Let_def cong: option.case_cong sum.case_cong)

text \<open>The answers that are discarded or fail submit nothing.\<close>

lemma renew_response_cases:
  assumes "process_renew_auth_response e c result s = Some (s', r)"
  shows "lw_out s' = lw_out s \<or>
    (ls_type s = NodeToAdapter \<and> ls_state s = Active \<and> ld_renewal_challenge s = Some c \<and>
     (\<exists>str bs. result = Inr str \<and> decode_blobs (e_auth e) str = Inr bs \<and>
       check_renewal_answer e c bs s = Some (Inr ()) \<and>
       s' = emit (Submit_Renewal (map (vst_blob_of (e_auth e)) bs)) (s\<lparr>ld_renewal_challenge := None\<rparr>)))"
proof (cases "ls_type s = NodeToAdapter \<and> ls_state s = Active \<and> ld_renewal_challenge s = Some c")
  case False
  then show ?thesis
    using assms by (auto simp: process_renew_auth_response_def take_renewal_challenge_if_def split: if_splits)
next
  case True
  then show ?thesis
    using assms
    by (auto simp: process_renew_auth_response_def take_renewal_challenge_if_def check_renewal_answer_frame
        vst_blobs_for_renewal_def finish_renewal_failure_def not_Inl_iff split: sum.splits elim!: bind_SomeE)
qed



section \<open>The exchange of node and adapter\<close>

text \<open>The requests and answers that a run has put on the wire.\<close>

definition renew_requests :: "link \<Rightarrow> init_auth_payload list" where
  "renew_requests s = List.map_filter (\<lambda>a. case a of Send_Renew_Request p \<Rightarrow> Some p | _ \<Rightarrow> None) (lw_out s)"

definition renew_responses :: "link \<Rightarrow> (response_code \<times> bytes \<times> string) list" where
  "renew_responses s = List.map_filter
     (\<lambda>a. case a of Send_Renew_Response code c str \<Rightarrow> Some (code, c, str) | _ \<Rightarrow> None) (lw_out s)"

lemma map_filter_append: "List.map_filter f (xs @ ys) = List.map_filter f xs @ List.map_filter f ys"
  by (simp add: List.map_filter_def)

lemma request_renewal_sends:
  assumes "ls_type n = NodeToAdapter" "ls_state n = Active" "\<not> ld_renewal_in_flight n" "e_peer e = Some peer"
  shows "\<exists>n'. request_renewal_now e n = (Accepted, n') \<and>
    renew_requests n' = renew_requests n @ [new_payload (e_auth e) (now_secs e) (e_random e) (pv_auth_key peer)] \<and>
    ld_renewal_challenge n' = Some (challenge_of (new_payload (e_auth e) (now_secs e) (e_random e) (pv_auth_key peer))) \<and>
    ls_type n' = NodeToAdapter \<and> ls_state n' = Active \<and> ld_namespaces n' = ld_namespaces n \<and>
    ld_renewal_in_flight n'"
  using assms
  by (auto simp: request_renewal_now_def send_renewal_credential_request_def stash_renewal_challenge_def
      renew_requests_def emit_def map_filter_append Let_def List.map_filter_simps)

lemma adapter_answers_with_device_key:
  assumes "ls_type a = AdapterToNode" "ls_state a = Active" "ld_namespaces a = Some {Device}"
    and "e_bootstrap e = Some bs" and "authenticate_blob (e_auth e) (now_secs e) bs p = Inr ss"
  shows "\<exists>a'. process_event e (ReceivedRenewAuthRequest p) a = Some (a', Inr ()) \<and>
    renew_responses a' = renew_responses a @
      [(RC_Success, challenge_of p, encode_blobs (e_auth e) [SelfSigned ss])]"
  using assms
  by (auto simp: process_renew_auth_request_def recorded_namespaces_def device_leg_def renew_responses_def emit_def
      map_filter_append Let_def List.map_filter_simps)

lemma node_accepts_device_answer:
  assumes "auth_lib_ok (e_auth e)" and "ls_type n = NodeToAdapter" "ls_state n = Active"
    and "ld_renewal_challenge n = Some c" and "ld_namespaces n = Some {Device}"
    and "e_peer e = Some peer" and "pv_association peer = Some cert"
    and "verify_blob_challenge (e_auth e) (now_secs e) ss (map_option fst cert) (pv_auth_key peer)
      MAX_OIDC_BLOB_AGE_SECONDS = Some (Inr ())"
    and "b64_decode (e_auth e) (ss_challenge ss) = Some c" and "ss_blob_type ss = BLOB_TYPE_SS"
  shows "\<exists>n'. process_event e (ReceivedRenewAuthResponse c (Inr (encode_blobs (e_auth e) [SelfSigned ss]))) n = Some (n', Inr ()) \<and>
    lw_out n' = lw_out n @ [Submit_Renewal [vst_blob_of (e_auth e) (SelfSigned ss)]]"
  using assms decode_encode_blobs [OF assms(1), of "[SelfSigned ss]"]
  by (simp add: process_renew_auth_response_def take_renewal_challenge_if_def check_renewal_answer_def
      blob_namespaces_def recorded_namespaces_def check_self_signed_blob_def blob_challenge_def
      vst_blobs_for_renewal_def Let_def)



section \<open>Examples\<close>

definition demo_node :: link where
  "demo_node = (new_link 1 1 NodeToAdapter None)\<lparr>ls_state := Active, ls_status := Up,
     ld_namespaces := Some {Device}\<rparr>"

definition demo_asking :: link where
  "demo_asking = demo_node\<lparr>ld_renewal_in_flight := True, ld_renewal_challenge := Some (challenge_of demo_payload)\<rparr>"

lemma demo_answer_accepted:
  "\<exists>n'. process_event demo_env (ReceivedRenewAuthResponse (challenge_of demo_payload)
       (Inr (encode_blobs demo_auth [SelfSigned demo_blob]))) demo_asking = Some (n', Inr ()) \<and>
     lw_out n' = lw_out demo_asking @ [Submit_Renewal [vst_blob_of demo_auth (SelfSigned demo_blob)]]"
proof -
  have v: "verify_blob_challenge demo_auth 1000 demo_blob None (replicate 32 1) 330 = Some (Inr ())"
    by (rule minted_blob_accepted [of _ "replicate 8 7" 1000 "\<lparr>bs_pkey = [1], bs_cn = ''adapter''\<rparr>" 1000])
      (simp_all add: demo_auth_ok demo_blob_def demo_payload_def check_link_cn_def authenticate_blob_def Let_def)
  have c: "b64_decode demo_auth (ss_challenge demo_blob) = Some (challenge_of demo_payload)"
    using demo_auth_ok by (simp add: demo_blob_def authenticate_blob_def auth_lib_ok_def Let_def)
  show ?thesis
    using node_accepts_device_answer [of demo_env demo_asking "challenge_of demo_payload" _ None demo_blob] v c
      demo_blob_tag
    by (simp add: demo_auth_ok demo_asking_def demo_node_def new_link_def)
qed



end
