(* ===== verification/Mgmt_Wire.thy ===== *)
theory Mgmt_Wire
  imports Packet_View Tc Tlv Auth
begin

text \<open>
  The management messages as they are sent (\<open>mgmt/requests.rs\<close>, \<open>mgmt/core.rs\<close>,
  \<open>mgmt/helpers.rs\<close>), with the header layouts of \<open>zdp.rs\<close>.  A \<open>send\<close> function returns the packet
  that it hands to the session or to the fast path; its panics are those of the packet buffer
  and of slicing a string inside a character.  A Rust string is the list of its UTF-8 bytes.
\<close>

section \<open>Packet types\<close>

type_synonym zdp_packet_type = u8

abbreviation (input) Pkt_Transit :: u8 where "Pkt_Transit \<equiv> 0"
abbreviation (input) Pkt_StreamIdRequest :: u8 where "Pkt_StreamIdRequest \<equiv> 3"
abbreviation (input) Pkt_StreamIdResponse :: u8 where "Pkt_StreamIdResponse \<equiv> 4"
abbreviation (input) Pkt_StreamIdWithdrawal :: u8 where "Pkt_StreamIdWithdrawal \<equiv> 5"
abbreviation (input) Pkt_BindActorAddressRequest :: u8 where "Pkt_BindActorAddressRequest \<equiv> 6"
abbreviation (input) Pkt_BindActorAddressResponse :: u8 where "Pkt_BindActorAddressResponse \<equiv> 7"
abbreviation (input) Pkt_BindEgressStreamRequest :: u8 where "Pkt_BindEgressStreamRequest \<equiv> 8"
abbreviation (input) Pkt_BindEgressStreamResponse :: u8 where "Pkt_BindEgressStreamResponse \<equiv> 9"
abbreviation (input) Pkt_UnbindEgressStreamIndication :: u8 where "Pkt_UnbindEgressStreamIndication \<equiv> 13"
abbreviation (input) Pkt_ZprArp :: u8 where "Pkt_ZprArp \<equiv> 128"
abbreviation (input) Pkt_KeyManagement :: u8 where "Pkt_KeyManagement \<equiv> 129"
abbreviation (input) Pkt_Discard :: u8 where "Pkt_Discard \<equiv> 130"
abbreviation (input) Pkt_Echo :: u8 where "Pkt_Echo \<equiv> 131"
abbreviation (input) Pkt_Report :: u8 where "Pkt_Report \<equiv> 132"
abbreviation (input) Pkt_TerminateLink :: u8 where "Pkt_TerminateLink \<equiv> 133"
abbreviation (input) Pkt_HelloRequest :: u8 where "Pkt_HelloRequest \<equiv> 134"
abbreviation (input) Pkt_HelloResponse :: u8 where "Pkt_HelloResponse \<equiv> 135"
abbreviation (input) Pkt_AcquireZprAddress :: u8 where "Pkt_AcquireZprAddress \<equiv> 138"
abbreviation (input) Pkt_GrantZprAddress :: u8 where "Pkt_GrantZprAddress \<equiv> 139"
abbreviation (input) Pkt_InitAuthenticationRequest :: u8 where "Pkt_InitAuthenticationRequest \<equiv> 141"
abbreviation (input) Pkt_RenewAuthenticationRequest :: u8 where "Pkt_RenewAuthenticationRequest \<equiv> 142"
abbreviation (input) Pkt_RenewAuthenticationResponse :: u8 where "Pkt_RenewAuthenticationResponse \<equiv> 143"
abbreviation (input) Pkt_Canceled :: u8 where "Pkt_Canceled \<equiv> 252"
abbreviation (input) Pkt_Cancel :: u8 where "Pkt_Cancel \<equiv> 253"
abbreviation (input) Pkt_Acknowledgement :: u8 where "Pkt_Acknowledgement \<equiv> 254"

definition is_per_flow :: "zdp_packet_type \<Rightarrow> bool" where
  "is_per_flow t \<longleftrightarrow> t AND 0x80 = 0"

definition is_mgmt :: "zdp_packet_type \<Rightarrow> bool" where
  "is_mgmt t \<longleftrightarrow> \<not> (t = Pkt_Transit \<or> t = Pkt_ZprArp \<or> t = Pkt_KeyManagement)"

section \<open>Buffers\<close>

abbreviation (input) SMALL_PACKET_BUFFER_SIZE :: nat where "SMALL_PACKET_BUFFER_SIZE \<equiv> 4096"
abbreviation (input) TINY_PACKET_BUFFER_SIZE :: nat where "TINY_PACKET_BUFFER_SIZE \<equiv> 256"
abbreviation (input) DEFAULT_MESSAGE_HEADROOM :: nat where "DEFAULT_MESSAGE_HEADROOM \<equiv> 256"
abbreviation (input) TINY_MESSAGE_HEADROOM :: nat where "TINY_MESSAGE_HEADROOM \<equiv> 64"
abbreviation (input) BIND_REQUEST_MAX_PAYLOAD_LENGTH :: nat where "BIND_REQUEST_MAX_PAYLOAD_LENGTH \<equiv> 256"

definition new_heap_packet :: "packet option" where
  "new_heap_packet = packet_new (replicate SMALL_PACKET_BUFFER_SIZE 0) DEFAULT_MESSAGE_HEADROOM"

definition new_tiny_heap_packet :: "packet option" where
  "new_tiny_heap_packet = packet_new (replicate TINY_PACKET_BUFFER_SIZE 0) TINY_MESSAGE_HEADROOM"

text \<open>\<open>alloc_zeroed_header::<T>()\<close> followed by the assignments that fill in the header.\<close>

definition alloc_header :: "bytes \<Rightarrow> packet \<Rightarrow> packet option" where
  "alloc_header hdr p = do { p \<leftarrow> alloc_zeroed_headroom (length hdr) p; write_body 0 hdr p }"

text \<open>\<open>&reason[..reason.len().min(u8::MAX as usize)]\<close> of a string.\<close>

definition is_char_boundary :: "nat \<Rightarrow> bytes \<Rightarrow> bool" where
  "is_char_boundary i s \<longleftrightarrow> i = length s \<or> i < length s \<and> \<not> utf8_cont (s ! i)"

definition truncate_reason :: "bytes \<Rightarrow> bytes option" where
  "truncate_reason reason = (let n = min (length reason) 255 in do {
     ensure (is_char_boundary n reason);
     Some (take n reason)
   })"

section \<open>Framing\<close>

definition send_mgmt_helper ::
    "zdp_packet_type \<Rightarrow> u32 option \<Rightarrow> u16 option \<Rightarrow> packet \<Rightarrow> packet option" where
  "send_mgmt_helper packet_type stream_id txn_id p = do {
     ensure (packet_type \<noteq> Pkt_KeyManagement);
     ensure ((stream_id \<noteq> None) = is_per_flow packet_type);
     p \<leftarrow> (case txn_id of None \<Rightarrow> Some p | Some t \<Rightarrow> alloc_header (be16 t) p);
     p \<leftarrow> (case stream_id of None \<Rightarrow> Some p | Some s \<Rightarrow> alloc_header (be32 s) p);
     p \<leftarrow> alloc_zeroed_headroom 8 p;
     alloc_header [packet_type, 0] p
   }"

definition send_non_flow_mgmt :: "zdp_packet_type \<Rightarrow> packet \<Rightarrow> packet option" where
  "send_non_flow_mgmt packet_type p = send_mgmt_helper packet_type None None p"

definition send_per_flow_mgmt :: "zdp_packet_type \<Rightarrow> u32 \<Rightarrow> packet \<Rightarrow> packet option" where
  "send_per_flow_mgmt packet_type stream_id p = send_mgmt_helper packet_type (Some stream_id) None p"

definition send_per_flow_txn_mgmt :: "zdp_packet_type \<Rightarrow> u32 \<Rightarrow> u16 \<Rightarrow> packet \<Rightarrow> packet option" where
  "send_per_flow_txn_mgmt packet_type stream_id txn_id p =
     send_mgmt_helper packet_type (Some stream_id) (Some txn_id) p"

text \<open>What \<open>build_and_egress_packets\<close> does to a packet once its sequence number is known.\<close>

definition fill_sequence_number :: "u64 \<Rightarrow> packet \<Rightarrow> packet option" where
  "fill_sequence_number sn p = write_body 2 (be64 sn) p"

definition send_zdpr_common :: "u64 \<Rightarrow> zdp_packet_type \<Rightarrow> packet option" where
  "send_zdpr_common sn packet_type = do {
     p \<leftarrow> new_tiny_heap_packet;
     p \<leftarrow> alloc_zeroed_headroom 8 p;
     p \<leftarrow> alloc_header [packet_type, 0] p;
     fill_sequence_number sn p
   }"

definition send_acknowledgement :: "u64 \<Rightarrow> packet option" where
  "send_acknowledgement sn = send_zdpr_common sn Pkt_Acknowledgement"

definition send_cancel :: "u64 \<Rightarrow> packet option" where
  "send_cancel sn = send_zdpr_common sn Pkt_Cancel"

definition send_canceled :: "u64 \<Rightarrow> packet option" where
  "send_canceled sn = send_zdpr_common sn Pkt_Canceled"

section \<open>Link messages\<close>

definition send_key_management :: "u16 \<Rightarrow> bytes \<Rightarrow> packet option" where
  "send_key_management km_id payload = do {
     p \<leftarrow> new_heap_packet;
     p \<leftarrow> alloc_header (be16 km_id @ be16 (of_nat (length payload))) p;
     p \<leftarrow> append_bytes payload p;
     alloc_header [Pkt_KeyManagement, 0] p
   }"

definition send_discard :: "packet option" where
  "send_discard = do { p \<leftarrow> new_heap_packet; send_non_flow_mgmt Pkt_Discard p }"

definition send_echo_request :: "packet option" where
  "send_echo_request = do {
     p \<leftarrow> new_heap_packet;
     p \<leftarrow> alloc_header (be16 0) p;
     send_non_flow_mgmt Pkt_Echo p
   }"

definition put_tlv :: "('k, 'v) tlv_lib \<Rightarrow> ('k, 'v) tlv_encoding \<Rightarrow> packet \<Rightarrow> packet option" where
  "put_tlv L e p = do { bs \<leftarrow> put L e; append_bytes bs p }"

text \<open>\<open>window\<close> is the size of the receive window of the link, if the peer still exists.\<close>

definition put_window_size_tlv :: "('k, 'v) tlv_lib \<Rightarrow> nat option \<Rightarrow> packet \<Rightarrow> packet option" where
  "put_window_size_tlv L window p = (case window of None \<Rightarrow> Some p
     | Some w \<Rightarrow> put_tlv L (new_window_size (of_nat (min w 65535))) p)"

definition send_hello_request :: "('k, 'v) tlv_lib \<Rightarrow> nat option \<Rightarrow> 'k \<Rightarrow> packet option" where
  "send_hello_request L window a2a_dh_pubkey = do {
     p \<leftarrow> new_heap_packet;
     p \<leftarrow> alloc_header [] p;
     p \<leftarrow> put_window_size_tlv L window p;
     p \<leftarrow> put_tlv L (new_a2a_dh_pubkey a2a_dh_pubkey) p;
     send_non_flow_mgmt Pkt_HelloRequest p
   }"

text \<open>\<open>idp_json\<close> serialises the description of an identity provider.\<close>

abbreviation (input) HELLO_RESPONSE_TAILROOM :: nat where "HELLO_RESPONSE_TAILROOM \<equiv> 32"

fun put_oidc_idps ::
    "('k, 'v) tlv_lib \<Rightarrow> (oidc_idp_info \<Rightarrow> bytes option) \<Rightarrow> oidc_idp_info list \<Rightarrow> packet \<Rightarrow> packet option" where
  "put_oidc_idps L idp_json [] p = Some p"
| "put_oidc_idps L idp_json (idp # idps) p = (case new_oidc_idp (idp_json idp) of
     Inr enc \<Rightarrow> do {
       room \<leftarrow> remaining_mut p;
       len \<leftarrow> encoded_len enc;
       if room < len + HELLO_RESPONSE_TAILROOM then Some p
       else do { p \<leftarrow> put_tlv L enc p; put_oidc_idps L idp_json idps p }
     }
   | Inl _ \<Rightarrow> put_oidc_idps L idp_json idps p)"

definition send_hello_success_response ::
    "('k, 'v) tlv_lib \<Rightarrow> (oidc_idp_info \<Rightarrow> bytes option) \<Rightarrow> bytes \<Rightarrow> nat option \<Rightarrow> u64 \<Rightarrow> oidc_idp_info list \<Rightarrow>
     ip_addr option \<Rightarrow> packet option" where
  "send_hello_success_response L idp_json version window policy_id oidc_idps aaa_address = do {
     p \<leftarrow> new_heap_packet;
     p \<leftarrow> alloc_header [0] p;
     p \<leftarrow> put_tlv L (new_policy_id policy_id) p;
     p \<leftarrow> put_tlv L (new_version version) p;
     p \<leftarrow> put_window_size_tlv L window p;
     p \<leftarrow> put_oidc_idps L idp_json oidc_idps p;
     p \<leftarrow> (case aaa_address of None \<Rightarrow> Some p | Some a \<Rightarrow> put_tlv L (new_aaa a) p);
     send_non_flow_mgmt Pkt_HelloResponse p
   }"

definition build_init_authentication_request :: "u8 \<Rightarrow> init_auth_payload \<Rightarrow> packet option" where
  "build_init_authentication_request flags payload = do {
     p \<leftarrow> new_heap_packet;
     p \<leftarrow> append_bytes ([flags] @ be16 48) p;
     p \<leftarrow> append_bytes (challenge_of payload) p;
     send_non_flow_mgmt Pkt_InitAuthenticationRequest p
   }"

definition send_renew_authentication_request :: "init_auth_payload \<Rightarrow> packet option" where
  "send_renew_authentication_request payload = do {
     p \<leftarrow> new_heap_packet;
     p \<leftarrow> append_bytes (be16 48) p;
     p \<leftarrow> append_bytes (challenge_of payload) p;
     send_non_flow_mgmt Pkt_RenewAuthenticationRequest p
   }"

definition send_renew_authentication_response :: "u8 \<Rightarrow> bytes \<Rightarrow> bytes \<Rightarrow> packet option" where
  "send_renew_authentication_response status_code challenge blob = do {
     p \<leftarrow> new_heap_packet;
     p \<leftarrow> append_bytes ([status_code] @ be16 (of_nat (length blob)) @ challenge) p;
     p \<leftarrow> append_bytes blob p;
     send_non_flow_mgmt Pkt_RenewAuthenticationResponse p
   }"

definition ip_addr_l3_type :: "net_lib \<Rightarrow> ip_addr \<Rightarrow> u8" where
  "ip_addr_l3_type N a = (case a of V4 _ \<Rightarrow> L3_Ipv4 N | V6 _ \<Rightarrow> L3_Ipv6 N)"

definition addresses_l3_type :: "net_lib \<Rightarrow> ip_addr list \<Rightarrow> u8" where
  "addresses_l3_type N addrs = (case addrs of [] \<Rightarrow> L3_Ipv6 N | a # _ \<Rightarrow> ip_addr_l3_type N a)"

fun put_addresses :: "net_lib \<Rightarrow> u8 \<Rightarrow> ip_addr list \<Rightarrow> packet \<Rightarrow> packet option" where
  "put_addresses N ip_version [] p = Some p"
| "put_addresses N ip_version (a # addrs) p = do {
     p \<leftarrow> (case a of
         V4 octets \<Rightarrow> do { ensure (ip_version = L3_Ipv4 N); append_bytes octets p }
       | V6 octets \<Rightarrow> do { ensure (ip_version = L3_Ipv6 N); append_bytes octets p });
     put_addresses N ip_version addrs p
   }"

definition send_acquire_zpr_address_request ::
    "net_lib \<Rightarrow> ip_addr list \<Rightarrow> bytes option \<Rightarrow> packet option" where
  "send_acquire_zpr_address_request N actor_addrs blob = (let blob = (case blob of None \<Rightarrow> [] | Some b \<Rightarrow> b) in do {
     p \<leftarrow> new_heap_packet;
     let ip_version = addresses_l3_type N actor_addrs;
     p \<leftarrow> append_bytes (be16 (of_nat (length blob)) @ [ip_version, of_nat (length actor_addrs)]) p;
     p \<leftarrow> append_bytes blob p;
     p \<leftarrow> put_addresses N ip_version actor_addrs p;
     send_non_flow_mgmt Pkt_AcquireZprAddress p
   })"

definition send_grant_zpr_address_request :: "net_lib \<Rightarrow> u8 \<Rightarrow> ip_addr list \<Rightarrow> packet option" where
  "send_grant_zpr_address_request N status_code actor_addrs = do {
     p \<leftarrow> new_heap_packet;
     let ip_version = addresses_l3_type N actor_addrs;
     p \<leftarrow> append_bytes [status_code, ip_version, of_nat (length actor_addrs)] p;
     p \<leftarrow> put_addresses N ip_version actor_addrs p;
     send_non_flow_mgmt Pkt_GrantZprAddress p
   }"

definition send_terminate_link_or_docking_session :: "u8 \<Rightarrow> packet option" where
  "send_terminate_link_or_docking_session reason = do {
     p \<leftarrow> new_heap_packet;
     p \<leftarrow> push_header [reason, 0] p;
     send_non_flow_mgmt Pkt_TerminateLink p
   }"

definition send_report :: "bytes \<Rightarrow> packet option" where
  "send_report report = do {
     p \<leftarrow> new_heap_packet;
     p \<leftarrow> alloc_header (be16 (of_nat (length report))) p;
     p \<leftarrow> append_bytes report p;
     send_non_flow_mgmt Pkt_Report p
   }"

section \<open>Flow messages\<close>

definition send_bind_actor_address_request :: "u16 \<Rightarrow> u8 \<Rightarrow> bytes \<Rightarrow> packet option" where
  "send_bind_actor_address_request txn_id l3 packet_body = (let n = min BIND_REQUEST_MAX_PAYLOAD_LENGTH (length packet_body) in do {
     p \<leftarrow> new_heap_packet;
     p \<leftarrow> alloc_header ([l3] @ be16 (of_nat n)) p;
     p \<leftarrow> append_bytes (take n packet_body) p;
     send_per_flow_txn_mgmt Pkt_BindActorAddressRequest 0 txn_id p
   })"

text \<open>The public key of the peer at the end of a message, with its length.\<close>

definition put_pubkey :: "bytes option \<Rightarrow> packet \<Rightarrow> packet option" where
  "put_pubkey key p = (case key of
     Some k \<Rightarrow> do { p \<leftarrow> append_bytes (be16 (of_nat (length k))) p; append_bytes k p }
   | None \<Rightarrow> append_bytes (be16 0) p)"

text \<open>\<open>tcst\<close> is the wire value of \<open>Tcst::Ip5Tuple\<close>.\<close>

definition send_bind_actor_address_success_response ::
    "net_lib \<Rightarrow> u8 \<Rightarrow> u16 \<Rightarrow> u32 \<Rightarrow> ip5tuple_tc \<Rightarrow> bytes option \<Rightarrow> packet option" where
  "send_bind_actor_address_success_response N tcst txn_id tether_id tc key = do {
     p \<leftarrow> new_heap_packet;
     p \<leftarrow> append_bytes [0, 0] p;
     p \<leftarrow> append_bytes [tcst] p;
     tcb \<leftarrow> serialize_tc N tc;
     p \<leftarrow> append_bytes tcb p;
     p \<leftarrow> put_pubkey key p;
     send_per_flow_txn_mgmt Pkt_BindActorAddressResponse tether_id txn_id p
   }"

definition send_bind_actor_address_error_response :: "u16 \<Rightarrow> bytes \<Rightarrow> packet option" where
  "send_bind_actor_address_error_response txn_id reason = do {
     p \<leftarrow> new_heap_packet;
     reason \<leftarrow> truncate_reason reason;
     p \<leftarrow> append_bytes [1, of_nat (length reason)] p;
     p \<leftarrow> append_bytes reason p;
     send_per_flow_txn_mgmt Pkt_BindActorAddressResponse 0 txn_id p
   }"

definition send_stream_id_request :: "u16 \<Rightarrow> u64 \<Rightarrow> packet option" where
  "send_stream_id_request txn_id visa_id = do {
     p \<leftarrow> new_heap_packet;
     p \<leftarrow> alloc_header (be64 visa_id) p;
     send_per_flow_txn_mgmt Pkt_StreamIdRequest 0 txn_id p
   }"

definition send_stream_id_success_response :: "u16 \<Rightarrow> u32 \<Rightarrow> packet option" where
  "send_stream_id_success_response txn_id tether_id = do {
     p \<leftarrow> new_heap_packet;
     p \<leftarrow> append_bytes [0, 0] p;
     send_per_flow_txn_mgmt Pkt_StreamIdResponse tether_id txn_id p
   }"

definition send_stream_id_error_response :: "u16 \<Rightarrow> bytes \<Rightarrow> packet option" where
  "send_stream_id_error_response txn_id reason = do {
     p \<leftarrow> new_heap_packet;
     reason \<leftarrow> truncate_reason reason;
     p \<leftarrow> append_bytes [1, of_nat (length reason)] p;
     p \<leftarrow> append_bytes reason p;
     send_per_flow_txn_mgmt Pkt_StreamIdResponse 0 txn_id p
   }"

definition send_bind_egress_stream_request ::
    "net_lib \<Rightarrow> u8 \<Rightarrow> u16 \<Rightarrow> ip5tuple_tc \<Rightarrow> bytes option \<Rightarrow> packet option" where
  "send_bind_egress_stream_request N tcst txn_id tc key = do {
     p \<leftarrow> new_heap_packet;
     p \<leftarrow> alloc_header [tcst] p;
     tcb \<leftarrow> serialize_tc N tc;
     p \<leftarrow> append_bytes tcb p;
     p \<leftarrow> put_pubkey key p;
     send_per_flow_txn_mgmt Pkt_BindEgressStreamRequest 0 txn_id p
   }"

definition send_bind_egress_stream_success_response :: "u16 \<Rightarrow> u32 \<Rightarrow> packet option" where
  "send_bind_egress_stream_success_response txn_id tether_id = do {
     p \<leftarrow> new_heap_packet;
     p \<leftarrow> append_bytes [0, 0] p;
     send_per_flow_txn_mgmt Pkt_BindEgressStreamResponse tether_id txn_id p
   }"

definition send_bind_egress_stream_error_response :: "u16 \<Rightarrow> bytes \<Rightarrow> packet option" where
  "send_bind_egress_stream_error_response txn_id reason = do {
     p \<leftarrow> new_heap_packet;
     reason \<leftarrow> truncate_reason reason;
     p \<leftarrow> append_bytes [1, of_nat (length reason)] p;
     p \<leftarrow> append_bytes reason p;
     send_per_flow_txn_mgmt Pkt_BindEgressStreamResponse 0 txn_id p
   }"

definition send_unbind_egress_stream_request :: "u32 \<Rightarrow> packet option" where
  "send_unbind_egress_stream_request stream_id = do {
     p \<leftarrow> new_heap_packet;
     send_per_flow_mgmt Pkt_UnbindEgressStreamIndication stream_id p
   }"

definition send_stream_id_withdrawal :: "u32 \<Rightarrow> packet option" where
  "send_stream_id_withdrawal stream_id = do {
     p \<leftarrow> new_heap_packet;
     send_per_flow_mgmt Pkt_StreamIdWithdrawal stream_id p
   }"

section \<open>What the packets contain\<close>

text \<open>All operations are equations on packets in canonical form.\<close>

lemma append_bytes_lay [lay_simps]:
  "wf_fields m \<Longrightarrow> append_bytes bs (lay m h b t) =
     (if length bs \<le> length t then Some (lay m h (b @ bs) (drop (length bs) t)) else None)"
  by (auto simp: append_bytes_def lay_def write_space_def buf_len_def advance_mut_def remaining_mut_def
      tailroom_available_def set_extent_def put_at_def)

lemma remaining_mut_lay [lay_simps]: "wf_fields m \<Longrightarrow> remaining_mut (lay m h b t) = Some (length t)"
  by (simp add: remaining_mut_def tailroom_available_def lay_def buf_len_def)

lemma alloc_header_lay [lay_simps]:
  "wf_fields m \<Longrightarrow> alloc_header hdr (lay m h b t) =
     (if length hdr \<le> length h then Some (lay m (take (length h - length hdr) h) (hdr @ b) t) else None)"
  by (simp add: alloc_header_def lay_simps put_at_def)

definition heap_md :: metadata where
  "heap_md = metadata_of_bytes (replicate min_body_offset 0)\<lparr>ingress_link_id := 0, ingress_stream_id := 0\<rparr>"

lemma heap_md_fields [simp]: "wf_fields heap_md"
  by (simp add: heap_md_def wf_fields_def metadata_of_bytes_def tuple_of_bytes_def min_body_offset_def)

lemma packet_new_zero:
  "min_body_offset + h \<le> n \<Longrightarrow>
   packet_new (replicate n 0) h = Some (lay heap_md (replicate h 0) [] (replicate (n - h - min_body_offset) 0))"
  by (simp add: packet_new_def new_with_existing_data_def packet_of_buffer_def lay_def heap_md_def
      replicate_add [symmetric])

lemma new_heap_packet_lay [lay_simps]:
  "new_heap_packet = Some (lay heap_md (replicate 256 0) [] (replicate 3760 0))"
  using packet_new_zero [of 256 4096] by (simp add: new_heap_packet_def min_body_offset_def)

lemma new_tiny_heap_packet_lay [lay_simps]:
  "new_tiny_heap_packet = Some (lay heap_md (replicate 64 0) [] (replicate 112 0))"
  using packet_new_zero [of 64 256] by (simp add: new_tiny_heap_packet_def min_body_offset_def)

text \<open>The headers in front of a message, with the sequence number \<open>sn\<close>.\<close>

definition mgmt_frame :: "zdp_packet_type \<Rightarrow> u64 \<Rightarrow> u32 option \<Rightarrow> u16 option \<Rightarrow> bytes \<Rightarrow> bytes" where
  "mgmt_frame t sn stream txn b = [t, 0] @ be64 sn @
     (case stream of None \<Rightarrow> [] | Some s \<Rightarrow> be32 s) @ (case txn of None \<Rightarrow> [] | Some x \<Rightarrow> be16 x) @ b"

lemma to_be_zero: "to_be k 0 = replicate k 0"
  by (induction k) (simp_all add: replicate_append_same)

lemma be64_zero: "be64 0 = replicate 8 0"
  unfolding be64_def unat_0 to_be_zero ..

lemma send_mgmt_helper_lay:
  assumes "wf_fields m" "t \<noteq> Pkt_KeyManagement" "(stream \<noteq> None) = is_per_flow t" "16 \<le> length h"
  shows "\<exists>h'. send_mgmt_helper t stream txn (lay m h b tr) = Some (lay m h' (mgmt_frame t 0 stream txn b) tr)"
  unfolding send_mgmt_helper_def mgmt_frame_def be64_zero using assms
  by (cases stream; cases txn) (simp_all add: lay_simps del: replicate.simps, arith+)

end
