(* ===== verification/Mgmt_Handlers.thy ===== *)
theory Mgmt_Handlers
  imports Mgmt_Wire Link_State
begin

text \<open>
  The handlers of management messages (\<open>mgmt_processor_worker.rs\<close>, \<open>mgmt/handlers.rs\<close>, and the
  key management handler of \<open>mgmt/dispatch.rs\<close>).  A handler decodes the body of a packet and
  returns the error, or the operation of the process that it calls; options of the hello
  exchange also take effect while they are read.  What a handler reads from the process is
  the record \<open>mgmt_env\<close>.  \<open>None\<close> is a panic.
\<close>

section \<open>Results\<close>

datatype handle_mgmt_error = UnknownType u8 | MessageNotPermitted | MalformedMessage
  | UnknownTransaction | LinkStateFailure link_state_error | LinkClosed

datatype management_counter = Cnt_UnknownType | Cnt_BadStructure | Cnt_OtherError | Cnt_UnknownTransaction

definition counter_of_error :: "handle_mgmt_error \<Rightarrow> management_counter" where
  "counter_of_error e = (case e of
     UnknownType _ \<Rightarrow> Cnt_UnknownType
   | MalformedMessage \<Rightarrow> Cnt_BadStructure
   | MessageNotPermitted \<Rightarrow> Cnt_OtherError
   | UnknownTransaction \<Rightarrow> Cnt_UnknownTransaction
   | LinkStateFailure _ \<Rightarrow> Cnt_OtherError
   | LinkClosed \<Rightarrow> Cnt_OtherError)"

datatype peer_type = Peer_Adapter | Peer_Dock | Peer_Node | Peer_Unknown

text \<open>The calls a handler ends with.\<close>

datatype mgmt_call =
    Nothing_More
  | Log_Report bytes
  | Raise link_event
  | Bind_Actor_Address u32 u16 u8 bytes
  | Request_Stream u32 u16 u64
  | Bind_Egress_Stream u32 u16 ip5tuple_tc "bytes option"
  | Adapter_Install_Tether u16 u32 ip5tuple_tc "bytes option"
  | Adapter_Deny_Tether u16 bytes
  | Node_Install_Tether u32 u16 u32
  | Node_Deny_Tether u32 u16 bytes
  | Node_Unbind_Stream u32 u32
  | Adapter_Unbind_Stream u32 u32
  | Withdraw_Tether u32

datatype 'k hello_effect = Adjust_Window_Size nat | Set_A2a_Dh_Pubkey 'k

text \<open>
  The peer table (the type of a link, if its peer exists), the open transactions of a link,
  the mode of the process, the order in which a hash map of options is traversed, and
  libraries: networking, options, the wire value of \<open>Tcst::Ip5Tuple\<close> and the JSON decoder.
\<close>

record ('k, 'v) mgmt_env =
  me_net :: net_lib
  me_tlv :: "('k, 'v) tlv_lib"
  me_tcst :: u8
  me_idp_of_json :: "bytes \<Rightarrow> oidc_idp_info option"
  me_link_type :: "u32 \<Rightarrow> link_type option"
  me_txn_open :: "u32 \<Rightarrow> u16 \<Rightarrow> bool"
  me_node_mode :: bool
  me_local_actor_link :: u32
  me_dock_link :: u32
  me_ip_of_std :: "ip_addr \<Rightarrow> ip"
  me_tlv_order :: "tlv_type list"

type_synonym handled = "(handle_mgmt_error + mgmt_call) option"

abbreviation (input) malformed :: handled where "malformed \<equiv> Some (Inl MalformedMessage)"
abbreviation (input) calls :: "mgmt_call \<Rightarrow> handled" where "calls c \<equiv> Some (Inr c)"

text \<open>\<open>T::read_from_buf\<close> for a header of \<open>n\<close> bytes; here \<open>None\<close> is its error.\<close>

definition read_from_buf :: "nat \<Rightarrow> bytes \<Rightarrow> (bytes \<times> bytes) option" where
  "read_from_buf n bs = (if n \<le> length bs then Some (take n bs, drop n bs) else None)"

text \<open>A string as the list of its UTF-8 bytes, in the type that the link state machine uses.\<close>

definition utf8_string :: "bytes \<Rightarrow> string" where
  "utf8_string bs = map (\<lambda>b. char_of (unat b)) bs"

definition peer_type_by_id :: "('k, 'v) mgmt_env \<Rightarrow> u32 \<Rightarrow> peer_type" where
  "peer_type_by_id E link_id = (case me_link_type E link_id of
     None \<Rightarrow> Peer_Unknown
   | Some Internal \<Rightarrow> if link_id = me_local_actor_link E then Peer_Adapter
       else if link_id = me_dock_link E then Peer_Dock else Peer_Unknown
   | Some NodeToAdapter \<Rightarrow> Peer_Adapter
   | Some AdapterToNode \<Rightarrow> Peer_Dock
   | Some NodeToNode \<Rightarrow> Peer_Node)"

section \<open>Link messages\<close>

definition handle_report :: "bytes \<Rightarrow> handled" where
  "handle_report bs = (case read_from_buf 2 bs of None \<Rightarrow> malformed
   | Some (hdr, bs) \<Rightarrow> do {
       let report_data_length = unat (get16 hdr);
       bs \<leftarrow> advance_bytes 2 bs;
       if length bs \<ge> report_data_length then do {
         ensure (valid_utf8 (take report_data_length bs));
         calls (Log_Report (take report_data_length bs))
       } else calls Nothing_More
     })"

definition handle_discard :: "bytes \<Rightarrow> handled" where
  "handle_discard bs = calls Nothing_More"

definition handle_echo_request :: "bytes \<Rightarrow> handled" where
  "handle_echo_request bs = calls Nothing_More"

abbreviation (input) BOOTSTRAP_SUPPORT :: u8 where "BOOTSTRAP_SUPPORT \<equiv> 1"

definition handle_init_authentication_request :: "bytes \<Rightarrow> handled" where
  "handle_init_authentication_request bs = (case read_from_buf 3 bs of None \<Rightarrow> malformed
   | Some (hdr, bs) \<Rightarrow>
       let is_bootstrap = (hdr ! 0 AND BOOTSTRAP_SUPPORT \<noteq> 0); data_len = get16 (drop 1 hdr) in
       if is_bootstrap then
         if data_len = 0 then malformed
         else if data_len < 48 then malformed
         else if length bs < unat data_len then malformed
         else (case read_from_buf 48 bs of None \<Rightarrow> malformed
           | Some (payload, bs) \<Rightarrow> calls (Raise (ReceivedInitAuth is_bootstrap (Some (payload_of_bytes payload)))))
       else calls (Raise (ReceivedInitAuth is_bootstrap None)))"

definition handle_renew_authentication_request :: "bytes \<Rightarrow> handled" where
  "handle_renew_authentication_request bs = (case read_from_buf 2 bs of None \<Rightarrow> malformed
   | Some (hdr, bs) \<Rightarrow>
       if unat (get16 hdr) < 48 then malformed
       else if length bs < unat (get16 hdr) then malformed
       else (case read_from_buf 48 bs of None \<Rightarrow> malformed
         | Some (payload, bs) \<Rightarrow> calls (Raise (ReceivedRenewAuthRequest (payload_of_bytes payload)))))"

definition handle_renew_authentication_response :: "bytes \<Rightarrow> handled" where
  "handle_renew_authentication_response bs = (case read_from_buf 51 bs of None \<Rightarrow> malformed
   | Some (hdr, bs) \<Rightarrow>
       let status = hdr ! 0; blen = unat (get16 (drop 1 hdr)); challenge = drop 3 hdr in
       if status = RC_Success then
         if blen = 0 then malformed
         else if length bs < blen then malformed
         else if \<not> valid_utf8 (take blen bs) then malformed
         else calls (Raise (ReceivedRenewAuthResponse challenge (Inr (utf8_string (take blen bs)))))
       else calls (Raise (ReceivedRenewAuthResponse challenge (Inl status))))"

definition handle_terminate_link_or_docking_session :: "bytes \<Rightarrow> handled" where
  "handle_terminate_link_or_docking_session bs = (case read_from_buf 2 bs of None \<Rightarrow> malformed
   | Some (hdr, bs) \<Rightarrow> calls (Raise (ReceivedTerminateLink (hdr ! 0))))"

text \<open>
  The addresses at the end of an acquire or grant message; \<open>None\<close> is the error.  The layer-3
  type has been checked by both callers.
\<close>

fun read_addresses :: "net_lib \<Rightarrow> u8 \<Rightarrow> nat \<Rightarrow> bytes \<Rightarrow> ip list option" where
  "read_addresses N ip_version 0 bs = Some []"
| "read_addresses N ip_version (Suc n) bs =
     (if ip_version = L3_Ipv4 N then (case read_from_buf 4 bs of None \<Rightarrow> None
        | Some (a, bs) \<Rightarrow> map_option (\<lambda>as. from_octets4 N a # as) (read_addresses N ip_version n bs))
      else if ip_version = L3_Ipv6 N then (case read_from_buf 16 bs of None \<Rightarrow> None
        | Some (a, bs) \<Rightarrow> map_option (\<lambda>as. from_octets16 N a # as) (read_addresses N ip_version n bs))
      else None)"

definition address_bytes_needed :: "net_lib \<Rightarrow> u8 \<Rightarrow> u8 \<Rightarrow> nat option" where
  "address_bytes_needed N ip_version addr_count =
     (if ip_version = L3_Ipv4 N then Some (4 * unat addr_count)
      else if ip_version = L3_Ipv6 N then Some (16 * unat addr_count) else None)"

definition parse_acquire_zpr_address_request ::
    "net_lib \<Rightarrow> bytes \<Rightarrow> handle_mgmt_error + ip list option \<times> bytes" where
  "parse_acquire_zpr_address_request N bs = (case read_from_buf 4 bs of None \<Rightarrow> Inl MalformedMessage
   | Some (hdr, bs) \<Rightarrow>
       let blen = unat (get16 hdr); ip_version = hdr ! 2; addr_count = hdr ! 3 in
       if blen = 0 then Inl MalformedMessage
       else if length bs < blen then Inl MalformedMessage
       else if \<not> valid_utf8 (take blen bs) then Inl MalformedMessage
       else let blob = take blen bs; bs = drop blen bs in
         if addr_count > 0 then (case address_bytes_needed N ip_version addr_count of
             None \<Rightarrow> Inl MalformedMessage
           | Some bytes_needed \<Rightarrow>
               if length bs < bytes_needed then Inl MalformedMessage
               else (case read_addresses N ip_version (unat addr_count) bs of
                   None \<Rightarrow> Inl MalformedMessage | Some addrs \<Rightarrow> Inr (Some addrs, blob)))
         else Inr (None, blob))"

definition parse_grant_zpr_address_request ::
    "net_lib \<Rightarrow> bytes \<Rightarrow> handle_mgmt_error + (response_code + ip list)" where
  "parse_grant_zpr_address_request N bs = (case read_from_buf 3 bs of None \<Rightarrow> Inl MalformedMessage
   | Some (hdr, bs) \<Rightarrow>
       let status_code = hdr ! 0; ip_version = hdr ! 1; addr_count = hdr ! 2 in
       if status_code \<noteq> RC_Success then Inr (Inl status_code)
       else (case address_bytes_needed N ip_version addr_count of
           None \<Rightarrow> Inl MalformedMessage
         | Some bytes_needed \<Rightarrow>
             if length bs < bytes_needed then Inl MalformedMessage
             else (case read_addresses N ip_version (unat addr_count) bs of
                 None \<Rightarrow> Inl MalformedMessage | Some addrs \<Rightarrow> Inr (Inr addrs))))"

definition handle_acquire_zpr_address_request :: "('k, 'v) mgmt_env \<Rightarrow> bytes \<Rightarrow> handled" where
  "handle_acquire_zpr_address_request E bs = (case parse_acquire_zpr_address_request (me_net E) bs of
     Inl _ \<Rightarrow> malformed
   | Inr (actor_addresses, blob) \<Rightarrow>
       calls (Raise (ReceivedAcquireZprAddressRequest actor_addresses (utf8_string blob))))"

definition handle_grant_zpr_address_request :: "('k, 'v) mgmt_env \<Rightarrow> bytes \<Rightarrow> handled" where
  "handle_grant_zpr_address_request E bs = (case parse_grant_zpr_address_request (me_net E) bs of
     Inr (Inr actor_addresses) \<Rightarrow>
       if actor_addresses = [] then malformed
       else calls (Raise (ReceivedGrantZprAddressRequest (Inr actor_addresses)))
   | Inr (Inl c) \<Rightarrow> calls (Raise (ReceivedGrantZprAddressRequest (Inl c)))
   | Inl _ \<Rightarrow> malformed)"

section \<open>The hello exchange\<close>

fun process_window_size_tlv :: "bool \<Rightarrow> ('k, 'v) tlv_value list \<Rightarrow> 'k hello_effect list \<times> (handle_mgmt_error + unit)" where
  "process_window_size_tlv peer [] = ([], Inr ())"
| "process_window_size_tlv peer (entry # vs) = (case entry of
     TU16 window_size \<Rightarrow> (case process_window_size_tlv peer vs of (effs, r) \<Rightarrow>
       ((if window_size < 1 \<or> \<not> peer then [] else [Adjust_Window_Size (unat window_size)]) @ effs, r))
   | _ \<Rightarrow> ([], Inl MalformedMessage))"

fun process_a2a_dh_pubkey_tlv :: "bool \<Rightarrow> ('k, 'v) tlv_value list \<Rightarrow> 'k hello_effect list \<times> (handle_mgmt_error + unit)" where
  "process_a2a_dh_pubkey_tlv peer [] = ([], Inr ())"
| "process_a2a_dh_pubkey_tlv peer (entry # vs) = (case entry of
     TKey pubkey \<Rightarrow> (case process_a2a_dh_pubkey_tlv peer vs of (effs, r) \<Rightarrow>
       ((if peer then [Set_A2a_Dh_Pubkey pubkey] else []) @ effs, r))
   | _ \<Rightarrow> ([], Inl MalformedMessage))"

fun hello_request_options ::
    "bool \<Rightarrow> ('k, 'v) tlv_map \<Rightarrow> tlv_type list \<Rightarrow> 'k hello_effect list \<times> (handle_mgmt_error + unit)" where
  "hello_request_options peer tlv_data [] = ([], Inr ())"
| "hello_request_options peer tlv_data (t # order) =
     (case (case tlv_data t of None \<Rightarrow> ([], Inr ())
        | Some tlv_value \<Rightarrow>
            if t = WINDOW_SIZE then process_window_size_tlv peer tlv_value
            else if t = A2A_DH_PUBKEY then process_a2a_dh_pubkey_tlv peer tlv_value
            else ([], Inr ())) of
        (effs, Inl e) \<Rightarrow> (effs, Inl e)
      | (effs, Inr _) \<Rightarrow> (case hello_request_options peer tlv_data order of (rest, r) \<Rightarrow> (effs @ rest, r)))"

definition handle_hello_request ::
    "('k, 'v) mgmt_env \<Rightarrow> u32 \<Rightarrow> bytes \<Rightarrow> ('k hello_effect list \<times> (handle_mgmt_error + mgmt_call)) option" where
  "handle_hello_request E link_id bs =
     (if \<not> me_node_mode E then Some ([], Inl MessageNotPermitted)
      else do {
        (tlv_data, _) \<leftarrow> parse_from_buf (me_tlv E) bs;
        Some (case tlv_data of Inl _ \<Rightarrow> ([], Inl MalformedMessage)
          | Inr tlv_data \<Rightarrow>
              (case hello_request_options (me_link_type E link_id \<noteq> None) tlv_data (me_tlv_order E) of
                 (effs, Inl e) \<Rightarrow> (effs, Inl e)
               | (effs, Inr _) \<Rightarrow> (effs, Inr (Raise ReceivedHelloRequest))))
      })"

fun read_aaa :: "('k, 'v) mgmt_env \<Rightarrow> ('k, 'v) tlv_value list \<Rightarrow> ip option \<Rightarrow> handle_mgmt_error + ip option" where
  "read_aaa E [] aaa = Inr aaa"
| "read_aaa E (aaa_entry # vs) aaa =
     (if aaa \<noteq> None then Inl MalformedMessage
      else (case aaa_entry of
          TIpv4 ipa \<Rightarrow> read_aaa E vs (Some (me_ip_of_std E (V4 ipa)))
        | TIpv6 ipa \<Rightarrow> read_aaa E vs (Some (me_ip_of_std E (V6 ipa)))
        | _ \<Rightarrow> Inl MalformedMessage))"

fun read_oidc_idps :: "('k, 'v) mgmt_env \<Rightarrow> ('k, 'v) tlv_value list \<Rightarrow> handle_mgmt_error + oidc_idp_info list" where
  "read_oidc_idps E [] = Inr []"
| "read_oidc_idps E (idp_entry # vs) = (case idp_entry of
     TStr json \<Rightarrow> map_sum (\<lambda>e. e)
       (\<lambda>idps. (case me_idp_of_json E json of Some idp \<Rightarrow> idp # idps | None \<Rightarrow> idps)) (read_oidc_idps E vs)
   | _ \<Rightarrow> Inl MalformedMessage)"

text \<open>The loop over the options of a hello response, with the address and providers found so far.\<close>

fun hello_response_options ::
    "('k, 'v) mgmt_env \<Rightarrow> bool \<Rightarrow> ('k, 'v) tlv_map \<Rightarrow> tlv_type list \<Rightarrow> ip option \<Rightarrow> oidc_idp_info list \<Rightarrow>
     ('k hello_effect list \<times> (handle_mgmt_error + ip option \<times> oidc_idp_info list)) option" where
  "hello_response_options E peer tlv_data [] aaa oidc_idps = Some ([], Inr (aaa, oidc_idps))"
| "hello_response_options E peer tlv_data (t # order) aaa oidc_idps =
     (case tlv_data t of None \<Rightarrow> hello_response_options E peer tlv_data order aaa oidc_idps
      | Some tlv_value \<Rightarrow>
          if t = VERSION \<or> t = POLICY_ID then do {
            ensure (tlv_value \<noteq> []);
            hello_response_options E peer tlv_data order aaa oidc_idps
          }
          else if t = WINDOW_SIZE then (case process_window_size_tlv peer tlv_value of
              (effs, Inl e) \<Rightarrow> Some (effs, Inl e)
            | (effs, Inr _) \<Rightarrow> do {
                (rest, r) \<leftarrow> hello_response_options E peer tlv_data order aaa oidc_idps;
                Some (effs @ rest, r)
              })
          else if t = AAA then (case read_aaa E tlv_value aaa of
              Inl e \<Rightarrow> Some ([], Inl e)
            | Inr aaa \<Rightarrow> hello_response_options E peer tlv_data order aaa oidc_idps)
          else if t = OIDC_IDP then (case read_oidc_idps E tlv_value of
              Inl e \<Rightarrow> Some ([], Inl e)
            | Inr idps \<Rightarrow> hello_response_options E peer tlv_data order aaa (oidc_idps @ idps))
          else hello_response_options E peer tlv_data order aaa oidc_idps)"

definition parse_hello_response ::
    "('k, 'v) mgmt_env \<Rightarrow> u32 \<Rightarrow> bytes \<Rightarrow> ('k hello_effect list \<times> (handle_mgmt_error + link_event)) option" where
  "parse_hello_response E link_id bs = (case read_from_buf 1 bs of None \<Rightarrow> Some ([], Inl MalformedMessage)
   | Some (hdr, bs) \<Rightarrow> do {
       (tlv_data, _) \<leftarrow> parse_from_buf (me_tlv E) bs;
       case tlv_data of Inl _ \<Rightarrow> Some ([], Inl MalformedMessage)
       | Inr tlv_data \<Rightarrow> do {
           (effs, r) \<leftarrow> hello_response_options E (me_link_type E link_id \<noteq> None) tlv_data (me_tlv_order E) None [];
           Some (effs, case r of Inl e \<Rightarrow> Inl e
             | Inr (aaa, oidc_idps) \<Rightarrow> Inr (ReceivedHelloResponse (hdr ! 0) aaa
                 (if oidc_idps = [] then None else Some oidc_idps)))
         }
     })"

definition handle_hello_response ::
    "('k, 'v) mgmt_env \<Rightarrow> u32 \<Rightarrow> bytes \<Rightarrow> ('k hello_effect list \<times> (handle_mgmt_error + mgmt_call)) option" where
  "handle_hello_response E link_id bs = do {
     (effs, r) \<leftarrow> parse_hello_response E link_id bs;
     Some (effs, case r of Inl e \<Rightarrow> Inl e | Inr event \<Rightarrow> Inr (Raise event))
   }"

section \<open>Flow messages\<close>

definition handle_bind_actor_address_request :: "('k, 'v) mgmt_env \<Rightarrow> u32 \<Rightarrow> u16 \<Rightarrow> bytes \<Rightarrow> handled" where
  "handle_bind_actor_address_request E link_id txn_id bs = (case read_from_buf 3 bs of None \<Rightarrow> malformed
   | Some (hdr, bs) \<Rightarrow>
       let l3 = hdr ! 0; endpoint_packet_length = unat (get16 (drop 1 hdr)) in
       if endpoint_packet_length > length bs then malformed
       else if link_id = 0 then calls Nothing_More
       else if peer_type_by_id E link_id \<noteq> Peer_Adapter then Some (Inl MessageNotPermitted)
       else calls (Bind_Actor_Address link_id txn_id l3 (take endpoint_packet_length bs)))"

definition handle_stream_id_request :: "('k, 'v) mgmt_env \<Rightarrow> u32 \<Rightarrow> u16 \<Rightarrow> bytes \<Rightarrow> handled" where
  "handle_stream_id_request E link_id txn_id bs = (case read_from_buf 8 bs of None \<Rightarrow> malformed
   | Some (req, bs) \<Rightarrow>
       if link_id = 0 then calls Nothing_More
       else if peer_type_by_id E link_id \<noteq> Peer_Node then Some (Inl MessageNotPermitted)
       else calls (Request_Stream link_id txn_id (get64 req)))"

text \<open>The optional public key at the end of a message; \<open>None\<close> is the error.\<close>

abbreviation (input) X25519_KEY_LEN :: nat where "X25519_KEY_LEN \<equiv> 32"

definition read_pubkey :: "bytes \<Rightarrow> bytes option option" where
  "read_pubkey bs =
     (if length bs < 2 then None
      else let key_len = unat (get16 bs); bs = drop 2 bs in
        if key_len = 0 then Some None
        else if length bs < key_len then None
        else if key_len \<noteq> X25519_KEY_LEN then None
        else Some (Some (take key_len bs)))"

definition handle_bind_egress_stream_request :: "('k, 'v) mgmt_env \<Rightarrow> u32 \<Rightarrow> u16 \<Rightarrow> bytes \<Rightarrow> handled" where
  "handle_bind_egress_stream_request E link_id txn_id bs = (case read_from_buf 1 bs of None \<Rightarrow> malformed
   | Some (hdr, bs) \<Rightarrow>
       if hdr ! 0 \<noteq> me_tcst E then malformed
       else (case deserialize_tc (me_net E) bs of None \<Rightarrow> malformed
         | Some (tc, bs) \<Rightarrow> (case read_pubkey bs of None \<Rightarrow> malformed
             | Some key \<Rightarrow>
                 if link_id = 0 then calls Nothing_More
                 else if peer_type_by_id E link_id \<noteq> Peer_Dock then Some (Inl MessageNotPermitted)
                 else calls (Bind_Egress_Stream link_id txn_id tc key))))"

definition handle_bind_actor_address_response :: "('k, 'v) mgmt_env \<Rightarrow> u32 \<Rightarrow> u32 \<Rightarrow> u16 \<Rightarrow> bytes \<Rightarrow> handled" where
  "handle_bind_actor_address_response E link_id stream_id txn_id bs =
     (if me_link_type E link_id = None then Some (Inl LinkClosed)
      else if \<not> me_txn_open E link_id txn_id then Some (Inl UnknownTransaction)
      else (case read_from_buf 2 bs of None \<Rightarrow> malformed
        | Some (hdr, bs) \<Rightarrow>
            let status_code = hdr ! 0; info_len = unat (hdr ! 1) in
            if status_code = RC_Success then (case read_from_buf 1 bs of None \<Rightarrow> malformed
              | Some (tcst, bs) \<Rightarrow>
                  if tcst ! 0 \<noteq> me_tcst E then malformed
                  else (case deserialize_tc (me_net E) bs of None \<Rightarrow> malformed
                    | Some (tc, bs) \<Rightarrow> (case read_pubkey bs of None \<Rightarrow> malformed
                        | Some key \<Rightarrow> calls (Adapter_Install_Tether txn_id stream_id tc key))))
            else if status_code = RC_Other then
              if info_len > length bs then malformed
              else if \<not> valid_utf8 (take info_len bs) then malformed
              else calls (Adapter_Deny_Tether txn_id (take info_len bs))
            else malformed))"

text \<open>The two responses that a node gets have the same body.\<close>

definition handle_node_response :: "('k, 'v) mgmt_env \<Rightarrow> u32 \<Rightarrow> u32 \<Rightarrow> u16 \<Rightarrow> bytes \<Rightarrow> handled" where
  "handle_node_response E link_id stream_id txn_id bs =
     (if me_link_type E link_id = None then Some (Inl LinkClosed)
      else if \<not> me_txn_open E link_id txn_id then Some (Inl UnknownTransaction)
      else (case read_from_buf 2 bs of None \<Rightarrow> malformed
        | Some (hdr, bs) \<Rightarrow>
            let status_code = hdr ! 0; info_len = unat (hdr ! 1) in
            if status_code = RC_Success then do {
              ensure (link_id \<noteq> 0);
              calls (Node_Install_Tether link_id txn_id stream_id)
            }
            else if status_code = RC_Other then
              if info_len > length bs then malformed
              else if \<not> valid_utf8 (take info_len bs) then malformed
              else do { ensure (link_id \<noteq> 0); calls (Node_Deny_Tether link_id txn_id (take info_len bs)) }
            else malformed))"

definition handle_stream_id_response :: "('k, 'v) mgmt_env \<Rightarrow> u32 \<Rightarrow> u32 \<Rightarrow> u16 \<Rightarrow> bytes \<Rightarrow> handled" where
  "handle_stream_id_response E link_id stream_id txn_id bs = handle_node_response E link_id stream_id txn_id bs"

definition handle_bind_egress_stream_response :: "('k, 'v) mgmt_env \<Rightarrow> u32 \<Rightarrow> u32 \<Rightarrow> u16 \<Rightarrow> bytes \<Rightarrow> handled" where
  "handle_bind_egress_stream_response E link_id stream_id txn_id bs = handle_node_response E link_id stream_id txn_id bs"

definition handle_unbind_indication :: "('k, 'v) mgmt_env \<Rightarrow> u32 \<Rightarrow> u32 \<Rightarrow> handled" where
  "handle_unbind_indication E link_id stream_id =
     (if link_id = 0 then calls Nothing_More
      else (case me_link_type E link_id of
          None \<Rightarrow> Some (Inl LinkClosed)
        | Some NodeToAdapter \<Rightarrow> calls (Node_Unbind_Stream link_id stream_id)
        | Some AdapterToNode \<Rightarrow> calls (Adapter_Unbind_Stream link_id stream_id)
        | Some NodeToNode \<Rightarrow> Some (Inl MessageNotPermitted)
        | Some Internal \<Rightarrow>
            if link_id = me_local_actor_link E then calls (Node_Unbind_Stream link_id stream_id)
            else if link_id = me_dock_link E then calls (Adapter_Unbind_Stream link_id stream_id)
            else Some (Inl MessageNotPermitted)))"

definition handle_stream_id_withdrawal :: "('k, 'v) mgmt_env \<Rightarrow> u32 \<Rightarrow> u32 \<Rightarrow> handled" where
  "handle_stream_id_withdrawal E link_id stream_id =
     (if link_id = 0 then calls Nothing_More
      else (case me_link_type E link_id of
          None \<Rightarrow> Some (Inl LinkClosed)
        | Some AdapterToNode \<Rightarrow> calls (Withdraw_Tether stream_id)
        | Some NodeToAdapter \<Rightarrow> Some (Inl MessageNotPermitted)
        | Some NodeToNode \<Rightarrow> Some (Inl MessageNotPermitted)
        | Some Internal \<Rightarrow>
            if link_id = me_dock_link E then calls (Withdraw_Tether stream_id)
            else Some (Inl MessageNotPermitted)))"

section \<open>Dispatch\<close>

abbreviation (input) no_effects :: "handled \<Rightarrow> ('k hello_effect list \<times> (handle_mgmt_error + mgmt_call)) option" where
  "no_effects h \<equiv> map_option (Pair []) h"

text \<open>A flow message that starts with a transaction identifier.\<close>

definition with_txn :: "bytes \<Rightarrow> (u16 \<Rightarrow> bytes \<Rightarrow> handled) \<Rightarrow> handled" where
  "with_txn bs h = (case read_from_buf 2 bs of None \<Rightarrow> malformed | Some (txn, bs) \<Rightarrow> h (get16 txn) bs)"

definition handle_flow_packet :: "('k, 'v) mgmt_env \<Rightarrow> u32 \<Rightarrow> zdp_packet_type \<Rightarrow> u32 \<Rightarrow> bytes \<Rightarrow> handled" where
  "handle_flow_packet E link_id packet_type stream_id bs =
     (if packet_type = Pkt_Transit then None
      else if packet_type = Pkt_BindActorAddressRequest then
        with_txn bs (handle_bind_actor_address_request E link_id)
      else if packet_type = Pkt_BindActorAddressResponse then
        with_txn bs (handle_bind_actor_address_response E link_id stream_id)
      else if packet_type = Pkt_StreamIdRequest then with_txn bs (handle_stream_id_request E link_id)
      else if packet_type = Pkt_StreamIdResponse then
        with_txn bs (handle_stream_id_response E link_id stream_id)
      else if packet_type = Pkt_BindEgressStreamRequest then
        with_txn bs (handle_bind_egress_stream_request E link_id)
      else if packet_type = Pkt_BindEgressStreamResponse then
        with_txn bs (handle_bind_egress_stream_response E link_id stream_id)
      else if packet_type = Pkt_UnbindEgressStreamIndication then handle_unbind_indication E link_id stream_id
      else if packet_type = Pkt_StreamIdWithdrawal then handle_stream_id_withdrawal E link_id stream_id
      else Some (Inl (UnknownType packet_type)))"

definition handle_non_flow_packet ::
    "('k, 'v) mgmt_env \<Rightarrow> u32 \<Rightarrow> zdp_packet_type \<Rightarrow> bytes \<Rightarrow>
     ('k hello_effect list \<times> (handle_mgmt_error + mgmt_call)) option" where
  "handle_non_flow_packet E link_id packet_type bs =
     (if packet_type = Pkt_Report then no_effects (handle_report bs)
      else if packet_type = Pkt_Discard then no_effects (handle_discard bs)
      else if packet_type = Pkt_Echo then no_effects (handle_echo_request bs)
      else if packet_type = Pkt_KeyManagement then None
      else if packet_type = Pkt_TerminateLink then no_effects (handle_terminate_link_or_docking_session bs)
      else if packet_type = Pkt_HelloRequest then handle_hello_request E link_id bs
      else if packet_type = Pkt_HelloResponse then handle_hello_response E link_id bs
      else if packet_type = Pkt_InitAuthenticationRequest then no_effects (handle_init_authentication_request bs)
      else if packet_type = Pkt_RenewAuthenticationRequest then no_effects (handle_renew_authentication_request bs)
      else if packet_type = Pkt_RenewAuthenticationResponse then no_effects (handle_renew_authentication_response bs)
      else if packet_type = Pkt_AcquireZprAddress then no_effects (handle_acquire_zpr_address_request E bs)
      else if packet_type = Pkt_GrantZprAddress then no_effects (handle_grant_zpr_address_request E bs)
      else Some ([], Inl (UnknownType packet_type)))"

definition handle_packet ::
    "('k, 'v) mgmt_env \<Rightarrow> u32 \<Rightarrow> bytes \<Rightarrow> ('k hello_effect list \<times> (handle_mgmt_error + mgmt_call)) option" where
  "handle_packet E link_id bs = (case read_from_buf 2 bs of None \<Rightarrow> no_effects malformed
   | Some (base_hdr, bs) \<Rightarrow> (case read_from_buf 8 bs of None \<Rightarrow> no_effects malformed
     | Some (_, bs) \<Rightarrow>
         let packet_type = base_hdr ! 0 in
         if is_per_flow packet_type then (case read_from_buf 4 bs of None \<Rightarrow> no_effects malformed
           | Some (per_flow_hdr, bs) \<Rightarrow>
               no_effects (handle_flow_packet E link_id packet_type (get32 per_flow_hdr) bs))
         else handle_non_flow_packet E link_id packet_type bs))"

text \<open>
  Key management messages bypass the session.  \<open>km_impl\<close> is the configured implementation and
  \<open>noise\<close>, \<open>null\<close> the identifiers of two of them; the message goes to the key manager.
\<close>

datatype km_dispatch = Km_BadStructure | Km_OtherError | Km_Message bytes

definition handle_key_management :: "u16 \<Rightarrow> u16 \<Rightarrow> u16 \<Rightarrow> bytes \<Rightarrow> km_dispatch" where
  "handle_key_management noise null km_impl bs = (case read_from_buf 4 bs of None \<Rightarrow> Km_BadStructure
   | Some (km_hdr, bs) \<Rightarrow>
       let message_type = get16 km_hdr; km_msg_len = unat (get16 (drop 2 km_hdr)) in
       if message_type = noise \<and> km_impl \<noteq> noise \<or> message_type = null \<and> km_impl \<noteq> null then Km_OtherError
       else if length bs < km_msg_len then Km_BadStructure
       else Km_Message (take km_msg_len bs))"

section \<open>Handlers without panics\<close>

lemma with_txn_total: "(\<And>x b. h x b \<noteq> None) \<Longrightarrow> with_txn bs h \<noteq> None"
  by (simp add: with_txn_def split: option.split)

lemma bind_handlers_total:
  "handle_bind_actor_address_request E l x bs \<noteq> None" "handle_stream_id_request E l x bs \<noteq> None"
  "handle_bind_egress_stream_request E l x bs \<noteq> None" "handle_unbind_indication E l s \<noteq> None"
  "handle_stream_id_withdrawal E l s \<noteq> None"
  by (simp_all add: handle_bind_actor_address_request_def handle_stream_id_request_def
      handle_bind_egress_stream_request_def handle_unbind_indication_def handle_stream_id_withdrawal_def Let_def
      split: option.split link_type.split)

lemma response_handlers_total:
  "handle_bind_actor_address_response E l s x bs \<noteq> None" "l \<noteq> 0 \<Longrightarrow> handle_node_response E l s x bs \<noteq> None"
  by (simp_all add: handle_bind_actor_address_response_def handle_node_response_def Let_def split: option.split)

lemma link_handlers_total:
  "handle_terminate_link_or_docking_session bs \<noteq> None" "handle_init_authentication_request bs \<noteq> None"
  "handle_renew_authentication_request bs \<noteq> None" "handle_renew_authentication_response bs \<noteq> None"
  "handle_acquire_zpr_address_request E bs \<noteq> None" "handle_grant_zpr_address_request E bs \<noteq> None"
  by (simp_all add: handle_terminate_link_or_docking_session_def handle_init_authentication_request_def
      handle_renew_authentication_request_def handle_renew_authentication_response_def
      handle_acquire_zpr_address_request_def handle_grant_zpr_address_request_def Let_def
      split: option.split sum.split)

end
