(* ===== verification/Mgmt_Roundtrip.thy ===== *)
theory Mgmt_Roundtrip
  imports Mgmt_Handlers
begin

text \<open>
  Sender and receiver of management messages agree: what a \<open>send\<close> function puts on the wire is
  decoded by the handler of the peer into the call it stands for.  Also: when a send panics,
  and which handlers can panic.
\<close>

section \<open>The bytes of each message\<close>

text \<open>The body of the packet once its sequence number is filled in.\<close>

definition on_wire :: "u64 \<Rightarrow> packet option \<Rightarrow> bytes option" where
  "on_wire sn r = do { p \<leftarrow> r; q \<leftarrow> fill_sequence_number sn p; body q }"

lemma put_at_frame: "put_at 2 (be64 sn) (mgmt_frame t sn0 s x b) = mgmt_frame t sn s x b"
  by (simp add: put_at_def mgmt_frame_def)

lemma on_wire_helper:
  assumes "wf_fields m" "t \<noteq> Pkt_KeyManagement" "(s \<noteq> None) = is_per_flow t" "16 \<le> length h"
  shows "on_wire sn (send_mgmt_helper t s x (lay m h b tr)) = Some (mgmt_frame t sn s x b)"
proof -
  obtain h' where "send_mgmt_helper t s x (lay m h b tr) = Some (lay m h' (mgmt_frame t 0 s x b) tr)"
    using send_mgmt_helper_lay [OF assms] by blast
  moreover have "10 \<le> length (mgmt_frame t 0 s x b)" by (simp add: mgmt_frame_def)
  ultimately show ?thesis
    using assms(1) by (simp add: on_wire_def fill_sequence_number_def lay_simps put_at_frame)
qed

lemma on_wire_bind: "on_wire sn (Option.bind r f) = Option.bind r (\<lambda>x. on_wire sn (f x))"
  by (cases r) (simp_all add: on_wire_def)

lemma on_wire_if: "on_wire sn (if c then r else None) = (if c then on_wire sn r else None)"
  by (simp add: on_wire_def)

lemmas send_frames = send_non_flow_mgmt_def send_per_flow_mgmt_def send_per_flow_txn_mgmt_def

lemma per_flow_types [simp]:
  "is_per_flow 3" "is_per_flow 4" "is_per_flow 5" "is_per_flow 6" "is_per_flow 7" "is_per_flow 8"
  "is_per_flow 9" "is_per_flow 13" "\<not> is_per_flow 130" "\<not> is_per_flow 131" "\<not> is_per_flow 132"
  "\<not> is_per_flow 133" "\<not> is_per_flow 134" "\<not> is_per_flow 135" "\<not> is_per_flow 138" "\<not> is_per_flow 139"
  "\<not> is_per_flow 141" "\<not> is_per_flow 142" "\<not> is_per_flow 143"
  by (simp_all add: is_per_flow_def)

named_theorems wire_simps

lemma wire_link_messages [wire_simps]:
  "on_wire sn send_discard = Some (mgmt_frame Pkt_Discard sn None None [])"
  "on_wire sn send_echo_request = Some (mgmt_frame Pkt_Echo sn None None (be16 0))"
  "on_wire sn (send_terminate_link_or_docking_session r) = Some (mgmt_frame Pkt_TerminateLink sn None None [r, 0])"
  by (simp_all add: send_discard_def send_echo_request_def send_terminate_link_or_docking_session_def
      send_frames lay_simps on_wire_bind on_wire_helper)


lemma wire_auth_messages [wire_simps]:
  "payload_ok c \<Longrightarrow> on_wire sn (build_init_authentication_request fl c) =
     Some (mgmt_frame Pkt_InitAuthenticationRequest sn None None ([fl] @ be16 48 @ challenge_of c))"
  "payload_ok c \<Longrightarrow> on_wire sn (send_renew_authentication_request c) =
     Some (mgmt_frame Pkt_RenewAuthenticationRequest sn None None (be16 48 @ challenge_of c))"
  "length ch = 48 \<Longrightarrow> on_wire sn (send_renew_authentication_response st ch blob) =
     (if length blob \<le> 3709 then Some (mgmt_frame Pkt_RenewAuthenticationResponse sn None None
        ([st] @ be16 (of_nat (length blob)) @ ch @ blob)) else None)"
  by (simp_all add: build_init_authentication_request_def send_renew_authentication_request_def
      send_renew_authentication_response_def send_frames lay_simps on_wire_bind on_wire_helper on_wire_if)

lemma wire_stream_messages [wire_simps]:
  "on_wire sn (send_stream_id_request x v) = Some (mgmt_frame Pkt_StreamIdRequest sn (Some 0) (Some x) (be64 v))"
  "on_wire sn (send_stream_id_success_response x s) = Some (mgmt_frame Pkt_StreamIdResponse sn (Some s) (Some x) [0, 0])"
  "on_wire sn (send_bind_egress_stream_success_response x s) =
     Some (mgmt_frame Pkt_BindEgressStreamResponse sn (Some s) (Some x) [0, 0])"
  "on_wire sn (send_unbind_egress_stream_request s) =
     Some (mgmt_frame Pkt_UnbindEgressStreamIndication sn (Some s) None [])"
  "on_wire sn (send_stream_id_withdrawal s) = Some (mgmt_frame Pkt_StreamIdWithdrawal sn (Some s) None [])"
  "on_wire sn (send_bind_actor_address_request x l3 b) = (let n = min 256 (length b) in
     Some (mgmt_frame Pkt_BindActorAddressRequest sn (Some 0) (Some x) ([l3] @ be16 (of_nat n) @ take n b)))"
  by (simp_all add: send_stream_id_request_def send_stream_id_success_response_def
      send_bind_egress_stream_success_response_def send_unbind_egress_stream_request_def
      send_stream_id_withdrawal_def send_bind_actor_address_request_def send_frames lay_simps on_wire_bind
      on_wire_helper on_wire_if Let_def)

lemma truncate_reason_length: "truncate_reason r = Some r' \<Longrightarrow> length r' \<le> 255 \<and> r' = take 255 r"
  by (auto simp: truncate_reason_def Let_def min_def split: if_splits)

lemma wire_error:
  assumes "is_per_flow t" "t \<noteq> Pkt_KeyManagement"
  shows "on_wire sn (do {
     p \<leftarrow> new_heap_packet;
     reason \<leftarrow> truncate_reason r;
     p \<leftarrow> append_bytes [1, of_nat (length reason)] p;
     p \<leftarrow> append_bytes reason p;
     send_per_flow_txn_mgmt t 0 x p
   }) = map_option (\<lambda>r. mgmt_frame t sn (Some 0) (Some x) ([1, of_nat (length r)] @ r)) (truncate_reason r)"
proof (cases "truncate_reason r")
  case (Some r')
  then show ?thesis
    using truncate_reason_length [OF Some] assms
    by (simp add: send_frames lay_simps on_wire_bind on_wire_helper)
qed (simp add: lay_simps on_wire_def)

lemma wire_error_messages [wire_simps]:
  "on_wire sn (send_bind_actor_address_error_response x r) = map_option (\<lambda>r.
     mgmt_frame Pkt_BindActorAddressResponse sn (Some 0) (Some x) ([1, of_nat (length r)] @ r)) (truncate_reason r)"
  "on_wire sn (send_stream_id_error_response x r) = map_option (\<lambda>r.
     mgmt_frame Pkt_StreamIdResponse sn (Some 0) (Some x) ([1, of_nat (length r)] @ r)) (truncate_reason r)"
  "on_wire sn (send_bind_egress_stream_error_response x r) = map_option (\<lambda>r.
     mgmt_frame Pkt_BindEgressStreamResponse sn (Some 0) (Some x) ([1, of_nat (length r)] @ r)) (truncate_reason r)"
  unfolding send_bind_actor_address_error_response_def send_stream_id_error_response_def
    send_bind_egress_stream_error_response_def
  by (rule wire_error; simp)+

text \<open>The classifier and the public key of the bind messages.\<close>

definition pubkey_bytes :: "bytes option \<Rightarrow> bytes" where
  "pubkey_bytes key = (case key of None \<Rightarrow> be16 0 | Some k \<Rightarrow> be16 (of_nat (length k)) @ k)"

lemma put_pubkey_lay [lay_simps]:
  "wf_fields m \<Longrightarrow> put_pubkey key (lay m h b t) = (if length (pubkey_bytes key) \<le> length t
     then Some (lay m h (b @ pubkey_bytes key) (drop (length (pubkey_bytes key)) t)) else None)"
  by (auto simp: put_pubkey_def pubkey_bytes_def lay_simps add.commute split: option.splits)

lemma length_serialize_tc:
  assumes "net_lib_ok N" "wf_tc N tc" "serialize_tc N tc = Some tcb"
  shows "length tcb \<le> 38"
  using assms by (auto simp: wf_tc_def serialize_tc_def net_lib_ok_def elim!: bind_SomeE split: if_splits)

lemma wire_bind_messages:
  assumes "net_lib_ok N" "wf_tc N tc" "\<And>k. key = Some k \<Longrightarrow> length k = 32"
  obtains tcb where "serialize_tc N tc = Some tcb"
    "on_wire sn (send_bind_actor_address_success_response N tcst x s tc key) =
       Some (mgmt_frame Pkt_BindActorAddressResponse sn (Some s) (Some x) ([0, 0, tcst] @ tcb @ pubkey_bytes key))"
    "on_wire sn (send_bind_egress_stream_request N tcst x tc key) =
       Some (mgmt_frame Pkt_BindEgressStreamRequest sn (Some 0) (Some x) ([tcst] @ tcb @ pubkey_bytes key))"
proof -
  obtain tcb where tcb: "serialize_tc N tc = Some tcb" using tc_wire_roundtrip [OF assms(1,2)] by blast
  have "length (pubkey_bytes key) \<le> 34" using assms(3) by (auto simp: pubkey_bytes_def split: option.splits)
  with tcb length_serialize_tc [OF assms(1,2) tcb] show ?thesis
    by (intro that [OF tcb]) (simp_all add: send_bind_actor_address_success_response_def
      send_bind_egress_stream_request_def send_frames lay_simps on_wire_bind on_wire_helper on_wire_if)
qed

section \<open>Addresses\<close>

definition same_family :: "ip_addr list \<Rightarrow> bool" where
  "same_family addrs \<longleftrightarrow> (\<forall>a \<in> set addrs. case a of V4 o4 \<Rightarrow> length o4 = 4 | V6 _ \<Rightarrow> False) \<or>
     (\<forall>a \<in> set addrs. case a of V6 o6 \<Rightarrow> length o6 = 16 | V4 _ \<Rightarrow> False)"

definition octets :: "ip_addr \<Rightarrow> bytes" where
  "octets a = (case a of V4 o4 \<Rightarrow> o4 | V6 o6 \<Rightarrow> o6)"

lemma octets_simps [simp]: "octets (V4 o4) = o4" "octets (V6 o6) = o6"
  by (simp_all add: octets_def)

definition ip_of :: "net_lib \<Rightarrow> ip_addr \<Rightarrow> ip" where
  "ip_of N a = (case a of V4 o4 \<Rightarrow> from_octets4 N o4 | V6 o6 \<Rightarrow> from_octets16 N o6)"

lemma put_addresses_lay:
  assumes "wf_fields m" "\<And>a. a \<in> set addrs \<Longrightarrow> ip_addr_l3_type N a = v"
  shows "put_addresses N v addrs (lay m h b t) =
    (if length (concat (map octets addrs)) \<le> length t
     then Some (lay m h (b @ concat (map octets addrs)) (drop (length (concat (map octets addrs))) t)) else None)"
  using assms(2)
proof (induction addrs arbitrary: b t)
  case (Cons a addrs)
  then have "ip_addr_l3_type N a = v" by simp
  with Cons show ?case
    using assms(1) by (cases a) (simp_all add: lay_simps ip_addr_l3_type_def add.commute, linarith+)
qed (simp add: assms)

lemma same_family_type:
  "net_lib_ok N \<Longrightarrow> same_family addrs \<Longrightarrow> a \<in> set addrs \<Longrightarrow> ip_addr_l3_type N a = addresses_l3_type N addrs"
  by (cases addrs) (auto simp: same_family_def addresses_l3_type_def ip_addr_l3_type_def split: ip_addr.splits)

lemma same_family_length:
  "same_family addrs \<Longrightarrow> length (concat (map octets addrs)) \<le> 16 * length addrs"
  by (induction addrs) (auto simp: same_family_def split: ip_addr.splits)

lemma read_addresses_octets:
  assumes "net_lib_ok N" "\<And>a. a \<in> set addrs \<Longrightarrow> ip_addr_l3_type N a = v"
    "\<And>a. a \<in> set addrs \<Longrightarrow> length (octets a) = (case a of V4 _ \<Rightarrow> 4 | V6 _ \<Rightarrow> 16)"
  shows "read_addresses N v (length addrs) (concat (map octets addrs) @ rest) = Some (map (ip_of N) addrs)"
  using assms(2,3)
proof (induction addrs)
  case (Cons a addrs)
  have "L3_Ipv4 N \<noteq> L3_Ipv6 N" using assms(1) by (simp add: net_lib_ok_def)
  moreover have "ip_addr_l3_type N a = v" "length (octets a) = (case a of V4 _ \<Rightarrow> 4 | V6 _ \<Rightarrow> 16)"
    using Cons.prems by simp_all
  ultimately show ?case
    using Cons by (cases a) (auto simp: ip_of_def ip_addr_l3_type_def read_from_buf_def)
qed simp

lemma wire_address_messages:
  assumes "net_lib_ok N" "same_family addrs"
  shows "on_wire sn (send_acquire_zpr_address_request N addrs (Some blob)) =
      (if length blob + length (concat (map octets addrs)) \<le> 3756
       then Some (mgmt_frame Pkt_AcquireZprAddress sn None None (be16 (of_nat (length blob)) @
         [addresses_l3_type N addrs, of_nat (length addrs)] @ blob @ concat (map octets addrs))) else None)"
    and "on_wire sn (send_grant_zpr_address_request N st addrs) =
      (if length (concat (map octets addrs)) \<le> 3757
       then Some (mgmt_frame Pkt_GrantZprAddress sn None None
         ([st, addresses_l3_type N addrs, of_nat (length addrs)] @ concat (map octets addrs))) else None)"
  using put_addresses_lay [OF heap_md_fields same_family_type [OF assms], of addrs]
  by (auto simp: send_acquire_zpr_address_request_def send_grant_zpr_address_request_def send_frames lay_simps
      on_wire_bind on_wire_helper on_wire_if Let_def)

section \<open>Strings\<close>

text \<open>Cutting a well-formed string at a character boundary leaves a well-formed string.\<close>

lemma utf8_step_inner:
  assumes "utf8_step a bs = (True, k)" "0 < n" "n < k"
  shows "n \<le> length bs \<and> utf8_cont (bs ! (n - 1))"
proof -
  have cont: "utf8_second a (bs ! 0) \<Longrightarrow> utf8_cont (bs ! 0)"
    by (auto simp: utf8_second_def utf8_cont_def word_le_nat_alt split: if_splits)
  show ?thesis
    using assms cont
    by (cases bs; cases "n = 1"; cases "n = 2"; cases "n = 3")
      (auto simp: utf8_step_def Suc_le_eq split: if_splits)
qed

lemma utf8_step_take:
  assumes "utf8_step a bs = (True, k)" "k \<le> n"
  shows "utf8_step a (take (n - 1) bs) = (True, k)"
  using assms by (cases bs) (auto simp: utf8_step_def min_def split: if_splits)

lemma utf8_step_pos: "utf8_step a bs = (good, k) \<Longrightarrow> 0 < k"
  by (auto simp: utf8_step_def split: if_splits)

lemma utf8_step_len: "utf8_step a bs = (True, k) \<Longrightarrow> k \<le> Suc (length bs)"
  by (cases bs) (auto simp: utf8_step_def Suc_le_eq split: if_splits)

lemma valid_utf8_take:
  "valid_utf8 s \<Longrightarrow> is_char_boundary n s \<Longrightarrow> valid_utf8 (take n s)"
proof (induction s arbitrary: n rule: valid_utf8.induct)
  case (2 a bs)
  obtain k where k: "utf8_step a bs = (True, k)" using 2 by (cases "utf8_step a bs") auto
  show ?case
  proof (cases "n = 0")
    case False
    have "\<not> n < k"
    proof
      assume "n < k"
      then have inner: "n \<le> length bs" "utf8_cont (bs ! (n - 1))"
        using utf8_step_inner [OF k] False by auto
      then have "\<not> utf8_cont ((a # bs) ! n)" using 2(3) by (auto simp: is_char_boundary_def)
      with inner False show False by (cases n) auto
    qed
    then have kn: "k \<le> n" by simp
    have "valid_utf8 (drop k (a # bs))" using 2(2) k by simp
    moreover have "is_char_boundary (n - k) (drop k (a # bs))"
      using 2(3) kn utf8_step_len [OF k] by (auto simp: is_char_boundary_def)
    ultimately have "valid_utf8 (take (n - k) (drop k (a # bs)))" using 2(1) [OF k [symmetric]] k by simp
    moreover have "take n (a # bs) = a # take (n - 1) bs" using False by (cases n) auto
    moreover have "drop k (take n (a # bs)) = take (n - k) (drop k (a # bs))" by (simp add: drop_take)
    ultimately show ?thesis using utf8_step_take [OF k kn] by simp
  qed simp
qed simp

lemma truncate_reason_valid: "valid_utf8 r \<Longrightarrow> truncate_reason r = Some r' \<Longrightarrow> valid_utf8 r'"
  by (auto simp: truncate_reason_def Let_def valid_utf8_take split: if_splits)

section \<open>Every message is understood\<close>

datatype mgmt_msg =
    Msg_Discard | Msg_Echo
  | Msg_Init_Auth u8 init_auth_payload
  | Msg_Renew_Request init_auth_payload
  | Msg_Renew_Response u8 bytes bytes
  | Msg_Acquire "ip_addr list" bytes
  | Msg_Grant u8 "ip_addr list"
  | Msg_Terminate u8
  | Msg_Bind_Actor u16 u8 bytes
  | Msg_Bind_Actor_Ok u16 u32 ip5tuple_tc "bytes option"
  | Msg_Bind_Actor_Err u16 bytes
  | Msg_Stream_Request u16 u64 | Msg_Stream_Ok u16 u32 | Msg_Stream_Err u16 bytes
  | Msg_Bind_Egress u16 ip5tuple_tc "bytes option"
  | Msg_Bind_Egress_Ok u16 u32 | Msg_Bind_Egress_Err u16 bytes
  | Msg_Unbind u32 | Msg_Withdraw u32

fun send_msg :: "net_lib \<Rightarrow> u8 \<Rightarrow> mgmt_msg \<Rightarrow> packet option" where
  "send_msg N tcst Msg_Discard = send_discard"
| "send_msg N tcst Msg_Echo = send_echo_request"
| "send_msg N tcst (Msg_Init_Auth fl c) = build_init_authentication_request fl c"
| "send_msg N tcst (Msg_Renew_Request c) = send_renew_authentication_request c"
| "send_msg N tcst (Msg_Renew_Response st ch blob) = send_renew_authentication_response st ch blob"
| "send_msg N tcst (Msg_Acquire addrs blob) = send_acquire_zpr_address_request N addrs (Some blob)"
| "send_msg N tcst (Msg_Grant st addrs) = send_grant_zpr_address_request N st addrs"
| "send_msg N tcst (Msg_Terminate r) = send_terminate_link_or_docking_session r"
| "send_msg N tcst (Msg_Bind_Actor x l3 b) = send_bind_actor_address_request x l3 b"
| "send_msg N tcst (Msg_Bind_Actor_Ok x s tc key) = send_bind_actor_address_success_response N tcst x s tc key"
| "send_msg N tcst (Msg_Bind_Actor_Err x r) = send_bind_actor_address_error_response x r"
| "send_msg N tcst (Msg_Stream_Request x v) = send_stream_id_request x v"
| "send_msg N tcst (Msg_Stream_Ok x s) = send_stream_id_success_response x s"
| "send_msg N tcst (Msg_Stream_Err x r) = send_stream_id_error_response x r"
| "send_msg N tcst (Msg_Bind_Egress x tc key) = send_bind_egress_stream_request N tcst x tc key"
| "send_msg N tcst (Msg_Bind_Egress_Ok x s) = send_bind_egress_stream_success_response x s"
| "send_msg N tcst (Msg_Bind_Egress_Err x r) = send_bind_egress_stream_error_response x r"
| "send_msg N tcst (Msg_Unbind s) = send_unbind_egress_stream_request s"
| "send_msg N tcst (Msg_Withdraw s) = send_stream_id_withdrawal s"

text \<open>
  Values as the callers have them: strings are UTF-8, keys have their length, blobs are not
  empty, addresses are of one family and fewer than 256, and a grant has addresses.
\<close>

fun msg_ok :: "net_lib \<Rightarrow> mgmt_msg \<Rightarrow> bool" where
  "msg_ok N (Msg_Init_Auth fl c) \<longleftrightarrow> payload_ok c"
| "msg_ok N (Msg_Renew_Request c) \<longleftrightarrow> payload_ok c"
| "msg_ok N (Msg_Renew_Response st ch blob) \<longleftrightarrow> length ch = 48 \<and> valid_utf8 blob \<and> (st = RC_Success \<longrightarrow> blob \<noteq> [])"
| "msg_ok N (Msg_Acquire addrs blob) \<longleftrightarrow> same_family addrs \<and> length addrs < 256 \<and> valid_utf8 blob \<and> blob \<noteq> []"
| "msg_ok N (Msg_Grant st addrs) \<longleftrightarrow> same_family addrs \<and> length addrs < 256 \<and> (st = RC_Success \<longrightarrow> addrs \<noteq> [])"
| "msg_ok N (Msg_Bind_Actor_Ok x s tc key) \<longleftrightarrow> wf_tc N tc \<and> (key \<noteq> None \<longrightarrow> length (the key) = 32)"
| "msg_ok N (Msg_Bind_Egress x tc key) \<longleftrightarrow> wf_tc N tc \<and> (key \<noteq> None \<longrightarrow> length (the key) = 32)"
| "msg_ok N (Msg_Bind_Actor_Err x r) \<longleftrightarrow> valid_utf8 r"
| "msg_ok N (Msg_Stream_Err x r) \<longleftrightarrow> valid_utf8 r"
| "msg_ok N (Msg_Bind_Egress_Err x r) \<longleftrightarrow> valid_utf8 r"
| "msg_ok N m \<longleftrightarrow> True"

text \<open>The messages that can be sent without a panic.\<close>

fun sendable :: "mgmt_msg \<Rightarrow> bool" where
  "sendable (Msg_Renew_Response st ch blob) \<longleftrightarrow> length blob \<le> 3709"
| "sendable (Msg_Acquire addrs blob) \<longleftrightarrow> length blob + length (concat (map octets addrs)) \<le> 3756"
| "sendable (Msg_Grant st addrs) \<longleftrightarrow> length (concat (map octets addrs)) \<le> 3757"
| "sendable (Msg_Bind_Actor_Err x r) \<longleftrightarrow> is_char_boundary (min (length r) 255) r"
| "sendable (Msg_Stream_Err x r) \<longleftrightarrow> is_char_boundary (min (length r) 255) r"
| "sendable (Msg_Bind_Egress_Err x r) \<longleftrightarrow> is_char_boundary (min (length r) 255) r"
| "sendable m \<longleftrightarrow> True"

text \<open>The receiver is in the role that the message is meant for.\<close>

fun addressed_to :: "('k, 'v) mgmt_env \<Rightarrow> u32 \<Rightarrow> mgmt_msg \<Rightarrow> bool" where
  "addressed_to E l (Msg_Bind_Actor x l3 b) \<longleftrightarrow> l \<noteq> 0 \<and> peer_type_by_id E l = Peer_Adapter"
| "addressed_to E l (Msg_Stream_Request x v) \<longleftrightarrow> l \<noteq> 0 \<and> peer_type_by_id E l = Peer_Node"
| "addressed_to E l (Msg_Bind_Egress x tc key) \<longleftrightarrow> l \<noteq> 0 \<and> peer_type_by_id E l = Peer_Dock"
| "addressed_to E l (Msg_Bind_Actor_Ok x s tc key) \<longleftrightarrow> me_link_type E l \<noteq> None \<and> me_txn_open E l x"
| "addressed_to E l (Msg_Bind_Actor_Err x r) \<longleftrightarrow> me_link_type E l \<noteq> None \<and> me_txn_open E l x"
| "addressed_to E l (Msg_Stream_Ok x s) \<longleftrightarrow> l \<noteq> 0 \<and> me_link_type E l \<noteq> None \<and> me_txn_open E l x"
| "addressed_to E l (Msg_Stream_Err x r) \<longleftrightarrow> l \<noteq> 0 \<and> me_link_type E l \<noteq> None \<and> me_txn_open E l x"
| "addressed_to E l (Msg_Bind_Egress_Ok x s) \<longleftrightarrow> l \<noteq> 0 \<and> me_link_type E l \<noteq> None \<and> me_txn_open E l x"
| "addressed_to E l (Msg_Bind_Egress_Err x r) \<longleftrightarrow> l \<noteq> 0 \<and> me_link_type E l \<noteq> None \<and> me_txn_open E l x"
| "addressed_to E l (Msg_Unbind s) \<longleftrightarrow> l \<noteq> 0 \<and> me_link_type E l = Some AdapterToNode"
| "addressed_to E l (Msg_Withdraw s) \<longleftrightarrow> l \<noteq> 0 \<and> me_link_type E l = Some AdapterToNode"
| "addressed_to E l m \<longleftrightarrow> True"

fun meaning :: "net_lib \<Rightarrow> u32 \<Rightarrow> mgmt_msg \<Rightarrow> mgmt_call" where
  "meaning N l Msg_Discard = Nothing_More"
| "meaning N l Msg_Echo = Nothing_More"
| "meaning N l (Msg_Init_Auth fl c) = Raise (ReceivedInitAuth (fl AND 1 \<noteq> 0) (if fl AND 1 \<noteq> 0 then Some c else None))"
| "meaning N l (Msg_Renew_Request c) = Raise (ReceivedRenewAuthRequest c)"
| "meaning N l (Msg_Renew_Response st ch blob) =
     Raise (ReceivedRenewAuthResponse ch (if st = RC_Success then Inr (utf8_string blob) else Inl st))"
| "meaning N l (Msg_Acquire addrs blob) = Raise (ReceivedAcquireZprAddressRequest
     (if addrs = [] then None else Some (map (ip_of N) addrs)) (utf8_string blob))"
| "meaning N l (Msg_Grant st addrs) =
     Raise (ReceivedGrantZprAddressRequest (if st = RC_Success then Inr (map (ip_of N) addrs) else Inl st))"
| "meaning N l (Msg_Terminate r) = Raise (ReceivedTerminateLink r)"
| "meaning N l (Msg_Bind_Actor x l3 b) = Bind_Actor_Address l x l3 (take 256 b)"
| "meaning N l (Msg_Bind_Actor_Ok x s tc key) = Adapter_Install_Tether x s tc key"
| "meaning N l (Msg_Bind_Actor_Err x r) = Adapter_Deny_Tether x (take 255 r)"
| "meaning N l (Msg_Stream_Request x v) = Request_Stream l x v"
| "meaning N l (Msg_Stream_Ok x s) = Node_Install_Tether l x s"
| "meaning N l (Msg_Stream_Err x r) = Node_Deny_Tether l x (take 255 r)"
| "meaning N l (Msg_Bind_Egress x tc key) = Bind_Egress_Stream l x tc key"
| "meaning N l (Msg_Bind_Egress_Ok x s) = Node_Install_Tether l x s"
| "meaning N l (Msg_Bind_Egress_Err x r) = Node_Deny_Tether l x (take 255 r)"
| "meaning N l (Msg_Unbind s) = Adapter_Unbind_Stream l s"
| "meaning N l (Msg_Withdraw s) = Withdraw_Tether s"

lemma read_append: "length xs = n \<Longrightarrow> read_from_buf n (xs @ ys) = Some (xs, ys)"
  by (auto simp: read_from_buf_def)

lemma read_self: "length xs = n \<Longrightarrow> read_from_buf n xs = Some (xs, [])"
  by (auto simp: read_from_buf_def)

lemma handle_frame_flow:
  "is_per_flow t \<Longrightarrow> handle_packet E l (mgmt_frame t sn (Some s) x b) =
     no_effects (handle_flow_packet E l t s ((case x of None \<Rightarrow> [] | Some x \<Rightarrow> be16 x) @ b))"
  using read_append [of "[t, 0]" 2]
  by (simp add: handle_packet_def mgmt_frame_def read_append codec_simps)

lemma handle_frame_link:
  "\<not> is_per_flow t \<Longrightarrow> handle_packet E l (mgmt_frame t sn None None b) = handle_non_flow_packet E l t b"
  using read_append [of "[t, 0]" 2] by (simp add: handle_packet_def mgmt_frame_def read_append)

lemma with_txn_bytes [simp]: "with_txn (be16 x @ b) h = h x b"
  by (simp add: with_txn_def read_append codec_simps)

lemma read_pubkey_bytes:
  "(\<And>k. key = Some k \<Longrightarrow> length k = 32) \<Longrightarrow> read_pubkey (pubkey_bytes key) = Some key"
  by (cases key) (auto simp: read_pubkey_def pubkey_bytes_def codec_simps)

text \<open>Each body is read back by its handler.\<close>

lemma read_link_messages:
  "payload_ok c \<Longrightarrow> handle_init_authentication_request ([fl] @ be16 48 @ challenge_of c) =
     calls (meaning N l (Msg_Init_Auth fl c))"
  "payload_ok c \<Longrightarrow> handle_renew_authentication_request (be16 48 @ challenge_of c) =
     calls (meaning N l (Msg_Renew_Request c))"
  "handle_terminate_link_or_docking_session [r, 0] = calls (meaning N l (Msg_Terminate r))"
  using read_append [of "fl # be16 48" 3 "challenge_of c"] read_append [of "be16 48" 2]
  by (simp_all add: handle_init_authentication_request_def handle_renew_authentication_request_def
      handle_terminate_link_or_docking_session_def read_self codec_simps Let_def payload_of_challenge)

lemma read_renew_response:
  assumes "length ch = 48" "length blob \<le> 3709" "valid_utf8 blob" "st = RC_Success \<longrightarrow> blob \<noteq> []"
  shows "handle_renew_authentication_response ([st] @ be16 (of_nat (length blob)) @ ch @ blob) =
    calls (meaning N l (Msg_Renew_Response st ch blob))"
proof -
  have "unat (of_nat (length blob) :: u16) = length blob" using assms(2) by (simp add: unat_of_nat)
  then show ?thesis
    using assms read_append [of "st # be16 (of_nat (length blob)) @ ch" 51 blob]
    by (simp add: handle_renew_authentication_response_def codec_simps Let_def)
qed

lemma read_error_messages:
  assumes "valid_utf8 r" "length r \<le> 255" "me_link_type E l \<noteq> None" "me_txn_open E l x"
  shows "handle_bind_actor_address_response E l s x ([1, of_nat (length r)] @ r) = calls (Adapter_Deny_Tether x r)"
    and "l \<noteq> 0 \<Longrightarrow> handle_node_response E l s x ([1, of_nat (length r)] @ r) = calls (Node_Deny_Tether l x r)"
  using assms read_append [of "[1, of_nat (length r)]" 2 r]
  by (simp_all add: handle_bind_actor_address_response_def handle_node_response_def Let_def unat_of_nat_len)

lemma read_bind_messages:
  assumes "net_lib_ok (me_net E)" "wf_tc (me_net E) tc" "key \<noteq> None \<longrightarrow> length (the key) = 32"
    and "serialize_tc (me_net E) tc = Some tcb"
  shows "me_link_type E l \<noteq> None \<Longrightarrow> me_txn_open E l x \<Longrightarrow>
      handle_bind_actor_address_response E l s x ([0, 0, me_tcst E] @ tcb @ pubkey_bytes key) =
      calls (Adapter_Install_Tether x s tc key)"
    and "l \<noteq> 0 \<Longrightarrow> peer_type_by_id E l = Peer_Dock \<Longrightarrow>
      handle_bind_egress_stream_request E l x ([me_tcst E] @ tcb @ pubkey_bytes key) =
      calls (Bind_Egress_Stream l x tc key)"
proof -
  have "deserialize_tc (me_net E) (tcb @ pubkey_bytes key) = Some (tc, pubkey_bytes key)"
    using tc_wire_roundtrip [OF assms(1,2)] assms(4) by auto
  moreover have "read_pubkey (pubkey_bytes key) = Some key" using assms(3) by (intro read_pubkey_bytes) auto
  ultimately show "me_link_type E l \<noteq> None \<Longrightarrow> me_txn_open E l x \<Longrightarrow>
      handle_bind_actor_address_response E l s x ([0, 0, me_tcst E] @ tcb @ pubkey_bytes key) =
      calls (Adapter_Install_Tether x s tc key)"
    and "l \<noteq> 0 \<Longrightarrow> peer_type_by_id E l = Peer_Dock \<Longrightarrow>
      handle_bind_egress_stream_request E l x ([me_tcst E] @ tcb @ pubkey_bytes key) =
      calls (Bind_Egress_Stream l x tc key)"
    using read_append [of "[0, 0]" 2 "me_tcst E # tcb @ pubkey_bytes key"]
      read_append [of "[me_tcst E]" 1 "tcb @ pubkey_bytes key"]
    by (simp_all add: handle_bind_actor_address_response_def handle_bind_egress_stream_request_def Let_def)
qed

lemma same_family_octets:
  "same_family addrs \<Longrightarrow> a \<in> set addrs \<Longrightarrow> length (octets a) = (case a of V4 _ \<Rightarrow> 4 | V6 _ \<Rightarrow> 16)"
  by (auto simp: same_family_def split: ip_addr.splits)

lemma octets_v4: "\<forall>a \<in> set addrs. case a of V4 o4 \<Rightarrow> length o4 = 4 | V6 _ \<Rightarrow> False \<Longrightarrow>
    length (concat (map octets addrs)) = 4 * length addrs"
  by (induction addrs) (auto split: ip_addr.splits)

lemma octets_v6: "\<forall>a \<in> set addrs. case a of V6 o6 \<Rightarrow> length o6 = 16 | V4 _ \<Rightarrow> False \<Longrightarrow>
    length (concat (map octets addrs)) = 16 * length addrs"
  by (induction addrs) (auto split: ip_addr.splits)

lemma same_family_needed:
  assumes "net_lib_ok N" "same_family addrs" "length addrs < 256"
  shows "address_bytes_needed N (addresses_l3_type N addrs) (of_nat (length addrs)) =
    Some (length (concat (map octets addrs)))"
proof -
  have n: "unat (of_nat (length addrs) :: u8) = length addrs" using assms(3) by (simp add: unat_of_nat)
  have l3: "L3_Ipv4 N \<noteq> L3_Ipv6 N" using assms(1) by (simp add: net_lib_ok_def)
  from assms(2) show ?thesis
    using n l3 octets_v4 [of addrs] octets_v6 [of addrs]
    by (cases addrs) (auto simp: address_bytes_needed_def addresses_l3_type_def ip_addr_l3_type_def same_family_def
        simp del: map_concat length_concat split: ip_addr.splits)
qed

lemma read_address_messages:
  assumes "net_lib_ok (me_net E)" "same_family addrs" "length addrs < 256"
  shows "valid_utf8 blob \<Longrightarrow> blob \<noteq> [] \<Longrightarrow> length blob \<le> 3756 \<Longrightarrow>
      handle_acquire_zpr_address_request E (be16 (of_nat (length blob)) @
        [addresses_l3_type (me_net E) addrs, of_nat (length addrs)] @ blob @ concat (map octets addrs)) =
      calls (meaning (me_net E) l (Msg_Acquire addrs blob))"
    and "st = RC_Success \<longrightarrow> addrs \<noteq> [] \<Longrightarrow>
      handle_grant_zpr_address_request E ([st, addresses_l3_type (me_net E) addrs, of_nat (length addrs)] @
        concat (map octets addrs)) = calls (meaning (me_net E) l (Msg_Grant st addrs))"
proof -
  let ?v = "addresses_l3_type (me_net E) addrs" and ?n = "of_nat (length addrs) :: u8"
  have n: "unat ?n = length addrs" "?n > 0 \<longleftrightarrow> addrs \<noteq> []"
    using assms(3) by (simp_all add: unat_of_nat word_less_nat_alt)
  have read: "read_addresses (me_net E) ?v (length addrs) (concat (map octets addrs)) = Some (map (ip_of (me_net E)) addrs)"
    using read_addresses_octets [OF assms(1) same_family_type [OF assms(1,2)] same_family_octets [OF assms(2)], of addrs "[]"]
    by simp
  note needed = same_family_needed [OF assms]
  show "valid_utf8 blob \<Longrightarrow> blob \<noteq> [] \<Longrightarrow> length blob \<le> 3756 \<Longrightarrow>
      handle_acquire_zpr_address_request E (be16 (of_nat (length blob)) @
        [?v, ?n] @ blob @ concat (map octets addrs)) = calls (meaning (me_net E) l (Msg_Acquire addrs blob))"
    using read_append [of "be16 (of_nat (length blob)) @ [?v, ?n]" 4 "blob @ concat (map octets addrs)"] needed read n
    by (simp add: handle_acquire_zpr_address_request_def parse_acquire_zpr_address_request_def codec_simps Let_def
        unat_of_nat nth_append)
  show "st = RC_Success \<longrightarrow> addrs \<noteq> [] \<Longrightarrow> handle_grant_zpr_address_request E ([st, ?v, ?n] @
        concat (map octets addrs)) = calls (meaning (me_net E) l (Msg_Grant st addrs))"
    using read_append [of "[st, ?v, ?n]" 3 "concat (map octets addrs)"] needed read n
    by (simp add: handle_grant_zpr_address_request_def parse_grant_zpr_address_request_def Let_def nth_append)
qed

lemma send_panics_iff:
  assumes "net_lib_ok N" "msg_ok N m"
  shows "on_wire sn (send_msg N tcst m) = None \<longleftrightarrow> \<not> sendable m"
proof (cases m)
  case (Msg_Bind_Actor_Ok x s tc key)
  then show ?thesis using assms by (auto intro: wire_bind_messages [of N tc key sn tcst x s])
next
  case (Msg_Bind_Egress x tc key)
  then show ?thesis using assms by (auto intro: wire_bind_messages [of N tc key sn tcst x])
qed (use assms in \<open>auto simp: wire_simps wire_address_messages truncate_reason_def Let_def ensure_def\<close>)

lemma understood_flow:
  assumes "net_lib_ok (me_net E)" "msg_ok (me_net E) m" "addressed_to E l m"
    and "on_wire sn (send_msg (me_net E) (me_tcst E) m) = Some bs"
  shows "handle_packet E l bs = Some ([], Inr (meaning (me_net E) l m))"
proof (cases m)
  case (Msg_Acquire addrs blob)
  then show ?thesis
    using assms read_address_messages(1) [of E addrs blob l]
    by (auto simp: wire_address_messages handle_frame_link handle_non_flow_packet_def split: if_splits)
next
  case (Msg_Grant st addrs)
  then show ?thesis
    using assms read_address_messages(2) [of E addrs st l]
    by (auto simp: wire_address_messages handle_frame_link handle_non_flow_packet_def split: if_splits)
next
  case (Msg_Bind_Actor x l3 b)
  have "unat (of_nat (min 256 (length b)) :: u16) = min 256 (length b)" by (simp add: unat_of_nat min_def)
  then show ?thesis
    using assms Msg_Bind_Actor read_append [of "l3 # be16 (of_nat (min 256 (length b)))" 3 "take 256 b"]
    by (auto simp: wire_simps handle_frame_flow handle_flow_packet_def handle_bind_actor_address_request_def
        codec_simps Let_def min_def split: if_splits)
next
  case (Msg_Bind_Actor_Ok x s tc key)
  with assms have wf: "wf_tc (me_net E) tc" "key \<noteq> None \<longrightarrow> length (the key) = 32" by simp_all
  obtain tcb where "serialize_tc (me_net E) tc = Some tcb"
    "on_wire sn (send_bind_actor_address_success_response (me_net E) (me_tcst E) x s tc key) =
       Some (mgmt_frame 7 sn (Some s) (Some x) ([0, 0, me_tcst E] @ tcb @ pubkey_bytes key))"
    using wire_bind_messages [OF assms(1) wf(1)] wf(2) by (metis option.sel option.distinct(1))
  with assms Msg_Bind_Actor_Ok read_bind_messages(1) [OF assms(1) wf this(1)] show ?thesis
    by (auto simp: handle_frame_flow handle_flow_packet_def)
next
  case (Msg_Bind_Egress x tc key)
  with assms have wf: "wf_tc (me_net E) tc" "key \<noteq> None \<longrightarrow> length (the key) = 32" by simp_all
  obtain tcb where "serialize_tc (me_net E) tc = Some tcb"
    "on_wire sn (send_bind_egress_stream_request (me_net E) (me_tcst E) x tc key) =
       Some (mgmt_frame 8 sn (Some 0) (Some x) ([me_tcst E] @ tcb @ pubkey_bytes key))"
    using wire_bind_messages [OF assms(1) wf(1)] wf(2) by (metis option.sel option.distinct(1))
  with assms Msg_Bind_Egress read_bind_messages(2) [OF assms(1) wf this(1)] show ?thesis
    by (auto simp: handle_frame_flow handle_flow_packet_def)
next
  case (Msg_Bind_Actor_Err x r)
  then obtain z where z: "truncate_reason r = Some z" and bs: "bs = mgmt_frame 7 sn (Some 0) (Some x) ([1, of_nat (length z)] @ z)"
    using assms(4) by (auto simp: wire_simps)
  have "valid_utf8 z" "length z \<le> 255" "z = take 255 r"
    using truncate_reason_valid [OF _ z] truncate_reason_length [OF z] assms(2) Msg_Bind_Actor_Err by auto
  with bs Msg_Bind_Actor_Err assms(3) show ?thesis
    using read_error_messages [of z E l x 0] by (simp add: handle_frame_flow handle_flow_packet_def
        handle_stream_id_response_def handle_bind_egress_stream_response_def)
next
  case (Msg_Stream_Err x r)
  then obtain z where z: "truncate_reason r = Some z" and bs: "bs = mgmt_frame 4 sn (Some 0) (Some x) ([1, of_nat (length z)] @ z)"
    using assms(4) by (auto simp: wire_simps)
  have "valid_utf8 z" "length z \<le> 255" "z = take 255 r"
    using truncate_reason_valid [OF _ z] truncate_reason_length [OF z] assms(2) Msg_Stream_Err by auto
  with bs Msg_Stream_Err assms(3) show ?thesis
    using read_error_messages [of z E l x 0] by (simp add: handle_frame_flow handle_flow_packet_def
        handle_stream_id_response_def handle_bind_egress_stream_response_def)
next
  case (Msg_Bind_Egress_Err x r)
  then obtain z where z: "truncate_reason r = Some z" and bs: "bs = mgmt_frame 9 sn (Some 0) (Some x) ([1, of_nat (length z)] @ z)"
    using assms(4) by (auto simp: wire_simps)
  have "valid_utf8 z" "length z \<le> 255" "z = take 255 r"
    using truncate_reason_valid [OF _ z] truncate_reason_length [OF z] assms(2) Msg_Bind_Egress_Err by auto
  with bs Msg_Bind_Egress_Err assms(3) show ?thesis
    using read_error_messages [of z E l x 0] by (simp add: handle_frame_flow handle_flow_packet_def
        handle_stream_id_response_def handle_bind_egress_stream_response_def)
qed (use assms in \<open>auto simp: wire_simps handle_frame_link handle_frame_flow handle_non_flow_packet_def
    handle_flow_packet_def handle_discard_def handle_echo_request_def read_link_messages [simplified]
    read_renew_response [simplified] handle_stream_id_request_def
    handle_stream_id_response_def handle_bind_egress_stream_response_def handle_unbind_indication_def
    handle_stream_id_withdrawal_def handle_node_response_def read_self codec_simps Let_def
    split: if_splits\<close>)


definition demo_mgmt_env :: "(bytes, bytes) mgmt_env" where
  "demo_mgmt_env = \<lparr>me_net = demo_net, me_tlv = demo_tlv_lib, me_tcst = 1, me_idp_of_json = (\<lambda>_. None),
     me_link_type = (\<lambda>l. if l = 5 then Some NodeToAdapter else None), me_txn_open = (\<lambda>_ _. True),
     me_node_mode = True, me_local_actor_link = 1, me_dock_link = 2,
     me_ip_of_std = (\<lambda>a. case a of V4 o4 \<Rightarrow> new_from_v4 demo_net o4 | V6 o6 \<Rightarrow> o6), me_tlv_order = [7, 6, 1]\<rparr>"


section \<open>Panics\<close>

lemma report_panics_iff:
  "handle_report bs = None \<longleftrightarrow> 2 \<le> length bs \<and>
     (length bs < 4 \<or> unat (get16 bs) \<le> length bs - 4 \<and> \<not> valid_utf8 (take (unat (get16 bs)) (drop 4 bs)))"
proof -
  have "get16 (take 2 bs) = get16 bs" by (simp add: get16_def)
  then show ?thesis
    by (auto simp: handle_report_def read_from_buf_def advance_bytes_def Let_def ensure_def)
qed

lemma push_opt_nonempty: "(\<And>t. m t \<noteq> Some []) \<Longrightarrow> push_opt u v m t \<noteq> Some []"
  by (auto simp: push_opt_def push_value_def split: option.splits)

lemma parse_loop_nonempty:
  "parse_loop L m bs = Some (Inr m', rest) \<Longrightarrow> (\<And>t. m t \<noteq> Some []) \<Longrightarrow> m' t \<noteq> Some []"
proof (induction L m bs arbitrary: m' rest rule: parse_loop.induct)
  case (1 L m bs)
  show ?case
    using 1 push_opt_nonempty [OF 1(4)]
    by (auto simp: parse_loop.simps [of L m bs] split: list.splits if_splits option.splits sum.splits prod.splits)
qed

lemma hello_response_options_total:
  "(\<And>t. m t \<noteq> Some []) \<Longrightarrow> hello_response_options E peer m order aaa idps \<noteq> None"
  by (induction order arbitrary: aaa idps)
    (auto simp: bind_None_iff simp del: not_None_eq split: option.splits sum.splits prod.splits)

lemma hello_handlers_total: "handle_hello_request E l bs \<noteq> None" "handle_hello_response E l bs \<noteq> None"
proof -
  have total: "\<exists>r rest. parse_from_buf (me_tlv E) cs = Some (r, rest)" for cs
    using parse_loop_total [of "me_tlv E" Map.empty cs] unfolding parse_from_buf_def by blast
  obtain r rest where "parse_from_buf (me_tlv E) bs = Some (r, rest)" using total by blast
  then show "handle_hello_request E l bs \<noteq> None" by (simp add: handle_hello_request_def)
  show "handle_hello_response E l bs \<noteq> None"
  proof (cases "read_from_buf 1 bs")
    case (Some hb)
    obtain hdr cs where hb: "hb = (hdr, cs)" by (cases hb)
    obtain r rest where r: "parse_from_buf (me_tlv E) cs = Some (r, rest)" using total by blast
    show ?thesis
    proof (cases r)
      case (Inr m)
      then have "m t \<noteq> Some []" for t
        using parse_loop_nonempty [of "me_tlv E" Map.empty cs m rest t] r by (simp add: parse_from_buf_def)
      from hello_response_options_total [of m, OF this] show ?thesis
        using Some hb r Inr
        by (auto simp: handle_hello_response_def parse_hello_response_def bind_None_iff)
    qed (use Some hb r in \<open>simp add: handle_hello_response_def parse_hello_response_def\<close>)
  qed (simp add: handle_hello_response_def parse_hello_response_def)
qed

lemma flow_panics_iff: "l \<noteq> 0 \<Longrightarrow> handle_flow_packet E l t s bs = None \<longleftrightarrow> t = Pkt_Transit"
  by (simp add: handle_flow_packet_def handle_stream_id_response_def handle_bind_egress_stream_response_def
      with_txn_total bind_handlers_total response_handlers_total del: not_None_eq)

lemma link_panics_iff:
  "handle_non_flow_packet E l t bs = None \<longleftrightarrow> t = Pkt_KeyManagement \<or> t = Pkt_Report \<and> handle_report bs = None"
  by (simp add: handle_non_flow_packet_def handle_discard_def handle_echo_request_def hello_handlers_total
      link_handlers_total del: not_None_eq)



end
