(* ===== verification/Slab.thy ===== *)
theory Slab
  imports Prelude
begin

text \<open>
  Tables indexed by small integers.  The concurrent slab that the tables of the process are
  built on is a library; a slab is modelled by its contents, the slot that it offers for the
  next insertion (\<open>vacant_key\<close>) is an argument of the operations that insert, and removing an
  empty slot panics.  A stream identifier names the slot below it, so that 0 names no slot.
\<close>

type_synonym 'a slab = "nat \<rightharpoonup> 'a"

text \<open>What a slab of capacity \<open>cap\<close> may offer: nothing, or a free slot within its capacity.\<close>

definition slab_offers :: "nat \<Rightarrow> nat option \<Rightarrow> 'a slab \<Rightarrow> bool" where
  "slab_offers cap offer t \<longleftrightarrow> (case offer of None \<Rightarrow> True | Some i \<Rightarrow> i < cap \<and> t i = None)"

definition slab_bounded :: "nat \<Rightarrow> 'a slab \<Rightarrow> bool" where
  "slab_bounded cap t \<longleftrightarrow> (\<forall>i. t i \<noteq> None \<longrightarrow> i < cap)"

definition slab_remove :: "nat \<Rightarrow> 'a slab \<Rightarrow> 'a slab option" where
  "slab_remove i t = (if t i = None then None else Some (t(i := None)))"

text \<open>\<open>(id as usize).wrapping_sub(1)\<close> and \<open>(idx + 1) as StreamId\<close>.\<close>

definition slot_of_id :: "u32 \<Rightarrow> nat" where
  "slot_of_id n = (if n = 0 then 2 ^ 64 - 1 else unat n - 1)"

definition id_of_slot :: "nat \<Rightarrow> u32" where
  "id_of_slot i = of_nat (i + 1)"

lemma unat_id_of_slot: "i < 2 ^ 20 \<Longrightarrow> unat (id_of_slot i) = i + 1"
  unfolding id_of_slot_def unat_of_nat by simp

lemma id_of_slot_nonzero: "i < 2 ^ 20 \<Longrightarrow> id_of_slot i \<noteq> 0"
proof
  assume i: "i < 2 ^ 20" and "id_of_slot i = 0"
  then have "unat (id_of_slot i) = 0" by simp
  with i show False by (simp add: unat_id_of_slot)
qed

lemma slot_of_id_of_slot [simp]: "i < 2 ^ 20 \<Longrightarrow> slot_of_id (id_of_slot i) = i"
  using id_of_slot_nonzero [of i]
  by (simp add: slot_of_id_def unat_id_of_slot)

lemma wrapping_pred_inj:
  "x < m \<Longrightarrow> y < m \<Longrightarrow> (if x = 0 then m else x - 1) = (if y = 0 then m else y - 1) \<longleftrightarrow> x = y"
  for m x y :: nat
  by auto

lemma slot_of_id_inj: "slot_of_id a = slot_of_id b \<longleftrightarrow> a = b"
proof -
  have "unat n < 2 ^ 64 - 1" for n :: u32
    by (rule less_trans [OF unsigned_less]) simp
  from wrapping_pred_inj [OF this this] show ?thesis
    unfolding slot_of_id_def unat_eq_0 [symmetric] by (simp only: word_unat_eq_iff)
qed

lemma slot_zero_empty: "slab_bounded (2 ^ 20) t \<Longrightarrow> t (slot_of_id 0) = None"
proof (rule ccontr)
  assume "slab_bounded (2 ^ 20) t" and "t (slot_of_id 0) \<noteq> None"
  then have "slot_of_id 0 < 2 ^ 20" unfolding slab_bounded_def by blast
  then show False by (simp add: slot_of_id_def)
qed

lemma slab_insert_bounded:
  "slab_bounded cap t \<Longrightarrow> slab_offers cap (Some i) t \<Longrightarrow> slab_bounded cap (t(i \<mapsto> x))"
  by (auto simp: slab_bounded_def slab_offers_def)

lemma slab_remove_bounded: "slab_bounded cap t \<Longrightarrow> slab_remove i t = Some t' \<Longrightarrow> slab_bounded cap t'"
  by (auto simp: slab_bounded_def slab_remove_def split: if_splits)

end
