(* ===== verification/Adapter_Tables.thy ===== *)
theory Adapter_Tables
  imports Slab Tc
begin

text \<open>
  The lookup tables of an adapter (\<open>adapter_tables.rs\<close>): the endpoint lookup table (ELT) maps
  outbound flows to tethers, or to a packet that waits for one; the dock lookup table (DLT)
  maps inbound tethers to what is needed to expand their packets.  A handle of a transaction
  is a value of type \<open>'h\<close>; the operations of the ELT also return the handles they drop.  The
  derivation of a key from a shared secret is a parameter.
\<close>

section \<open>The endpoint lookup table\<close>

record elt_pep =
  ep_compression_mode :: u8
  ep_tether_id :: u32
  ep_shared_secret :: "bytes option"
  ep_micv_key :: "bytes option"

definition elt_pep_new :: "(bytes \<Rightarrow> bytes) \<Rightarrow> u8 \<Rightarrow> u32 \<Rightarrow> bytes option \<Rightarrow> elt_pep" where
  "elt_pep_new derive_key mode tether_id secret =
     \<lparr>ep_compression_mode = mode, ep_tether_id = tether_id, ep_shared_secret = secret,
      ep_micv_key = map_option derive_key secret\<rparr>"

datatype ('p, 'h) elt_entry = EltPending 'p 'h | EltActive elt_pep

record ('p, 'h) elt =
  elt_table :: "five_tuple \<rightharpoonup> ('p, 'h) elt_entry"
  elt_pending :: "'h \<rightharpoonup> five_tuple"

datatype 'p insert_pending_error = AlreadyPending 'p | DuplicateTransaction 'p
datatype lookup_pending_error = PendingNotFound | PendingNotPending
datatype elt_remove_error = EltNotFound
datatype set_active_error = ActiveNotFound elt_pep | ActiveNotPending elt_pep

definition elt_new :: "('p, 'h) elt" where
  "elt_new = \<lparr>elt_table = Map.empty, elt_pending = Map.empty\<rparr>"

definition insert_pending ::
    "five_tuple \<Rightarrow> 'p \<Rightarrow> 'h \<Rightarrow> ('p, 'h) elt \<Rightarrow> ('p insert_pending_error + unit) \<times> ('p, 'h) elt" where
  "insert_pending ft init_packet txn e = (case elt_table e ft of
     Some _ \<Rightarrow> (Inl (AlreadyPending init_packet), e)
   | None \<Rightarrow>
       let e1 = e\<lparr>elt_pending := (elt_pending e)(txn \<mapsto> ft)\<rparr> in
       if elt_pending e txn \<noteq> None then (Inl (DuplicateTransaction init_packet), e1)
       else (Inr (), e1\<lparr>elt_table := (elt_table e1)(ft \<mapsto> EltPending init_packet txn)\<rparr>))"

definition lookup_pending :: "'h \<Rightarrow> ('p, 'h) elt \<Rightarrow> lookup_pending_error + five_tuple" where
  "lookup_pending txn e = (case elt_pending e txn of None \<Rightarrow> Inl PendingNotFound | Some ft \<Rightarrow> Inr ft)"

text \<open>The consistency assertion of \<open>set_active\<close> and \<open>remove\<close> drops the handle of the index.\<close>

definition forget_pending :: "five_tuple \<Rightarrow> 'h \<Rightarrow> ('p, 'h) elt \<Rightarrow> ('p, 'h) elt option" where
  "forget_pending ft txn e = do {
     ensure (elt_pending e txn = Some ft);
     Some (e\<lparr>elt_pending := (elt_pending e)(txn := None)\<rparr>)
   }"

definition set_active ::
    "five_tuple \<Rightarrow> elt_pep \<Rightarrow> ('p, 'h) elt \<Rightarrow> ((set_active_error + 'p) \<times> 'h list \<times> ('p, 'h) elt) option" where
  "set_active ft pep e = (case elt_table e ft of
     None \<Rightarrow> Some (Inl (ActiveNotFound pep), [], e)
   | Some (EltActive _) \<Rightarrow> Some (Inl (ActiveNotPending pep), [], e)
   | Some (EltPending packet txn) \<Rightarrow> do {
       e \<leftarrow> forget_pending ft txn (e\<lparr>elt_table := (elt_table e)(ft \<mapsto> EltActive pep)\<rparr>);
       Some (Inr packet, [txn, txn], e)
     })"

definition elt_get :: "five_tuple \<Rightarrow> ('p, 'h) elt \<Rightarrow> ('p, 'h) elt_entry option" where
  "elt_get ft e = elt_table e ft"

text \<open>The entry that is returned is dropped by all callers, with its handle.\<close>

definition elt_remove ::
    "five_tuple \<Rightarrow> ('p, 'h) elt \<Rightarrow> ((elt_remove_error + ('p, 'h) elt_entry) \<times> 'h list \<times> ('p, 'h) elt) option" where
  "elt_remove ft e = (case elt_table e ft of
     None \<Rightarrow> Some (Inl EltNotFound, [], e)
   | Some entry \<Rightarrow>
       let e1 = e\<lparr>elt_table := (elt_table e)(ft := None)\<rparr> in
       (case entry of
          EltPending _ txn \<Rightarrow> do { e1 \<leftarrow> forget_pending ft txn e1; Some (Inr entry, [txn, txn], e1) }
        | EltActive _ \<Rightarrow> Some (Inr entry, [], e1)))"

text \<open>\<open>order\<close> is the order in which the iterator of the table yields its keys.\<close>

fun find_tether :: "u32 \<Rightarrow> five_tuple list \<Rightarrow> ('p, 'h) elt \<Rightarrow> five_tuple option" where
  "find_tether tether_id [] e = None"
| "find_tether tether_id (ft # order) e = (case elt_table e ft of
     Some (EltActive pep) \<Rightarrow> if ep_tether_id pep = tether_id then Some ft else find_tether tether_id order e
   | _ \<Rightarrow> find_tether tether_id order e)"

definition remove_by_tether_id ::
    "u32 \<Rightarrow> five_tuple list \<Rightarrow> ('p, 'h) elt \<Rightarrow> (five_tuple option \<times> 'h list \<times> ('p, 'h) elt) option" where
  "remove_by_tether_id tether_id order e = (case find_tether tether_id order e of
     None \<Rightarrow> Some (None, [], e)
   | Some ft \<Rightarrow> do {
       (r, dropped, e) \<leftarrow> elt_remove ft e;
       Some (case r of Inl _ \<Rightarrow> None | Inr _ \<Rightarrow> Some ft, dropped, e)
     })"

fun elt_clear :: "five_tuple list \<Rightarrow> ('p, 'h) elt \<Rightarrow> ('h list \<times> ('p, 'h) elt) option" where
  "elt_clear [] e = Some ([], e)"
| "elt_clear (ft # keys) e = do {
     (_, dropped, e) \<leftarrow> elt_remove ft e;
     (more, e) \<leftarrow> elt_clear keys e;
     Some (dropped @ more, e)
   }"

section \<open>The dock lookup table\<close>

record dlt_pep =
  dp_tc :: ip5tuple_tc
  dp_shared_secret :: "bytes option"
  dp_micv_key :: "bytes option"

definition dlt_pep_new :: "(bytes \<Rightarrow> bytes) \<Rightarrow> ip5tuple_tc \<Rightarrow> bytes option \<Rightarrow> dlt_pep" where
  "dlt_pep_new derive_key tc secret =
     \<lparr>dp_tc = tc, dp_shared_secret = secret, dp_micv_key = map_option derive_key secret\<rparr>"

abbreviation (input) DOCK_LOOKUP_TABLE_SIZE :: nat where "DOCK_LOOKUP_TABLE_SIZE \<equiv> 2 ^ 20"

definition dlt_new :: "dlt_pep slab" where
  "dlt_new = Map.empty"

definition dlt_get :: "u32 \<Rightarrow> dlt_pep slab \<Rightarrow> dlt_pep option" where
  "dlt_get tether_id t = t (slot_of_id tether_id)"

definition dlt_insert :: "nat option \<Rightarrow> dlt_pep \<Rightarrow> dlt_pep slab \<Rightarrow> (unit + u32) \<times> dlt_pep slab" where
  "dlt_insert offer pep t = (case offer of
     None \<Rightarrow> (Inl (), t) | Some i \<Rightarrow> (Inr (id_of_slot i), t(i \<mapsto> pep)))"

definition dlt_remove :: "u32 \<Rightarrow> dlt_pep slab \<Rightarrow> dlt_pep slab option" where
  "dlt_remove tether_id t = (let idx = slot_of_id tether_id in
     if t idx = None then Some t else slab_remove idx t)"

text \<open>All removals are published at once.\<close>

definition dlt_clear :: "dlt_pep slab \<Rightarrow> dlt_pep slab" where
  "dlt_clear t = (\<lambda>i. if t i \<noteq> None then None else t i)"

section \<open>The index of pending flows\<close>

text \<open>The two maps of the ELT agree: a flow is pending under a transaction in both or in neither.\<close>

definition elt_ok :: "('p, 'h) elt \<Rightarrow> bool" where
  "elt_ok e \<longleftrightarrow>
     (\<forall>txn ft. elt_pending e txn = Some ft \<longrightarrow> (\<exists>p. elt_table e ft = Some (EltPending p txn))) \<and>
     (\<forall>txn ft p. elt_table e ft = Some (EltPending p txn) \<longrightarrow> elt_pending e txn = Some ft)"

lemma elt_new_ok: "elt_ok elt_new"
  by (simp add: elt_ok_def elt_new_def)

lemma elt_okD: "elt_ok e \<Longrightarrow> elt_table e ft = Some (EltPending p txn) \<Longrightarrow> elt_pending e txn = Some ft"
  unfolding elt_ok_def by blast

lemma elt_okE:
  assumes "elt_ok e" "elt_pending e txn = Some ft"
  obtains p where "elt_table e ft = Some (EltPending p txn)"
  using assms unfolding elt_ok_def by blast

lemma elt_ok_settle:
  assumes "elt_ok e" "elt_table e ft = Some (EltPending p txn)" "\<And>q t. x \<noteq> Some (EltPending q t)"
  shows "elt_ok (e\<lparr>elt_table := (elt_table e)(ft := x), elt_pending := (elt_pending e)(txn := None)\<rparr>)"
proof -
  have txn: "elt_pending e txn = Some ft" using assms(1,2) by (rule elt_okD)
  show ?thesis unfolding elt_ok_def
  proof (intro conjI allI impI, goal_cases)
    case (1 t f)
    then have t: "t \<noteq> txn" "elt_pending e t = Some f" by (auto split: if_splits)
    then obtain q where "elt_table e f = Some (EltPending q t)" using elt_okE [OF assms(1)] by metis
    moreover from this t have "f \<noteq> ft" using assms(2) by auto
    ultimately show ?case by simp
  next
    case (2 t f q)
    then have f: "f \<noteq> ft" "elt_table e f = Some (EltPending q t)" using assms(3) by (auto split: if_splits)
    then have "elt_pending e t = Some f" using elt_okD [OF assms(1)] by blast
    moreover from this f txn have "t \<noteq> txn" by auto
    ultimately show ?case by simp
  qed
qed

lemma elt_ok_replace:
  assumes "elt_ok e" "elt_table e ft = Some (EltActive pep)" "\<And>q t. x \<noteq> Some (EltPending q t)"
  shows "elt_ok (e\<lparr>elt_table := (elt_table e)(ft := x)\<rparr>)"
  unfolding elt_ok_def
proof (intro conjI allI impI, goal_cases)
  case (1 t f)
  then obtain q where "elt_table e f = Some (EltPending q t)" using elt_okE [OF assms(1)] by auto
  with assms(2) show ?case by auto
next
  case (2 t f q)
  then show ?case using assms(3) elt_okD [OF assms(1)] by (auto split: if_splits)
qed

text \<open>The number of handles of a transaction that the table holds.\<close>

definition elt_refs :: "('p, 'h) elt \<Rightarrow> 'h \<Rightarrow> nat" where
  "elt_refs e txn = (if elt_pending e txn = None then 0 else 2)"

lemma elt_ok_insert:
  assumes "elt_ok e" "elt_table e ft = None" "elt_pending e txn = None"
  shows "elt_ok (e\<lparr>elt_table := (elt_table e)(ft \<mapsto> EltPending p txn), elt_pending := (elt_pending e)(txn \<mapsto> ft)\<rparr>)"
  unfolding elt_ok_def
proof (intro conjI allI impI, goal_cases)
  case (1 t f)
  show ?case
  proof (cases "t = txn")
    case False
    with 1 obtain q where "elt_table e f = Some (EltPending q t)" using elt_okE [OF assms(1)] by auto
    with assms(2) show ?thesis by auto
  qed (use 1 in auto)
next
  case (2 t f q)
  show ?case
  proof (cases "f = ft")
    case False
    with 2 have "elt_pending e t = Some f" using elt_okD [OF assms(1)] by simp
    with assms(3) show ?thesis by auto
  qed (use 2 in auto)
qed

lemma insert_pending_ok:
  assumes "elt_ok e" "insert_pending ft p txn e = (Inr (), e')"
  shows "elt_ok e' \<and> elt_pending e txn = None \<and> elt_refs e' = (elt_refs e)(txn := 2)"
proof -
  have *: "elt_table e ft = None" "elt_pending e txn = None"
    "e' = e\<lparr>elt_table := (elt_table e)(ft \<mapsto> EltPending p txn), elt_pending := (elt_pending e)(txn \<mapsto> ft)\<rparr>"
    using assms(2) by (auto simp: insert_pending_def Let_def split: option.splits if_splits)
  then show ?thesis using elt_ok_insert [OF assms(1) *(1,2)] by (auto simp: elt_refs_def fun_eq_iff)
qed

lemma insert_pending_fresh:
  "elt_pending e txn = None \<Longrightarrow> (\<exists>e'. insert_pending ft p txn e = (Inr (), e')) \<or>
     insert_pending ft p txn e = (Inl (AlreadyPending p), e)"
  by (auto simp: insert_pending_def Let_def split: option.splits)

lemma elt_remove_total: "elt_ok e \<Longrightarrow> elt_remove ft e \<noteq> None"
  by (auto simp: elt_remove_def forget_pending_def Let_def dest: elt_okD split: option.splits elt_entry.splits)

lemma elt_remove_ok:
  assumes "elt_ok e" "elt_remove ft e = Some (r, dropped, e')"
  shows "elt_ok e' \<and> elt_table e' = (elt_table e)(ft := None) \<and> 
    (\<forall>txn. elt_refs e txn = elt_refs e' txn + count_list dropped txn)"
proof (cases "elt_table e ft")
  case None
  then show ?thesis using assms by (auto simp: elt_remove_def)
next
  case (Some entry)
  show ?thesis
  proof (cases entry)
    case (EltActive pep)
    then show ?thesis using assms Some elt_ok_replace [OF assms(1), of ft pep None]
      by (auto simp: elt_remove_def elt_refs_def)
  next
    case (EltPending p txn)
    then show ?thesis
      using assms Some elt_okD [OF assms(1), of ft p txn]
        elt_ok_settle [OF assms(1), of ft p txn None]
      by (auto simp: elt_remove_def forget_pending_def elt_refs_def split: if_splits)
  qed
qed

lemma set_active_total: "elt_ok e \<Longrightarrow> set_active ft pep e \<noteq> None"
  by (auto simp: set_active_def forget_pending_def dest: elt_okD split: option.splits elt_entry.splits)

lemma set_active_ok:
  assumes "elt_ok e" "set_active ft pep e = Some (r, dropped, e')"
  shows "elt_ok e' \<and> (\<forall>txn. elt_refs e txn = elt_refs e' txn + count_list dropped txn)"
proof (cases "elt_table e ft")
  case None
  then show ?thesis using assms by (auto simp: set_active_def)
next
  case (Some entry)
  show ?thesis
  proof (cases entry)
    case (EltActive pep)
    then show ?thesis using assms Some by (auto simp: set_active_def)
  next
    case (EltPending p txn)
    then show ?thesis
      using assms Some elt_okD [OF assms(1), of ft p txn]
        elt_ok_settle [OF assms(1), of ft p txn "Some (EltActive pep)"]
      by (auto simp: set_active_def forget_pending_def elt_refs_def split: if_splits)
  qed
qed

lemma remove_by_tether_id_ok:
  assumes "elt_ok e"
  shows "\<exists>r dropped e'. remove_by_tether_id t order e = Some (r, dropped, e') \<and> elt_ok e' \<and>
    (\<forall>txn. elt_refs e txn = elt_refs e' txn + count_list dropped txn)"
proof (cases "find_tether t order e")
  case None
  then show ?thesis using assms by (simp add: remove_by_tether_id_def)
next
  case (Some ft)
  obtain r d e' where "elt_remove ft e = Some (r, d, e')"
    using elt_remove_total [OF assms, of ft] by auto
  with Some elt_remove_ok [OF assms this] show ?thesis by (simp add: remove_by_tether_id_def)
qed

lemma elt_clear_ok:
  "elt_ok e \<Longrightarrow> \<exists>dropped e'. elt_clear keys e = Some (dropped, e') \<and> elt_ok e' \<and>
     (\<forall>ft. elt_table e' ft = (if ft \<in> set keys then None else elt_table e ft)) \<and>
     (\<forall>txn. elt_refs e txn = elt_refs e' txn + count_list dropped txn)"
proof (induction keys arbitrary: e)
  case (Cons ft keys)
  obtain r d e1 where e1: "elt_remove ft e = Some (r, d, e1)"
    using elt_remove_total [OF Cons.prems, of ft] by auto
  note ok = elt_remove_ok [OF Cons.prems e1]
  obtain d2 e2 where e2: "elt_clear keys e1 = Some (d2, e2)" "elt_ok e2"
    and tab: "\<And>ft. elt_table e2 ft = (if ft \<in> set keys then None else elt_table e1 ft)"
    and refs: "\<And>txn. elt_refs e1 txn = elt_refs e2 txn + count_list d2 txn"
    using Cons.IH [of e1] ok by blast
  show ?case
    by (rule exI [of _ "d @ d2"], rule exI [of _ e2])
      (simp add: e1 e2 tab refs ok count_list_append)
qed simp

section \<open>Inbound tethers\<close>

text \<open>What an insertion into the DLT returns finds the entry again, and 0 is never used.\<close>

lemma dlt_insert_get:
  assumes "slab_offers DOCK_LOOKUP_TABLE_SIZE (Some i) t" "dlt_insert (Some i) pep t = (Inr tid, t')"
  shows "tid \<noteq> 0 \<and> dlt_get tid t = None \<and> dlt_get tid t' = Some pep \<and>
    (\<forall>u. u \<noteq> tid \<longrightarrow> dlt_get u t' = dlt_get u t)"
proof -
  have i: "i < 2 ^ 20" "t i = None" "tid = id_of_slot i" "t' = t(i \<mapsto> pep)"
    using assms by (auto simp: slab_offers_def dlt_insert_def)
  have slot: "slot_of_id tid = i" using i(1) by (simp add: i(3))
  have "slot_of_id u = i \<longleftrightarrow> u = tid" for u using slot_of_id_inj [of u tid] by (simp add: slot)
  then show ?thesis
    using id_of_slot_nonzero [OF i(1), folded i(3)] i(2) by (simp add: dlt_get_def slot i(4))
qed

lemma dlt_remove_get:
  "\<exists>t'. dlt_remove tid t = Some t' \<and> dlt_get tid t' = None \<and> (\<forall>u. u \<noteq> tid \<longrightarrow> dlt_get u t' = dlt_get u t)"
  by (simp add: dlt_remove_def slab_remove_def dlt_get_def Let_def slot_of_id_inj)

end
