(* ===== verification/Txn_Mgr.thy ===== *)
theory Txn_Mgr
  imports Prelude "HOL-Library.Multiset"
begin

text \<open>
  The manager of transaction identifiers (\<open>mgmt/txn_mgr.rs\<close>).  The manager counts the
  references to each open identifier, where the initial one counts as 0; a handle is an
  identifier, and cloning and dropping it call \<open>ref_txn\<close> and \<open>deref_txn\<close>.  The second half
  puts the manager together with the handles that are alive and the callers of \<open>open\<close> that
  wait for a notification, and shows that the two counts agree and no wakeup is lost.
\<close>

section \<open>The manager\<close>

record txn_mgr =
  next_free :: u16
  open_txns :: "u16 \<rightharpoonup> nat"

definition txn_mgr_new :: txn_mgr where
  "txn_mgr_new = \<lparr>next_free = 0, open_txns = Map.empty\<rparr>"

definition try_open_raw :: "txn_mgr \<Rightarrow> u16 option \<times> txn_mgr" where
  "try_open_raw m = (case open_txns m (next_free m) of
     None \<Rightarrow> (Some (next_free m),
       m\<lparr>open_txns := (open_txns m)(next_free m \<mapsto> 0), next_free := next_free m + 1\<rparr>)
   | Some _ \<Rightarrow> (None, m))"

definition txn_get :: "u16 \<Rightarrow> txn_mgr \<Rightarrow> u16 option \<times> txn_mgr" where
  "txn_get txn m = (case open_txns m txn of
     None \<Rightarrow> (None, m)
   | Some refcnt \<Rightarrow> (Some txn, m\<lparr>open_txns := (open_txns m)(txn \<mapsto> refcnt + 1)\<rparr>))"

definition ref_txn :: "u16 \<Rightarrow> txn_mgr \<Rightarrow> txn_mgr option" where
  "ref_txn txn m = (case open_txns m txn of
     None \<Rightarrow> None
   | Some refcnt \<Rightarrow> Some (m\<lparr>open_txns := (open_txns m)(txn \<mapsto> refcnt + 1)\<rparr>))"

text \<open>The result also tells whether the waiting callers have to be notified.\<close>

definition deref_txn :: "u16 \<Rightarrow> txn_mgr \<Rightarrow> (bool \<times> txn_mgr) option" where
  "deref_txn txn m = (case open_txns m txn of
     None \<Rightarrow> None
   | Some refcnt \<Rightarrow>
       if refcnt > 0 then Some (False, m\<lparr>open_txns := (open_txns m)(txn \<mapsto> refcnt - 1)\<rparr>)
       else Some (next_free m = txn, m\<lparr>open_txns := (open_txns m)(txn := None)\<rparr>))"

section \<open>Handles and references\<close>

text \<open>Dropping handles one after the other.\<close>

fun drop_handles :: "u16 list \<Rightarrow> txn_mgr \<Rightarrow> txn_mgr option" where
  "drop_handles [] m = Some m"
| "drop_handles (txn # txns) m = do { (_, m) \<leftarrow> deref_txn txn m; drop_handles txns m }"

text \<open>The number of handles that a transaction believes to have.\<close>

definition txn_refs :: "txn_mgr \<Rightarrow> u16 \<Rightarrow> nat" where
  "txn_refs m txn = (case open_txns m txn of None \<Rightarrow> 0 | Some n \<Rightarrow> n + 1)"

lemma txn_refs_open:
  "try_open_raw m = (Some t, m') \<Longrightarrow> txn_refs m t = 0 \<and> txn_refs m' = (txn_refs m)(t := 1)"
  by (auto simp: try_open_raw_def txn_refs_def fun_eq_iff split: option.splits if_splits)

lemma txn_refs_blocked: "try_open_raw m = (None, m') \<Longrightarrow> m' = m"
  by (auto simp: try_open_raw_def split: option.splits)

lemma txn_refs_ref:
  "txn_refs m t > 0 \<Longrightarrow> \<exists>m'. ref_txn t m = Some m' \<and> txn_refs m' = (txn_refs m)(t := txn_refs m t + 1)"
  by (auto simp: ref_txn_def txn_refs_def fun_eq_iff split: option.splits if_splits)

lemma txn_refs_get:
  "txn_get t m = (Some t', m') \<Longrightarrow> t' = t \<and> txn_refs m' = (txn_refs m)(t := txn_refs m t + 1)"
  "txn_get t m = (None, m') \<Longrightarrow> m' = m"
  by (auto simp: txn_get_def txn_refs_def fun_eq_iff split: option.splits if_splits)

lemma txn_refs_deref:
  "txn_refs m t > 0 \<Longrightarrow> \<exists>n m'. deref_txn t m = Some (n, m') \<and> txn_refs m' = (txn_refs m)(t := txn_refs m t - 1)"
  by (auto simp: deref_txn_def txn_refs_def fun_eq_iff split: option.splits if_splits)

lemma drop_handles_refs:
  "(\<And>t. count_list ts t \<le> txn_refs m t) \<Longrightarrow>
   \<exists>m'. drop_handles ts m = Some m' \<and> (\<forall>t. txn_refs m' t = txn_refs m t - count_list ts t)"
proof (induction ts arbitrary: m)
  case (Cons u ts)
  have "txn_refs m u > 0" using Cons.prems [of u] by simp
  then obtain n m1 where m1: "deref_txn u m = Some (n, m1)" "txn_refs m1 = (txn_refs m)(u := txn_refs m u - 1)"
    using txn_refs_deref by blast
  have "count_list ts t \<le> txn_refs m1 t" for t using Cons.prems [of t] m1(2) by (auto split: if_splits)
  from Cons.IH [OF this] m1 show ?case by auto
qed simp

section \<open>The manager and its handles\<close>

text \<open>
  \<open>handles\<close> holds one copy of an identifier for each live handle, \<open>waiters\<close> are the calls of
  \<open>open\<close> that have registered for a notification, and \<open>owed\<close> counts the calls of \<open>deref_txn\<close>
  that have left the lock and not yet called \<open>notify_waiters\<close>.
\<close>

record 'w txn_sys =
  tmgr :: txn_mgr
  handles :: "u16 multiset"
  waiters :: "'w set"
  owed :: nat

text \<open>
  The steps: opening a transaction without waiting, the two outcomes of one round of
  \<open>open\<close>, looking a transaction up, cloning and dropping a handle, and the notification.
\<close>

inductive txn_step :: "'w txn_sys \<Rightarrow> 'w txn_sys \<Rightarrow> bool" where
  try_open: "try_open_raw (tmgr s) = (Some txn, m) \<Longrightarrow>
     txn_step s (s\<lparr>tmgr := m, handles := add_mset txn (handles s)\<rparr>)"
| open_blocks: "try_open_raw (tmgr s) = (None, m) \<Longrightarrow>
     txn_step s (s\<lparr>tmgr := m, waiters := insert w (waiters s)\<rparr>)"
| get: "txn_get txn (tmgr s) = (Some txn', m) \<Longrightarrow>
     txn_step s (s\<lparr>tmgr := m, handles := add_mset txn' (handles s)\<rparr>)"
| clone: "txn \<in># handles s \<Longrightarrow> ref_txn txn (tmgr s) = Some m \<Longrightarrow>
     txn_step s (s\<lparr>tmgr := m, handles := add_mset txn (handles s)\<rparr>)"
| drop: "txn \<in># handles s \<Longrightarrow> deref_txn txn (tmgr s) = Some (need_notify, m) \<Longrightarrow>
     txn_step s (s\<lparr>tmgr := m, handles := handles s - {#txn#},
       owed := owed s + (if need_notify then 1 else 0)\<rparr>)"
| notify: "owed s > 0 \<Longrightarrow> txn_step s (s\<lparr>waiters := {}, owed := owed s - 1\<rparr>)"

definition txn_init :: "'w txn_sys \<Rightarrow> bool" where
  "txn_init s \<longleftrightarrow> tmgr s = txn_mgr_new \<and> handles s = {#} \<and> waiters s = {} \<and> owed s = 0"

text \<open>
  The invariant: an identifier is open exactly while it has handles, with as many
  references; and whoever waits either waits for an identifier that is in use or is about
  to be notified.
\<close>

definition counts_agree :: "txn_mgr \<Rightarrow> u16 multiset \<Rightarrow> bool" where
  "counts_agree m hs \<longleftrightarrow>
     (\<forall>txn. count hs txn = (case open_txns m txn of None \<Rightarrow> 0 | Some refcnt \<Rightarrow> refcnt + 1))"

definition txn_inv :: "'w txn_sys \<Rightarrow> bool" where
  "txn_inv s \<longleftrightarrow> counts_agree (tmgr s) (handles s) \<and>
     (waiters s = {} \<or> owed s > 0 \<or> next_free (tmgr s) \<in># handles s)"

lemma counts_agree_iff: "counts_agree m hs \<Longrightarrow> txn \<in># hs \<longleftrightarrow> open_txns m txn \<noteq> None"
  by (auto simp: counts_agree_def count_greater_zero_iff [symmetric] simp del: count_greater_zero_iff
      split: option.splits)

lemma counts_agree_count:
  "counts_agree m hs \<Longrightarrow> open_txns m txn = Some n \<Longrightarrow> count hs txn = Suc n"
  by (simp add: counts_agree_def)

lemmas txn_defs = try_open_raw_def txn_get_def ref_txn_def deref_txn_def

lemma try_open_agree:
  "counts_agree m hs \<Longrightarrow> try_open_raw m = (Some txn, m') \<Longrightarrow>
   counts_agree m' (add_mset txn hs) \<and> txn \<notin># hs \<and> txn = next_free m"
  by (auto simp: counts_agree_def try_open_raw_def count_eq_zero_iff [symmetric]
      split: option.splits if_splits dest: spec [of _ "next_free m"])

lemma ref_agree:
  "counts_agree m hs \<Longrightarrow> ref_txn txn m = Some m' \<Longrightarrow> counts_agree m' (add_mset txn hs) \<and> next_free m' = next_free m"
  by (auto simp: counts_agree_def ref_txn_def split: option.splits if_splits)

lemma get_agree:
  "counts_agree m hs \<Longrightarrow> txn_get txn m = (Some txn', m') \<Longrightarrow>
   counts_agree m' (add_mset txn' hs) \<and> next_free m' = next_free m \<and> txn' = txn \<and> txn \<in># hs"
  by (auto simp: counts_agree_def txn_get_def count_greater_zero_iff [symmetric]
      simp del: count_greater_zero_iff split: option.splits if_splits)

lemma deref_agree:
  "counts_agree m hs \<Longrightarrow> deref_txn txn m = Some (nn, m') \<Longrightarrow>
   counts_agree m' (hs - {#txn#}) \<and> next_free m' = next_free m \<and>
   (nn \<longleftrightarrow> txn = next_free m \<and> count hs txn = 1)"
  by (auto simp: counts_agree_def deref_txn_def split: option.splits if_splits)

text \<open>Cloning and dropping a live handle do not panic.\<close>

lemma live_handle_ref: "counts_agree m hs \<Longrightarrow> txn \<in># hs \<Longrightarrow> ref_txn txn m \<noteq> None"
  by (auto simp: ref_txn_def counts_agree_iff split: option.splits)

lemma live_handle_deref: "counts_agree m hs \<Longrightarrow> txn \<in># hs \<Longrightarrow> deref_txn txn m \<noteq> None"
  by (auto simp: deref_txn_def counts_agree_iff split: option.splits)

interpretation txn_system: invariant_system txn_init txn_step txn_inv
proof
  fix s :: "'a txn_sys"
  show "txn_init s \<Longrightarrow> txn_inv s"
    by (simp add: txn_init_def txn_inv_def counts_agree_def txn_mgr_new_def)
next
  fix s t :: "'a txn_sys"
  assume inv: "txn_inv s" and "txn_step s t"
  from this(2) show "txn_inv t"
  proof (cases rule: txn_step.cases)
    case (try_open txn m)
    then show ?thesis
      using inv try_open_agree [of "tmgr s" "handles s" txn m] by (auto simp: txn_inv_def)
  next
    case (open_blocks m w)
    then show ?thesis
      using inv counts_agree_iff [of "tmgr s" "handles s" "next_free (tmgr s)"]
      by (auto simp: txn_inv_def try_open_raw_def split: option.splits)
  next
    case (get txn txn' m)
    then show ?thesis
      using inv get_agree [of "tmgr s" "handles s" txn txn' m] by (auto simp: txn_inv_def)
  next
    case (clone txn m)
    then show ?thesis
      using inv ref_agree [of "tmgr s" "handles s" txn m] by (auto simp: txn_inv_def)
  next
    case (drop txn nn m)
    then show ?thesis
      using inv deref_agree [of "tmgr s" "handles s" txn nn m]
      by (auto simp: txn_inv_def in_diff_count count_greater_zero_iff [symmetric] simp del: count_greater_zero_iff)
  next
    case notify
    then show ?thesis using inv by (auto simp: txn_inv_def)
  qed
qed



end
