(* ===== verification/Adapter_Binds.thy ===== *)
theory Adapter_Binds
  imports Adapter_Tables Txn_Mgr Mgmt_Handlers
begin

text \<open>
  Tethers of an adapter (\<open>adapter_manager_worker.rs\<close>, \<open>mgmt/adapter.rs\<close>): the first packet of a
  flow opens a transaction with the dock and waits in the endpoint lookup table; the response
  of the dock turns it into a tether or drops it.  The state joins the two lookup tables, the
  transactions of the dock link, the bind requests whose delivery is awaited, and what the
  operations send.  Every handle of a transaction is counted by the transaction manager.
\<close>

section \<open>State\<close>

record adapter_lib =
  al_link_local :: "bytes \<Rightarrow> bool"
  al_derive_key :: "bytes \<Rightarrow> bytes"
  al_diffie_hellman :: "bytes \<Rightarrow> bytes"
  al_net :: net_lib

datatype adapter_counter = Count_DroppedNoSA | Count_QueueBackpressure | Count_DroppedAwaitingBind

datatype adapter_action =
    Count_Event adapter_counter
  | Send_Bind_Request u16 u8 bytes
  | Send_Bind_Egress_Success u16 u32
  | Send_Bind_Egress_Error u16
  | Requeue_Packet packet

record adapter =
  ad_txns :: txn_mgr
  ad_elt :: "(packet, u16) elt"
  ad_dlt :: "dlt_pep slab"
  ad_tasks :: "u16 multiset"
  ad_out :: "adapter_action list"

definition adapter_new :: adapter where
  "adapter_new = \<lparr>ad_txns = txn_mgr_new, ad_elt = elt_new, ad_dlt = dlt_new, ad_tasks = {#}, ad_out = []\<rparr>"

definition act :: "adapter_action \<Rightarrow> adapter \<Rightarrow> adapter" where
  "act x a = a\<lparr>ad_out := ad_out a @ [x]\<rparr>"

section \<open>Requesting a tether\<close>

text \<open>\<open>dock\<close> is whether the link of the dock is ready, if it exists.\<close>

definition do_request_tether_id :: "adapter_lib \<Rightarrow> bool option \<Rightarrow> packet \<Rightarrow> adapter \<Rightarrow> adapter option" where
  "do_request_tether_id A dock pkt a = (let ft = mtuple (md pkt) in
     if al_link_local A (dst_address ft) \<or> al_link_local A (src_address ft) then Some a
     else (case dock of
         None \<Rightarrow> Some a
       | Some ready \<Rightarrow>
           if \<not> ready then Some (act (Count_Event Count_DroppedNoSA) a)
           else (case try_open_raw (ad_txns a) of
               (None, m) \<Rightarrow> Some (act (Count_Event Count_QueueBackpressure) (a\<lparr>ad_txns := m\<rparr>))
             | (Some txn, m) \<Rightarrow> do {
                 packet_body \<leftarrow> body pkt;
                 (case insert_pending ft pkt txn (ad_elt a) of
                    (Inr _, e) \<Rightarrow> do {
                      m \<leftarrow> ref_txn txn m;
                      m \<leftarrow> ref_txn txn m;
                      Some (act (Send_Bind_Request txn (l3_type ft) packet_body)
                        (a\<lparr>ad_txns := m, ad_elt := e, ad_tasks := add_mset txn (ad_tasks a)\<rparr>))
                    }
                  | (Inl (AlreadyPending _), e) \<Rightarrow> do {
                      m \<leftarrow> drop_handles [txn] m;
                      Some (act (Count_Event Count_DroppedAwaitingBind) (a\<lparr>ad_txns := m, ad_elt := e\<rparr>))
                    }
                  | (Inl (DuplicateTransaction _), e) \<Rightarrow> None)
               })))"

text \<open>The error \<open>NoSuchTransaction\<close> is the left side.\<close>

definition deny_tether :: "u16 \<Rightarrow> adapter \<Rightarrow> ((unit + unit) \<times> adapter) option" where
  "deny_tether txn a = (case lookup_pending txn (ad_elt a) of
     Inl _ \<Rightarrow> Some (Inl (), a)
   | Inr ft \<Rightarrow> do {
       (r, dropped, e) \<leftarrow> elt_remove ft (ad_elt a);
       m \<leftarrow> drop_handles dropped (ad_txns a);
       Some (case r of Inr _ \<Rightarrow> Inr () | Inl _ \<Rightarrow> Inl (), a\<lparr>ad_txns := m, ad_elt := e\<rparr>)
     })"

text \<open>The task that awaits the delivery of the request ends, and with it its handle.\<close>

datatype packet_status = Status_Acked | Status_Canceled | Status_LinkClosed

definition bind_request_done :: "packet_status \<Rightarrow> u16 \<Rightarrow> adapter \<Rightarrow> adapter option" where
  "bind_request_done status txn a = do {
     a \<leftarrow> (case status of
         Status_Acked \<Rightarrow> Some a
       | Status_Canceled \<Rightarrow> do { (_, a) \<leftarrow> deny_tether txn a; Some a }
       | Status_LinkClosed \<Rightarrow> Some a);
     m \<leftarrow> drop_handles [txn] (ad_txns a);
     Some (a\<lparr>ad_txns := m, ad_tasks := ad_tasks a - {#txn#}\<rparr>)
   }"

section \<open>Responses of the dock\<close>

text \<open>\<open>full\<close> is whether the queue of packets to send again is full.\<close>

definition install_tether ::
    "adapter_lib \<Rightarrow> bool \<Rightarrow> u16 \<Rightarrow> u32 \<Rightarrow> ip5tuple_tc \<Rightarrow> bytes option \<Rightarrow> adapter \<Rightarrow> ((unit + unit) \<times> adapter) option" where
  "install_tether A full txn tether_id tc peer_key a = (case lookup_pending txn (ad_elt a) of
     Inl _ \<Rightarrow> Some (Inl (), a)
   | Inr ft \<Rightarrow>
       if \<not> classify_5t tc ft then do {
         (r, dropped, e) \<leftarrow> elt_remove ft (ad_elt a);
         ensure (\<not> isl r);
         m \<leftarrow> drop_handles dropped (ad_txns a);
         Some (Inr (), a\<lparr>ad_txns := m, ad_elt := e\<rparr>)
       }
       else do {
         let secret = map_option (al_diffie_hellman A) peer_key;
         let pep = elt_pep_new (al_derive_key A) (compression_mode (al_net A) tc) tether_id secret;
         (r, dropped, e) \<leftarrow> set_active ft pep (ad_elt a);
         m \<leftarrow> drop_handles dropped (ad_txns a);
         let a = a\<lparr>ad_txns := m, ad_elt := e\<rparr>;
         (case r of
            Inl _ \<Rightarrow> Some (Inl (), a)
          | Inr initial_packet \<Rightarrow> Some (Inr (),
              act (if full then Count_Event Count_QueueBackpressure else Requeue_Packet initial_packet) a))
       })"

text \<open>
  The response is decoded with the handle of its transaction in hand; the handle is dropped
  when the handler returns.
\<close>

definition with_transaction ::
    "u16 \<Rightarrow> (adapter \<Rightarrow> ((handle_mgmt_error + unit) \<times> adapter) option) \<Rightarrow> adapter \<Rightarrow> ((handle_mgmt_error + unit) \<times> adapter) option" where
  "with_transaction txn_id f a = (case txn_get txn_id (ad_txns a) of
     (None, m) \<Rightarrow> Some (Inl UnknownTransaction, a\<lparr>ad_txns := m\<rparr>)
   | (Some txn, m) \<Rightarrow> do {
       (r, a) \<leftarrow> f (a\<lparr>ad_txns := m\<rparr>);
       m \<leftarrow> drop_handles [txn] (ad_txns a);
       Some (r, a\<lparr>ad_txns := m\<rparr>)
     })"

definition tether_result :: "unit + unit \<Rightarrow> handle_mgmt_error + unit" where
  "tether_result r = (case r of Inl _ \<Rightarrow> Inl UnknownTransaction | Inr _ \<Rightarrow> Inr ())"

text \<open>What a response asks of the adapter.\<close>

definition apply_bind_response ::
    "adapter_lib \<Rightarrow> bool \<Rightarrow> handle_mgmt_error + mgmt_call \<Rightarrow> adapter \<Rightarrow> ((handle_mgmt_error + unit) \<times> adapter) option" where
  "apply_bind_response A full h a = (case h of
       Inl e \<Rightarrow> Some (Inl e, a)
     | Inr (Adapter_Install_Tether txn tether_id tc key) \<Rightarrow> do {
         (r, a) \<leftarrow> install_tether A full txn tether_id tc key a;
         Some (tether_result r, a)
       }
     | Inr (Adapter_Deny_Tether txn _) \<Rightarrow> do { (r, a) \<leftarrow> deny_tether txn a; Some (tether_result r, a) }
     | Inr _ \<Rightarrow> Some (Inr (), a))"

definition receive_bind_response ::
    "adapter_lib \<Rightarrow> ('k, 'v) mgmt_env \<Rightarrow> bool \<Rightarrow> u32 \<Rightarrow> u32 \<Rightarrow> u16 \<Rightarrow> bytes \<Rightarrow> adapter \<Rightarrow>
     ((handle_mgmt_error + unit) \<times> adapter) option" where
  "receive_bind_response A E full link_id stream_id txn_id bs a =
     (if me_link_type E link_id = None then Some (Inl LinkClosed, a)
      else with_transaction txn_id (\<lambda>a. do {
        h \<leftarrow> handle_bind_actor_address_response (E\<lparr>me_txn_open := \<lambda>_ _. True\<rparr>) link_id stream_id txn_id bs;
        apply_bind_response A full h a
      }) a)"

section \<open>Requests of the dock\<close>

definition bind_egress_stream ::
    "adapter_lib \<Rightarrow> nat option \<Rightarrow> u16 \<Rightarrow> ip5tuple_tc \<Rightarrow> bytes option \<Rightarrow> adapter \<Rightarrow> adapter" where
  "bind_egress_stream A offer txn_id tc peer_key a = (let
     secret = map_option (al_diffie_hellman A) peer_key;
     pep = dlt_pep_new (al_derive_key A) tc secret in
     (case dlt_insert offer pep (ad_dlt a) of
        (Inr tid, t) \<Rightarrow> act (Send_Bind_Egress_Success txn_id tid) (a\<lparr>ad_dlt := t\<rparr>)
      | (Inl _, t) \<Rightarrow> act (Send_Bind_Egress_Error txn_id) (a\<lparr>ad_dlt := t\<rparr>)))"

definition adapter_unbind_stream :: "u32 \<Rightarrow> adapter \<Rightarrow> adapter option" where
  "adapter_unbind_stream stream_id a = do { t \<leftarrow> dlt_remove stream_id (ad_dlt a); Some (a\<lparr>ad_dlt := t\<rparr>) }"

definition withdraw_tether :: "five_tuple list \<Rightarrow> u32 \<Rightarrow> adapter \<Rightarrow> adapter option" where
  "withdraw_tether order stream_id a = do {
     (_, dropped, e) \<leftarrow> remove_by_tether_id stream_id order (ad_elt a);
     m \<leftarrow> drop_handles dropped (ad_txns a);
     Some (a\<lparr>ad_txns := m, ad_elt := e\<rparr>)
   }"

text \<open>The dock link goes down; \<open>order\<close> lists the keys of the table.\<close>

definition clear_flow_tables :: "five_tuple list \<Rightarrow> adapter \<Rightarrow> adapter option" where
  "clear_flow_tables order a = do {
     (dropped, e) \<leftarrow> elt_clear order (ad_elt a);
     m \<leftarrow> drop_handles dropped (ad_txns a);
     Some (a\<lparr>ad_txns := m, ad_elt := e, ad_dlt := dlt_clear (ad_dlt a)\<rparr>)
   }"

section \<open>Invariant\<close>

text \<open>Every reference is accounted for: \<open>held\<close> are handles of the operation that is running.\<close>

definition accounted :: "u16 list \<Rightarrow> adapter \<Rightarrow> bool" where
  "accounted held a \<longleftrightarrow> elt_ok (ad_elt a) \<and>
     (\<forall>t. txn_refs (ad_txns a) t = count (ad_tasks a) t + elt_refs (ad_elt a) t + count_list held t)"

abbreviation adapter_inv :: "adapter \<Rightarrow> bool" where
  "adapter_inv \<equiv> accounted []"

lemma accountedD:
  "accounted held a \<Longrightarrow> elt_ok (ad_elt a)"
  "accounted held a \<Longrightarrow> txn_refs (ad_txns a) t = count (ad_tasks a) t + elt_refs (ad_elt a) t + count_list held t"
  by (simp_all add: accounted_def)

lemma accounted_act [simp]: "accounted held (act x a) = accounted held a"
  by (simp add: accounted_def act_def)

text \<open>Dropping what a table operation gave up keeps the account.\<close>

lemma accounted_drop:
  assumes "accounted held a" "elt_ok e" "\<And>t. elt_refs (ad_elt a) t = elt_refs e t + count_list ds t"
  shows "\<exists>m. drop_handles ds (ad_txns a) = Some m \<and> accounted held (a\<lparr>ad_txns := m, ad_elt := e\<rparr>)"
proof -
  have "count_list ds t \<le> txn_refs (ad_txns a) t" for t
    using accountedD(2) [OF assms(1), of t] assms(3) [of t] by simp
  from drop_handles_refs [OF this] obtain m where
    m: "drop_handles ds (ad_txns a) = Some m" "\<And>t. txn_refs m t = txn_refs (ad_txns a) t - count_list ds t" by blast
  then show ?thesis
    using accountedD(2) [OF assms(1)] assms(2,3) by (auto simp: accounted_def)
qed

lemma accounted_release:
  assumes "accounted (t # held) a"
  shows "\<exists>m. drop_handles [t] (ad_txns a) = Some m \<and> accounted held (a\<lparr>ad_txns := m\<rparr>)"
proof -
  have "count_list [t] u \<le> txn_refs (ad_txns a) u" for u using accountedD(2) [OF assms, of u] by auto
  from drop_handles_refs [OF this] obtain m where
    m: "drop_handles [t] (ad_txns a) = Some m" "\<And>u. txn_refs m u = txn_refs (ad_txns a) u - count_list [t] u" by blast
  then show ?thesis using accountedD [OF assms] by (auto simp: accounted_def simp del: drop_handles.simps)
qed

lemma deny_tether_ok:
  assumes "accounted held a"
  shows "\<exists>r a'. deny_tether txn a = Some (r, a') \<and> accounted held a' \<and> ad_tasks a' = ad_tasks a"
proof (cases "lookup_pending txn (ad_elt a)")
  case (Inr ft)
  obtain r d e where e: "elt_remove ft (ad_elt a) = Some (r, d, e)"
    using elt_remove_total [OF accountedD(1) [OF assms], of ft] by auto
  from elt_remove_ok [OF accountedD(1) [OF assms] e] accounted_drop [OF assms, of e d]
  obtain m where "drop_handles d (ad_txns a) = Some m" "accounted held (a\<lparr>ad_txns := m, ad_elt := e\<rparr>)" by blast
  then show ?thesis using Inr e by (simp add: deny_tether_def)
qed (simp add: deny_tether_def assms)

lemma lookup_pending_entry:
  assumes "elt_ok e" "lookup_pending txn e = Inr ft"
  obtains p where "elt_table e ft = Some (EltPending p txn)"
  using assms elt_okE [of e txn ft] by (auto simp: lookup_pending_def split: option.splits)

lemma elt_remove_present: "elt_table e ft \<noteq> None \<Longrightarrow> elt_remove ft e = Some (r, d, e') \<Longrightarrow> \<not> isl r"
  by (auto simp: elt_remove_def Let_def split: elt_entry.splits elim!: bind_SomeE)

lemma install_tether_ok:
  assumes "accounted held a"
  shows "\<exists>r a'. install_tether A full txn tid tc key a = Some (r, a') \<and> accounted held a' \<and> ad_tasks a' = ad_tasks a"
proof (cases "lookup_pending txn (ad_elt a)")
  case (Inr ft)
  note elt = accountedD(1) [OF assms]
  obtain p where ft: "elt_table (ad_elt a) ft = Some (EltPending p txn)"
    using lookup_pending_entry [OF elt Inr] .
  let ?pep = "elt_pep_new (al_derive_key A) (compression_mode (al_net A) tc) tid (map_option (al_diffie_hellman A) key)"
  show ?thesis
  proof (cases "classify_5t tc ft")
    case True
    obtain r d e where e: "set_active ft ?pep (ad_elt a) = Some (r, d, e)"
      using set_active_total [OF elt, of ft ?pep] by auto
    from set_active_ok [OF elt e] accounted_drop [OF assms, of e d]
    obtain m where "drop_handles d (ad_txns a) = Some m" "accounted held (a\<lparr>ad_txns := m, ad_elt := e\<rparr>)" by blast
    then show ?thesis using Inr True e by (cases r) (auto simp: install_tether_def Let_def act_def accounted_def)
  next
    case False
    obtain r d e where e: "elt_remove ft (ad_elt a) = Some (r, d, e)"
      using elt_remove_total [OF elt, of ft] by auto
    from elt_remove_ok [OF elt e] accounted_drop [OF assms, of e d]
    obtain m where "drop_handles d (ad_txns a) = Some m" "accounted held (a\<lparr>ad_txns := m, ad_elt := e\<rparr>)" by blast
    then show ?thesis using Inr False e elt_remove_present [OF _ e] ft by (simp add: install_tether_def)
  qed
qed (simp add: install_tether_def assms)

lemma do_request_tether_id_ok:
  assumes "adapter_inv a" "body pkt \<noteq> None"
  shows "\<exists>a'. do_request_tether_id A dock pkt a = Some a' \<and> adapter_inv a'"
proof -
  obtain b where b: "body pkt = Some b" using assms(2) by auto
  obtain o1 m where open1: "try_open_raw (ad_txns a) = (o1, m)" by (cases "try_open_raw (ad_txns a)")
  show ?thesis
  proof (cases o1)
    case None
    then show ?thesis
      using assms open1 txn_refs_blocked [of "ad_txns a" m]
      by (auto simp: do_request_tether_id_def Let_def accounted_def act_def split: option.splits)
  next
    case (Some txn)
    note refs = txn_refs_open [OF open1 [unfolded Some]]
    have fresh: "count (ad_tasks a) txn = 0" "elt_pending (ad_elt a) txn = None" "elt_refs (ad_elt a) txn = 0"
      using accountedD(2) [OF assms(1), of txn] refs by (auto simp: elt_refs_def split: if_splits)
    have held: "accounted [txn] (a\<lparr>ad_txns := m\<rparr>)"
      using assms(1) refs fresh by (auto simp: accounted_def)
    from insert_pending_fresh [OF fresh(2), of "mtuple (md pkt)" pkt] show ?thesis
    proof
      assume "\<exists>e. insert_pending (mtuple (md pkt)) pkt txn (ad_elt a) = (Inr (), e)"
      then obtain e where e: "insert_pending (mtuple (md pkt)) pkt txn (ad_elt a) = (Inr (), e)" by blast
      note ok = insert_pending_ok [OF accountedD(1) [OF assms(1)] e]
      obtain m1 where m1: "ref_txn txn m = Some m1" "txn_refs m1 = (txn_refs m)(txn := 2)"
        using txn_refs_ref [of m txn] refs by (auto simp: numeral_2_eq_2)
      obtain m2 where m2: "ref_txn txn m1 = Some m2" "txn_refs m2 = (txn_refs m)(txn := 3)"
        using txn_refs_ref [of m1 txn] m1 by (auto simp: numeral_3_eq_3)
      have "accounted [] (a\<lparr>ad_txns := m2, ad_elt := e, ad_tasks := add_mset txn (ad_tasks a)\<rparr>)"
        using assms(1) refs ok m2(2) fresh by (auto simp: accounted_def)
      then show ?thesis
        using assms(1) e m1(1) m2(1) open1 Some b
        by (auto simp: do_request_tether_id_def Let_def split: option.splits)
    next
      assume e: "insert_pending (mtuple (md pkt)) pkt txn (ad_elt a) = (Inl (AlreadyPending pkt), ad_elt a)"
      obtain m1 where "drop_handles [txn] m = Some m1" "accounted [] (a\<lparr>ad_txns := m1\<rparr>)"
        using accounted_release [OF held] by auto
      then show ?thesis
        using assms(1) e open1 Some b
        by (auto simp: do_request_tether_id_def Let_def simp del: drop_handles.simps split: option.splits)
    qed
  qed
qed

lemma bind_request_done_ok:
  assumes "adapter_inv a" "txn \<in># ad_tasks a"
  shows "\<exists>a'. bind_request_done st txn a = Some a' \<and> adapter_inv a'"
proof -
  have release: "\<exists>m. drop_handles [txn] (ad_txns b) = Some m \<and>
      adapter_inv (b\<lparr>ad_txns := m, ad_tasks := ad_tasks b - {#txn#}\<rparr>)"
    if b: "adapter_inv b" "ad_tasks b = ad_tasks a" for b
  proof -
    have "accounted [txn] (b\<lparr>ad_tasks := ad_tasks b - {#txn#}\<rparr>)"
      using b assms(2) by (auto simp: accounted_def Suc_le_eq count_greater_zero_iff)
    from accounted_release [OF this] show ?thesis by (simp add: accounted_def del: drop_handles.simps)
  qed
  show ?thesis
  proof (cases st)
    case Status_Canceled
    obtain r b where "deny_tether txn a = Some (r, b)" "adapter_inv b" "ad_tasks b = ad_tasks a"
      using deny_tether_ok [OF assms(1)] by blast
    then show ?thesis
      using release [of b] Status_Canceled by (auto simp: bind_request_done_def simp del: drop_handles.simps)
  qed (use release [OF assms(1) refl] in \<open>auto simp: bind_request_done_def simp del: drop_handles.simps\<close>)
qed

lemma with_transaction_ok:
  assumes "adapter_inv a"
    and "\<And>b. accounted [txn] b \<Longrightarrow> \<exists>r b'. f b = Some (r, b') \<and> accounted [txn] b'"
  shows "\<exists>r a'. with_transaction txn f a = Some (r, a') \<and> adapter_inv a'"
proof -
  obtain o1 m where get: "txn_get txn (ad_txns a) = (o1, m)" by (cases "txn_get txn (ad_txns a)")
  show ?thesis
  proof (cases o1)
    case None
    then show ?thesis using get txn_refs_get(2) [of txn "ad_txns a" m] assms(1)
      by (auto simp: with_transaction_def accounted_def)
  next
    case (Some t)
    note refs = txn_refs_get(1) [OF get [unfolded Some]]
    have "accounted [txn] (a\<lparr>ad_txns := m\<rparr>)" using assms(1) refs by (auto simp: accounted_def)
    from assms(2) [OF this] obtain r b where b: "f (a\<lparr>ad_txns := m\<rparr>) = Some (r, b)" "accounted [txn] b" by blast
    from accounted_release [OF b(2)] show ?thesis
      using get Some refs b(1) by (auto simp: with_transaction_def simp del: drop_handles.simps)
  qed
qed

lemma apply_bind_response_ok:
  assumes "accounted held a"
  shows "\<exists>r a'. apply_bind_response A full h a = Some (r, a') \<and> accounted held a'"
proof (cases h)
  case (Inr c)
  show ?thesis
  proof (cases c)
    case (Adapter_Install_Tether txn tid tc key)
    then show ?thesis
      using install_tether_ok [OF assms, of A full txn tid tc key] Inr by (auto simp: apply_bind_response_def)
  next
    case (Adapter_Deny_Tether txn msg)
    then show ?thesis using deny_tether_ok [OF assms, of txn] Inr by (auto simp: apply_bind_response_def)
  qed (use assms Inr in \<open>simp_all add: apply_bind_response_def\<close>)
qed (simp add: apply_bind_response_def assms)

lemma receive_bind_response_ok:
  assumes "adapter_inv a"
  shows "\<exists>r a'. receive_bind_response A E full l s txn bs a = Some (r, a') \<and> adapter_inv a'"
proof (cases "me_link_type E l")
  case (Some lt)
  let ?E = "E\<lparr>me_txn_open := \<lambda>_ _. True\<rparr>"
  obtain h where h: "handle_bind_actor_address_response ?E l s txn bs = Some h"
    using response_handlers_total(1) [of ?E l s txn bs] by auto
  from with_transaction_ok [OF assms, of txn "apply_bind_response A full h"] apply_bind_response_ok
  show ?thesis unfolding receive_bind_response_def h by (simp add: Some)
qed (simp add: receive_bind_response_def assms)

lemma withdraw_tether_ok:
  assumes "adapter_inv a"
  shows "\<exists>a'. withdraw_tether order s a = Some a' \<and> adapter_inv a'"
proof -
  obtain r d e where e: "remove_by_tether_id s order (ad_elt a) = Some (r, d, e)" "elt_ok e"
    "\<And>t. elt_refs (ad_elt a) t = elt_refs e t + count_list d t"
    using remove_by_tether_id_ok [OF accountedD(1) [OF assms], of s order] by blast
  from accounted_drop [OF assms e(2,3)] show ?thesis by (auto simp: withdraw_tether_def e(1))
qed

lemma dlt_clear_empty: "dlt_clear t = Map.empty"
  by (auto simp: dlt_clear_def fun_eq_iff)

lemma clear_flow_tables_ok:
  assumes "adapter_inv a"
  shows "\<exists>a'. clear_flow_tables order a = Some a' \<and> adapter_inv a' \<and> ad_dlt a' = Map.empty \<and>
    (\<forall>ft. elt_table (ad_elt a') ft = (if ft \<in> set order then None else elt_table (ad_elt a) ft))"
proof -
  obtain d e where e: "elt_clear order (ad_elt a) = Some (d, e)" "elt_ok e"
    "\<And>t. elt_refs (ad_elt a) t = elt_refs e t + count_list d t"
    "\<And>ft. elt_table e ft = (if ft \<in> set order then None else elt_table (ad_elt a) ft)"
    using elt_clear_ok [OF accountedD(1) [OF assms], of order] by blast
  from accounted_drop [OF assms e(2,3)] show ?thesis
    by (auto simp: clear_flow_tables_def e(1,4) dlt_clear_empty accounted_def)
qed

lemma adapter_unbind_stream_ok:
  assumes "adapter_inv a"
  shows "\<exists>a'. adapter_unbind_stream s a = Some a' \<and> adapter_inv a'"
  using assms dlt_remove_get [of s "ad_dlt a"] by (auto simp: adapter_unbind_stream_def accounted_def)

lemma bind_egress_stream_ok: "adapter_inv a \<Longrightarrow> adapter_inv (bind_egress_stream A offer txn tc key a)"
  by (auto simp: bind_egress_stream_def dlt_insert_def accounted_def act_def Let_def split: option.splits)

section \<open>Runs\<close>

inductive adapter_step :: "adapter_lib \<Rightarrow> adapter \<Rightarrow> adapter \<Rightarrow> bool" for A where
  request: "body pkt \<noteq> None \<Longrightarrow> do_request_tether_id A dock pkt a = Some a' \<Longrightarrow> adapter_step A a a'"
| request_done: "txn \<in># ad_tasks a \<Longrightarrow> bind_request_done st txn a = Some a' \<Longrightarrow> adapter_step A a a'"
| response: "receive_bind_response A (E :: (bytes, bytes) mgmt_env) full l s txn bs a = Some (r, a') \<Longrightarrow>
    adapter_step A a a'"
| egress: "slab_offers (2 ^ 20) offer (ad_dlt a) \<Longrightarrow> adapter_step A a (bind_egress_stream A offer txn tc key a)"
| unbind: "adapter_unbind_stream s a = Some a' \<Longrightarrow> adapter_step A a a'"
| withdraw: "withdraw_tether order s a = Some a' \<Longrightarrow> adapter_step A a a'"
| link_down: "clear_flow_tables order a = Some a' \<Longrightarrow> adapter_step A a a'"

interpretation adapter_run: invariant_system "\<lambda>a. a = adapter_new" "adapter_step A" adapter_inv
proof
  fix a
  show "a = adapter_new \<Longrightarrow> adapter_inv a"
    by (simp add: adapter_new_def accounted_def elt_ok_def elt_refs_def elt_new_def txn_refs_def txn_mgr_new_def)
next
  fix a b
  assume inv: "adapter_inv a" and "adapter_step A a b"
  from this(2) show "adapter_inv b"
  proof (cases rule: adapter_step.cases)
    case (request pkt dock)
    then show ?thesis using do_request_tether_id_ok [OF inv, of pkt A dock] by auto
  next
    case (request_done txn st)
    then show ?thesis using bind_request_done_ok [OF inv, of txn st] by auto
  next
    case (response E full l s txn bs r)
    then show ?thesis using receive_bind_response_ok [OF inv, of A E full l s txn bs] by auto
  next
    case (withdraw order s)
    then show ?thesis using withdraw_tether_ok [OF inv, of order s] by auto
  next
    case (link_down order)
    then show ?thesis using clear_flow_tables_ok [OF inv, of order] by auto
  next
    case (egress offer txn tc key)
    then show ?thesis using bind_egress_stream_ok [OF inv] by simp
  next
    case (unbind s)
    then show ?thesis using adapter_unbind_stream_ok [OF inv, of s] by auto
  qed
qed

text \<open>
  C12: An adapter never panics on its tethers and never leaks a transaction.  In every state that
  tether requests, responses, bind requests, unbinds, withdrawals and link failures can reach
  in any order, every one of these operations returns: no duplicate transaction, no
  inconsistent table, no handle of a closed transaction.  A transaction identifier is in use
  exactly while a bind request is on its way or a flow waits for its response.
\<close>

theorem adapter_tethers_never_panic:
  assumes "(adapter_step A)\<^sup>*\<^sup>* adapter_new a"
  shows "(\<forall>pkt dock. body pkt \<noteq> None \<longrightarrow> do_request_tether_id A dock pkt a \<noteq> None) \<and>
    (\<forall>st txn. txn \<in># ad_tasks a \<longrightarrow> bind_request_done st txn a \<noteq> None) \<and>
    (\<forall>(E :: ('k, 'v) mgmt_env) full l s txn bs. receive_bind_response A E full l s txn bs a \<noteq> None) \<and>
    (\<forall>s. adapter_unbind_stream s a \<noteq> None) \<and> (\<forall>order s. withdraw_tether order s a \<noteq> None) \<and>
    (\<forall>order. clear_flow_tables order a \<noteq> None) \<and>
    (\<forall>txn. open_txns (ad_txns a) txn \<noteq> None \<longleftrightarrow> txn \<in># ad_tasks a \<or> elt_pending (ad_elt a) txn \<noteq> None)"
proof -
  have inv: "adapter_inv a" using adapter_run.inv_reachable [OF refl assms] .
  have "open_txns (ad_txns a) txn \<noteq> None \<longleftrightarrow> txn \<in># ad_tasks a \<or> elt_pending (ad_elt a) txn \<noteq> None" for txn
    using accountedD(2) [OF inv, of txn]
    by (auto simp: txn_refs_def elt_refs_def count_greater_zero_iff [symmetric] simp del: count_greater_zero_iff
        split: option.splits if_splits)
  moreover note do_request_tether_id_ok [OF inv] bind_request_done_ok [OF inv] receive_bind_response_ok [OF inv]
    adapter_unbind_stream_ok [OF inv] withdraw_tether_ok [OF inv] clear_flow_tables_ok [OF inv]
  ultimately show ?thesis by (metis option.distinct(1))
qed

definition demo_adapter_lib :: adapter_lib where
  "demo_adapter_lib = \<lparr>al_link_local = (\<lambda>a. a \<noteq> [] \<and> hd a = 0xFE), al_derive_key = (\<lambda>s. s),
     al_diffie_hellman = (\<lambda>k. k), al_net = demo_net\<rparr>"

lemma demo_body: "body demo_packet = Some [7, 8]"
  using laid_out_queries(1) [OF demo_packet_layout] .

lemma demo_adapter_facts:
  "\<not> al_link_local demo_adapter_lib (dst_address (mtuple (md demo_packet)))"
  "\<not> al_link_local demo_adapter_lib (src_address (mtuple (md demo_packet)))"
  "elt_table (ad_elt adapter_new) ft = None" "fst (try_open_raw (ad_txns adapter_new)) = Some 0"
  "l3_type (mtuple (md demo_packet)) = 0" "ad_out adapter_new = []"
  by (simp_all add: demo_adapter_lib_def demo_packet_def adapter_new_def elt_new_def txn_mgr_new_def try_open_raw_def)

theorem adapter_tethers_never_panic_witness:
  "\<exists>a. do_request_tether_id demo_adapter_lib (Some True) demo_packet adapter_new = Some a \<and>
     open_txns (ad_txns a) 0 \<noteq> None \<and> bind_request_done Status_Canceled 0 a \<noteq> None \<and> clear_flow_tables [] a \<noteq> None"
proof -
  obtain a where a: "do_request_tether_id demo_adapter_lib (Some True) demo_packet adapter_new = Some a"
      "0 \<in># ad_tasks a"
    by (simp add: do_request_tether_id_def demo_adapter_facts demo_body Let_def adapter_new_def try_open_raw_def
        txn_mgr_new_def insert_pending_def elt_new_def ref_txn_def act_def)
  have "(adapter_step demo_adapter_lib)\<^sup>*\<^sup>* adapter_new a"
    using adapter_step.request [OF _ a(1)] demo_body by (intro r_into_rtranclp) simp
  from adapter_tethers_never_panic [OF this] a show ?thesis by blast
qed

text \<open>A flow that waits gets its tether, and its first packet is sent again.\<close>

lemma install_tether_activates:
  assumes "adapter_inv a" "elt_table (ad_elt a) ft = Some (EltPending pkt txn)" "classify_5t tc ft"
  shows "\<exists>a'. install_tether A False txn tid tc key a = Some (Inr (), a') \<and>
    elt_get ft (ad_elt a') = Some (EltActive (elt_pep_new (al_derive_key A) (compression_mode (al_net A) tc) tid
      (map_option (al_diffie_hellman A) key))) \<and>
    ad_out a' = ad_out a @ [Requeue_Packet pkt] \<and> elt_pending (ad_elt a') txn = None"
proof -
  let ?pep = "elt_pep_new (al_derive_key A) (compression_mode (al_net A) tc) tid (map_option (al_diffie_hellman A) key)"
  note elt = accountedD(1) [OF assms(1)]
  have pend: "elt_pending (ad_elt a) txn = Some ft" using elt_okD [OF elt assms(2)] .
  obtain e where e: "set_active ft ?pep (ad_elt a) = Some (Inr pkt, [txn, txn], e)"
      "elt_table e ft = Some (EltActive ?pep)" "elt_pending e txn = None"
    using pend assms(2) by (auto simp: set_active_def forget_pending_def)
  from set_active_ok [OF elt e(1)] accounted_drop [OF assms(1), of e "[txn, txn]"]
  obtain m where "drop_handles [txn, txn] (ad_txns a) = Some m" by blast
  then show ?thesis
    using assms(3) e pend
    by (simp add: install_tether_def lookup_pending_def Let_def act_def elt_get_def del: drop_handles.simps)
qed

lemma request_fresh:
  assumes "adapter_inv a" "body pkt = Some b" "mtuple (md pkt) = ft" "elt_table (ad_elt a) ft = None"
    "\<not> al_link_local A (dst_address ft)" "\<not> al_link_local A (src_address ft)"
    "fst (try_open_raw (ad_txns a)) = Some txn"
  shows "\<exists>a1. do_request_tether_id A (Some True) pkt a = Some a1 \<and> adapter_inv a1 \<and>
    elt_table (ad_elt a1) ft = Some (EltPending pkt txn) \<and> ad_out a1 = ad_out a @ [Send_Bind_Request txn (l3_type ft) b]"
proof -
  obtain m where m: "try_open_raw (ad_txns a) = (Some txn, m)" using assms(7) by (cases "try_open_raw (ad_txns a)") auto
  obtain a1 where a1: "do_request_tether_id A (Some True) pkt a = Some a1" "adapter_inv a1"
    using do_request_tether_id_ok [OF assms(1), of pkt A "Some True"] assms(2) by auto
  have "elt_pending (ad_elt a) txn = None"
    using accountedD(2) [OF assms(1), of txn] txn_refs_open [OF m] by (auto simp: elt_refs_def split: if_splits)
  with a1 assms m show ?thesis
    by (auto simp: do_request_tether_id_def insert_pending_def Let_def act_def elim!: bind_SomeE)
qed

lemma request_again:
  assumes "adapter_inv a" "body pkt = Some b" "elt_table (ad_elt a) (mtuple (md pkt)) = Some x"
    "\<not> al_link_local A (dst_address (mtuple (md pkt)))" "\<not> al_link_local A (src_address (mtuple (md pkt)))"
  shows "\<exists>a1 c. do_request_tether_id A (Some True) pkt a = Some a1 \<and> ad_out a1 = ad_out a @ [Count_Event c]"
proof -
  obtain a1 where a1: "do_request_tether_id A (Some True) pkt a = Some a1"
    using do_request_tether_id_ok [OF assms(1), of pkt A "Some True"] assms(2) by auto
  with assms show ?thesis
    by (cases "try_open_raw (ad_txns a)"; cases "fst (try_open_raw (ad_txns a))")
      (auto simp: do_request_tether_id_def insert_pending_def Let_def act_def simp del: drop_handles.simps elim!: bind_SomeE)
qed

lemma remove_waiting:
  assumes "adapter_inv a" "elt_table (ad_elt a) ft = Some (EltPending pkt txn)"
  shows "\<exists>a2. deny_tether txn a = Some (Inr (), a2) \<and> elt_get ft (ad_elt a2) = None"
    and "\<not> classify_5t tc ft \<Longrightarrow>
      \<exists>a2. install_tether A False txn tid tc key a = Some (Inr (), a2) \<and> elt_get ft (ad_elt a2) = None"
proof -
  note elt = accountedD(1) [OF assms(1)]
  have pend: "lookup_pending txn (ad_elt a) = Inr ft" using elt_okD [OF elt assms(2)] by (simp add: lookup_pending_def)
  obtain r d e where e: "elt_remove ft (ad_elt a) = Some (r, d, e)" using elt_remove_total [OF elt, of ft] by auto
  have r: "\<not> isl r" using elt_remove_present [OF _ e] assms(2) by simp
  from elt_remove_ok [OF elt e] accounted_drop [OF assms(1), of e d]
  obtain m where m: "drop_handles d (ad_txns a) = Some m" by blast
  have ft: "elt_get ft e = None" using elt_remove_ok [OF elt e] by (simp add: elt_get_def)
  show "\<exists>a2. deny_tether txn a = Some (Inr (), a2) \<and> elt_get ft (ad_elt a2) = None"
    using pend e m ft r by (auto simp: deny_tether_def split: sum.splits)
  show "\<not> classify_5t tc ft \<Longrightarrow>
      \<exists>a2. install_tether A False txn tid tc key a = Some (Inr (), a2) \<and> elt_get ft (ad_elt a2) = None"
    using pend e m ft r by (simp add: install_tether_def)
qed

text \<open>
  C20: The first packet of a flow gets its tether.  Where an adapter has no entry for the flow and
  a transaction is free, the packet is set waiting and one bind request with its body is sent;
  a second packet of the flow sends no other request.  A success response for that transaction
  with a classifier that matches the flow makes the tether active with the identifier and
  compression of the response, and the waiting packet is sent again; a response whose
  classifier does not match, or a denial, leaves no entry, so that the next packet asks again.
\<close>

theorem first_packet_gets_tether:
  assumes run: "(adapter_step A)\<^sup>*\<^sup>* adapter_new a" and b: "body pkt = Some b"
    and ft: "mtuple (md pkt) = ft" "elt_table (ad_elt a) ft = None"
    and local: "\<not> al_link_local A (dst_address ft)" "\<not> al_link_local A (src_address ft)"
    and free: "fst (try_open_raw (ad_txns a)) = Some txn"
  shows "\<exists>a1. do_request_tether_id A (Some True) pkt a = Some a1 \<and>
    ad_out a1 = ad_out a @ [Send_Bind_Request txn (l3_type ft) b] \<and>
    (\<forall>pkt2 b2. mtuple (md pkt2) = ft \<longrightarrow> body pkt2 = Some b2 \<longrightarrow> (\<exists>a2 c.
       do_request_tether_id A (Some True) pkt2 a1 = Some a2 \<and> ad_out a2 = ad_out a1 @ [Count_Event c])) \<and>
    (\<forall>tid tc key. classify_5t tc ft \<longrightarrow> (\<exists>a2. install_tether A False txn tid tc key a1 = Some (Inr (), a2) \<and>
       ad_out a2 = ad_out a1 @ [Requeue_Packet pkt] \<and>
       (\<exists>pep. elt_get ft (ad_elt a2) = Some (EltActive pep) \<and> ep_tether_id pep = tid \<and>
          ep_compression_mode pep = compression_mode (al_net A) tc))) \<and>
    (\<forall>tid tc key. \<not> classify_5t tc ft \<longrightarrow> (\<exists>a2. install_tether A False txn tid tc key a1 = Some (Inr (), a2) \<and>
       elt_get ft (ad_elt a2) = None)) \<and>
    (\<exists>a2. deny_tether txn a1 = Some (Inr (), a2) \<and> elt_get ft (ad_elt a2) = None)"
proof -
  have inv: "adapter_inv a" using adapter_run.inv_reachable [OF refl run] .
  obtain a1 where a1: "do_request_tether_id A (Some True) pkt a = Some a1" "adapter_inv a1"
    "elt_table (ad_elt a1) ft = Some (EltPending pkt txn)" "ad_out a1 = ad_out a @ [Send_Bind_Request txn (l3_type ft) b]"
    using request_fresh [OF inv b ft local free] by blast
  have again: "\<exists>a2 c. do_request_tether_id A (Some True) pkt2 a1 = Some a2 \<and> ad_out a2 = ad_out a1 @ [Count_Event c]"
    if "mtuple (md pkt2) = ft" "body pkt2 = Some b2" for pkt2 b2
    using request_again [OF a1(2) that(2), of _ A] a1(3) that(1) local by simp
  have active: "\<exists>a2. install_tether A False txn tid tc key a1 = Some (Inr (), a2) \<and>
       ad_out a2 = ad_out a1 @ [Requeue_Packet pkt] \<and>
       (\<exists>pep. elt_get ft (ad_elt a2) = Some (EltActive pep) \<and> ep_tether_id pep = tid \<and>
          ep_compression_mode pep = compression_mode (al_net A) tc)" if "classify_5t tc ft" for tid tc key
    using install_tether_activates [OF a1(2,3) that, of A tid key] by (auto simp: elt_pep_new_def)
  show ?thesis
    using a1(1,4) again active remove_waiting [OF a1(2,3)] by blast
qed

theorem first_packet_gets_tether_witness:
  "\<exists>a1 a2. do_request_tether_id demo_adapter_lib (Some True) demo_packet adapter_new = Some a1 \<and>
     ad_out a1 = [Send_Bind_Request 0 0 [7, 8]] \<and>
     install_tether demo_adapter_lib False 0 9 (mtuple (md demo_packet)) None a1 = Some (Inr (), a2) \<and>
     ad_out a2 = [Send_Bind_Request 0 0 [7, 8], Requeue_Packet demo_packet]"
proof -
  have tc: "classify_5t (mtuple (md demo_packet)) (mtuple (md demo_packet))" by (simp add: classify_5t_def)
  note first_packet_gets_tether [OF rtranclp.rtrancl_refl demo_body refl demo_adapter_facts(3,1,2,4)]
  then show ?thesis
    unfolding demo_adapter_facts append_Nil
  proof (elim exE conjE)
    fix a1 assume a1: "do_request_tether_id demo_adapter_lib (Some True) demo_packet adapter_new = Some a1"
      "ad_out a1 = [Send_Bind_Request 0 0 [7, 8]]"
    assume "\<forall>tid tc key. classify_5t tc (mtuple (md demo_packet)) \<longrightarrow>
      (\<exists>a2. install_tether demo_adapter_lib False 0 tid tc key a1 = Some (Inr (), a2) \<and>
        ad_out a2 = ad_out a1 @ [Requeue_Packet demo_packet] \<and>
        (\<exists>pep. elt_get (mtuple (md demo_packet)) (ad_elt a2) = Some (EltActive pep) \<and> ep_tether_id pep = tid \<and>
          ep_compression_mode pep = compression_mode (al_net demo_adapter_lib) tc))"
    from this [THEN spec, of 9] tc a1 show ?thesis by fastforce
  qed
qed

end
