(* ===== verification/Spec2Isabelle.thy ===== *)
theory Spec2Isabelle
  imports Zdpr_Guarantees Compress Tlv Sample_Ring Link_Lifecycle Link_Renewal_Facts
    Mgmt_Roundtrip Adapter_Binds
begin

text \<open>
  Verification development of the packet handler of the ZPR core
  (\<open>src/adapter/ph/src\<close>), the process that runs as a node or as an adapter of a ZPR
  network.

  \<^bold>\<open>The program.\<close>  An adapter tethers to a node over a link.  The link is brought up by a key
  exchange, a hello exchange, an authentication and the grant of an address
  (\<open>link_state.rs\<close>, \<open>auth.rs\<close>, \<open>address_pool.rs\<close>); while it is up it is kept alive, its
  authentication is renewed before it expires, and in the end it is closed.  The management
  messages of a link travel over a session that retransmits and acknowledges them
  (\<open>zdpr.rs\<close>, \<open>mgmt/dispatch.rs\<close>, \<open>zdpr_worker.rs\<close>), with options encoded by \<open>tlv.rs\<close>.
  User traffic is held in buffers with headroom (\<open>packet.rs\<close>), classified (\<open>classifier.rs\<close>),
  described by traffic classifiers (\<open>tc.rs\<close>) and sent with compressed headers
  (\<open>compress.rs\<close>).

  \<^bold>\<open>Conventions.\<close>  A panic of the Rust code is the value \<open>None\<close>; a \<open>Result<T, E>\<close> is a sum
  whose left side is the error; machine integers are words and a \<open>usize\<close> that indexes a
  buffer is a natural number.  An addition or subtraction that overflows panics, as in a
  build with overflow checks.  Libraries that are not part of the sources are records
  of functions: \<open>auth_lib\<close> (base64, JSON, hashing, signing, certificates), \<open>net_lib\<close> and
  \<open>tlv_lib\<close>; what is assumed of them is in predicates such as \<open>auth_lib_ok\<close>, and each has an
  instance on which witnesses are evaluated.  Log output is left out.

  \<^bold>\<open>Prelude and Byte_Codec.\<close>  Shared lemmas on options, sums, lists and words, the locale
  \<open>invariant_system\<close> (a step relation and an invariant, interpreted for the sender, the
  reliable link and its serial use, the packet buffer and the link state machine), codecs,
  and the locale \<open>readable\<close> for buffers, interpreted for byte strings and for packets.

  \<^bold>\<open>Reliable session.\<close>  \<open>Zdpr_Sender\<close> and \<open>Zdpr_Receiver\<close> model the two halves of \<open>zdpr.rs\<close>;
  \<open>Zdpr_Contract\<close> relates the sender to the packet state machine that the file documents;
  \<open>Zdpr_Link\<close> composes both halves with the handlers of \<open>mgmt/dispatch.rs\<close> over a network that
  loses, duplicates and reorders; \<open>Zdpr_Guarantees\<close> has the guarantees: delivery at most
  once, acknowledged only when delivered, never delivered once reported canceled, progress by
  retransmission, and no panic.

  \<^bold>\<open>Data plane.\<close>  \<open>Packet\<close> and \<open>Packet_View\<close> (buffers; every operation stays inside the buffer,
  and what push, append, advance, adopt and serialize do), \<open>Classifier\<close> (the classification
  describes the packet, and exactly when it panics), \<open>Tc\<close> and \<open>Tlv\<close> (wire formats and their
  round trips), \<open>Compress\<close> (expansion inverts compression where headers have no options).

  \<^bold>\<open>Authentication and addresses.\<close>  \<open>Auth\<close> models the challenge, the blobs, their encoding
  and all checks of \<open>auth.rs\<close>.  \<open>Address_Pool\<close> models \<open>address_pool.rs\<close>; the search for a free
  identifier is a partial function, and that it ends while fewer than 2^40 - 1 identifiers
  are in use is proved.  \<open>Sample_Ring\<close> models \<open>sample_ring.rs\<close>.

  \<^bold>\<open>Link state machine.\<close>  \<open>Link_State\<close> has the state of a link: the record \<open>link\<close> joins
  \<open>LinkStateMachine\<close> (fields \<open>ls_\<close>), \<open>LinkData\<close> (\<open>ld_\<close>), the address pool it shares
  (\<open>lw_pool\<close>) and the list \<open>lw_out\<close> of what it does to the rest of the process: messages,
  timers, calls to the visa service, TUN configuration.  What a handler reads from the rest
  of the process is an argument of type \<open>link_env\<close>, which may differ from call to call.
  A spawned task is a function that gives the event it raises when it completes.
  \<open>Link_Close\<close>, \<open>Link_Handshake\<close>, \<open>Link_Grant\<close>, \<open>Link_Renewal\<close> and \<open>Link_Machine\<close> have the
  handlers of \<open>link_state.rs\<close> with the functions of \<open>visa_mgmt.rs\<close> they call, and the dispatch
  \<open>process_event\<close>.  \<open>Link_Invariant\<close> has the invariant; \<open>Link_Safety\<close> that no handler panics
  on a reachable link; \<open>Link_Diagram\<close> the transition diagram as an abstract machine, which
  the handlers refine; \<open>Link_Guarantees\<close> that a node makes a link ready only after
  verified authentication and that timers and logins of an earlier state have no effect, as
  long as fewer than 2^61 operations lie in between (the logical clock has 64 bits);
  \<open>Link_Lifecycle\<close> the keep-alive tolerance, that a close runs to its end, and two ways in
  which a failed bring-up is not dealt with; \<open>Link_Renewal_Facts\<close> the timing and soundness of
  a renewal and that the exchange between node and adapter succeeds.

  \<^bold>\<open>Not modelled.\<close>  System calls, sockets, TUN devices and routes (\<open>batch_io.rs\<close>, \<open>sys/\<close>),
  the Noise key exchange (\<open>km*.rs\<close>), RPC over generated code (\<open>libnode2\<close>, \<open>admin-api\<close>), the
  command-line tools, and configuration and logging.  Interleaving inside a handler is not
  modelled: a handler holds the lock of its state machine while it decides, and the model
  runs handlers one after another.  Error texts that are formatted from values are shortened
  to their constant parts.

  \<^bold>\<open>Plan.\<close>  The visa table, the adapter, peer and forwarding tables, the transaction
  manager and the handlers of management messages, the queues, and the fast path as the
  composition of packet, classifier, compressor and tables.
\<close>

end
